(* ===== verification/Prelude.thy ===== *)
theory Prelude
  imports Main "HOL-Library.List_Lexorder" "HOL-Library.Char_ord"
begin

text \<open>
  Shared vocabulary of the development: the parts of Rust's standard library the
  modelled crates use, on the representations chosen here, and the generic lemmas the
  component theories share.

  A Rust \<open>str\<close> or \<open>String\<close> is a UTF-8 byte sequence, so it is modelled by
  HOL's \<open>string\<close>, a list of 8-bit \<open>char\<close>s: \<open>len()\<close> is \<open>length\<close>, \<open>cmp\<close> is the
  lexicographic order on bytes, an ASCII literal is a literal.  Where the source walks
  \<open>chars()\<close>, \<open>chars\<close> below cuts the bytes into characters at the bytes that are not
  UTF-8 continuation bytes.  A fallible function returns \<open>error + value\<close> or an
  \<open>option\<close>.  An \<open>i64\<close> is an \<open>int\<close>, with the saturating and wrapping casts written
  out; an \<open>f64\<close> is a dyadic rational or one of the three non-finite values.
\<close>

named_theorems std_simps \<open>evaluation rules for the modelled parts of Rust's standard library\<close>

text \<open>A \<open>Vec<u8>\<close> that is not text.\<close>

type_synonym bytes = "nat list"

text \<open>The question mark operator, and what it propagates.\<close>

definition bind_sum :: "'e + 'a \<Rightarrow> ('a \<Rightarrow> 'e + 'b) \<Rightarrow> 'e + 'b" where
  "bind_sum r f = (case r of Inl e \<Rightarrow> Inl e | Inr x \<Rightarrow> f x)"

lemma bind_sum_simps [simp]: "bind_sum (Inl e) f = Inl e" "bind_sum (Inr x) f = f x"
  by (simp_all add: bind_sum_def)

lemma bind_sum_Inr_iff: "bind_sum r f = Inr z \<longleftrightarrow> (\<exists>x. r = Inr x \<and> f x = Inr z)"
  by (cases r) auto

lemma bind_sum_cong [fundef_cong]:
  "r = r' \<Longrightarrow> (\<And>x. r' = Inr x \<Longrightarrow> f x = g x) \<Longrightarrow> bind_sum r f = bind_sum r' g"
  by (cases r') auto

lemma map_sum_InrE: "map_sum id f r = Inr z \<Longrightarrow> (\<And>x. r = Inr x \<Longrightarrow> z = f x \<Longrightarrow> P) \<Longrightarrow> P"
  by (cases r) auto

section \<open>Calls without the interpreter lock\<close>

text \<open>\<open>nogvl\<close> of \<open>src/ext/yrby/src/lib.rs\<close> runs its closure first and then checks for interrupts,
  so an interrupt comes back as an error after the work is done: \<open>intr\<close> is that interrupt,
  if any.\<close>

definition nogvl :: "string option \<Rightarrow> 'r \<Rightarrow> string + 'r" where
  "nogvl intr r = (case intr of Some e \<Rightarrow> Inl e | None \<Rightarrow> Inr r)"

text \<open>\<open>nogvl(..)?.map_err(yrb_error)?\<close> on a closure that may fail.\<close>

definition nogvl_try :: "string option \<Rightarrow> string + 'r \<Rightarrow> string + 'r" where
  "nogvl_try intr r = bind_sum (nogvl intr r) (\<lambda>x. x)"

section \<open>Characters and strings\<close>

text \<open>The double quote, as a one-character string.\<close>

abbreviation dquote :: string where
  "dquote \<equiv> [CHR 0x22]"

abbreviation byte_val :: "char \<Rightarrow> nat" where
  "byte_val \<equiv> of_char"

definition is_cont_byte :: "char \<Rightarrow> bool" where
  "is_cont_byte c \<longleftrightarrow> 128 \<le> byte_val c \<and> byte_val c < 192"

text \<open>\<open>str::chars\<close>: each character is kept as its bytes.\<close>

function chars :: "string \<Rightarrow> string list" where
  "chars [] = []"
| "chars (c # cs) = (c # takeWhile is_cont_byte cs) # chars (dropWhile is_cont_byte cs)"
  by pat_completeness auto
termination
  by (relation "measure length") (auto simp: le_imp_less_Suc length_dropWhile_le)

text \<open>The scalar value of a character given by its bytes.\<close>

definition code_point :: "string \<Rightarrow> nat" where
  "code_point bs = (case map byte_val bs of
      [a] \<Rightarrow> a
    | [a, b] \<Rightarrow> (a mod 32) * 64 + b mod 64
    | [a, b, c] \<Rightarrow> (a mod 16) * 4096 + (b mod 64) * 64 + c mod 64
    | [a, b, c, d] \<Rightarrow> (a mod 8) * 262144 + (b mod 64) * 4096 + (c mod 64) * 64 + d mod 64
    | _ \<Rightarrow> 65533)"

text \<open>\<open>char::len_utf16\<close> and \<open>str::encode_utf16().count()\<close>.\<close>

definition len_utf16 :: "string \<Rightarrow> nat" where
  "len_utf16 c = (if 65536 \<le> code_point c then 2 else 1)"

definition utf16_count :: "string \<Rightarrow> nat" where
  "utf16_count s = sum_list (map len_utf16 (chars s))"

text \<open>\<open>char::is_whitespace\<close> (the Unicode property White\_Space) and \<open>char::is_control\<close>
  (the general category Cc).\<close>

definition is_whitespace :: "string \<Rightarrow> bool" where
  "is_whitespace c = (let p = code_point c in
     (9 \<le> p \<and> p \<le> 13) \<or> p = 32 \<or> p = 133 \<or> p = 160 \<or> p = 5760 \<or> (8192 \<le> p \<and> p \<le> 8202)
     \<or> p = 8232 \<or> p = 8233 \<or> p = 8239 \<or> p = 8287 \<or> p = 12288)"

definition is_control :: "string \<Rightarrow> bool" where
  "is_control c = (let p = code_point c in p < 32 \<or> (127 \<le> p \<and> p < 160))"

definition is_ascii_alphabetic :: "char \<Rightarrow> bool" where
  "is_ascii_alphabetic c = (let b = byte_val c in (65 \<le> b \<and> b \<le> 90) \<or> (97 \<le> b \<and> b \<le> 122))"

definition is_ascii_digit :: "char \<Rightarrow> bool" where
  "is_ascii_digit c = (let b = byte_val c in 48 \<le> b \<and> b \<le> 57)"

definition is_ascii_alphanumeric :: "char \<Rightarrow> bool" where
  "is_ascii_alphanumeric c = (is_ascii_alphabetic c \<or> is_ascii_digit c)"

definition is_ascii_uppercase :: "char \<Rightarrow> bool" where
  "is_ascii_uppercase c = (let b = byte_val c in 65 \<le> b \<and> b \<le> 90)"

definition is_ascii_str :: "string \<Rightarrow> bool" where
  "is_ascii_str s = list_all (\<lambda>c. byte_val c < 128) s"

definition ascii_lower :: "char \<Rightarrow> char" where
  "ascii_lower c = (if is_ascii_uppercase c then char_of (byte_val c + 32 :: nat) else c)"

definition to_ascii_lowercase :: "string \<Rightarrow> string" where
  "to_ascii_lowercase s = map ascii_lower s"

text \<open>\<open>str::replace\<close> of one ASCII character by a string.\<close>

definition replace_char :: "char \<Rightarrow> string \<Rightarrow> string \<Rightarrow> string" where
  "replace_char c r s = concat (map (\<lambda>x. if x = c then r else [x]) s)"

text \<open>\<open>str::split_once\<close> and \<open>str::split\<close> at an ASCII character, and \<open>str::trim\<close>.\<close>

fun split_once :: "char \<Rightarrow> string \<Rightarrow> (string \<times> string) option" where
  "split_once c [] = None"
| "split_once c (x # xs) =
     (if x = c then Some ([], xs)
      else map_option (\<lambda>(a, b). (x # a, b)) (split_once c xs))"

fun split_char :: "char \<Rightarrow> string \<Rightarrow> string list" where
  "split_char c [] = [[]]"
| "split_char c (x # xs) =
     (if x = c then [] # split_char c xs
      else (case split_char c xs of [] \<Rightarrow> [[x]] | p # ps \<Rightarrow> (x # p) # ps))"

definition trim :: "string \<Rightarrow> string" where
  "trim s = concat (rev (dropWhile is_whitespace (rev (dropWhile is_whitespace (chars s)))))"

text \<open>\<open>[T]::join\<close> of strings.\<close>

fun join :: "string \<Rightarrow> string list \<Rightarrow> string" where
  "join sep [] = []"
| "join sep [x] = x"
| "join sep (x # y # ys) = x @ sep @ join sep (y # ys)"

section \<open>Numbers\<close>

definition digit_char :: "nat \<Rightarrow> char" where
  "digit_char d = char_of (48 + d)"

fun string_of_nat :: "nat \<Rightarrow> string" where
  "string_of_nat n =
     (if n < 10 then [digit_char n] else string_of_nat (n div 10) @ [digit_char (n mod 10)])"

declare string_of_nat.simps [simp del]

text \<open>\<open>i64::to_string\<close>.\<close>

definition string_of_int :: "int \<Rightarrow> string" where
  "string_of_int i = (if i < 0 then ''-'' @ string_of_nat (nat (- i)) else string_of_nat (nat i))"

text \<open>A finite \<open>f64\<close> is \<open>m / 2^k\<close>.  The casts to integers truncate towards zero and
  saturate, and send NaN to 0.\<close>

datatype f64 = Finite int nat | Infinite | NegInfinite | NaN

definition trunc_div :: "int \<Rightarrow> int \<Rightarrow> int" where
  "trunc_div a b = sgn a * (\<bar>a\<bar> div b)"

definition clamp :: "int \<Rightarrow> int \<Rightarrow> int \<Rightarrow> int" where
  "clamp lo hi x = max lo (min hi x)"

definition i64_min :: int where "i64_min = - (2 ^ 63)"

definition i64_max :: int where "i64_max = 2 ^ 63 - 1"

definition u32_max :: int where "u32_max = 2 ^ 32 - 1"

fun f64_to_int :: "int \<Rightarrow> int \<Rightarrow> f64 \<Rightarrow> int" where
  "f64_to_int lo hi (Finite m k) = clamp lo hi (trunc_div m (2 ^ k))"
| "f64_to_int lo hi Infinite = hi"
| "f64_to_int lo hi NegInfinite = lo"
| "f64_to_int lo hi NaN = 0"

definition f64_as_i64 :: "f64 \<Rightarrow> int" where
  "f64_as_i64 = f64_to_int i64_min i64_max"

definition f64_as_u32 :: "f64 \<Rightarrow> int" where
  "f64_as_u32 = f64_to_int 0 u32_max"

text \<open>\<open>n.fract() == 0.0\<close>, \<open>n > 0.0\<close> and \<open>n.abs() <= b\<close> for an integer bound.\<close>

fun f64_whole :: "f64 \<Rightarrow> bool" where
  "f64_whole (Finite m k) = (m mod 2 ^ k = 0)"
| "f64_whole _ = False"

fun f64_positive :: "f64 \<Rightarrow> bool" where
  "f64_positive (Finite m k) = (0 < m)"
| "f64_positive Infinite = True"
| "f64_positive _ = False"

fun f64_abs_le :: "int \<Rightarrow> f64 \<Rightarrow> bool" where
  "f64_abs_le b (Finite m k) = (\<bar>m\<bar> \<le> b * 2 ^ k)"
| "f64_abs_le b _ = False"

text \<open>\<open>i64 as u32\<close> keeps the low 32 bits.\<close>

definition i64_as_u32 :: "int \<Rightarrow> int" where
  "i64_as_u32 i = i mod 2 ^ 32"

section \<open>Generic lemmas\<close>

lemma concat_chars [simp]: "concat (chars s) = s"
  by (induction s rule: chars.induct) auto

lemma chars_eq_Nil_iff [simp]: "chars s = [] \<longleftrightarrow> s = []"
  by (cases s) auto

lemma replace_char_simps [simp, std_simps]:
  "replace_char c r [] = []"
  "replace_char c r (x # xs) = (if x = c then r else [x]) @ replace_char c r xs"
  by (simp_all add: replace_char_def)

lemma replace_char_append [simp]:
  "replace_char c r (xs @ ys) = replace_char c r xs @ replace_char c r ys"
  by (simp add: replace_char_def)

lemma set_replace_char:
  "set (replace_char c r s) \<subseteq> (set s - {c}) \<union> set r"
  by (auto simp: replace_char_def split: if_splits)

lemma split_once_SomeD:
  "split_once c s = Some (a, b) \<Longrightarrow> s = a @ c # b \<and> c \<notin> set a"
  by (induction s arbitrary: a b) (auto split: if_splits)

lemma split_once_None_iff: "split_once c s = None \<longleftrightarrow> c \<notin> set s"
  by (induction s) auto

lemma split_char_nonempty [simp]: "split_char c s \<noteq> []"
  by (induction s) (auto split: list.splits)

lemma join_Cons: "join sep (x # xs) = x @ (if xs = [] then [] else sep @ join sep xs)"
  by (cases xs) auto

lemma join_split_char: "join [c] (split_char c s) = s"
proof (induction s)
  case (Cons x xs)
  then show ?case
    by (cases "split_char c xs") (auto simp: join_Cons)
qed simp

lemma clamp_bounds: "lo \<le> hi \<Longrightarrow> lo \<le> clamp lo hi x \<and> clamp lo hi x \<le> hi"
  by (simp add: clamp_def)

lemma foldl_push_rev: "foldl (\<lambda>st c. f c # st) st (rev cs) = map f cs @ st"
  by (induction cs) auto

text \<open>Sorting the entries of a map by key: the result depends on the map only.\<close>

lemma sort_key_fst_keys:
  assumes "distinct (map fst m)" and "distinct (map fst n)" and "fst ` set m = fst ` set n"
  shows "map fst (sort_key fst m) = map fst (sort_key fst (n :: (string \<times> 'b) list))"
proof (rule sorted_distinct_set_unique)
  show "distinct (map fst (sort_key fst m))" "distinct (map fst (sort_key fst n))"
    using assms by (simp_all add: distinct_map)
qed (use assms in \<open>simp_all\<close>)

lemma sorted_entries_match:
  assumes "distinct (map fst m)" and "distinct (map fst n)" and "fst ` set m = fst ` set n"
    and "\<And>k a b. (k, a) \<in> set m \<Longrightarrow> (k, b) \<in> set n \<Longrightarrow> P a b"
  shows "list_all2 (\<lambda>x y. fst x = fst y \<and> P (snd x) (snd y))
    (sort_key fst m) (sort_key fst (n :: (string \<times> 'b) list))"
  unfolding list_all2_conv_all_nth
proof (intro conjI allI impI)
  let ?m = "sort_key fst m" and ?n = "sort_key fst n"
  have keys: "map fst ?m = map fst ?n" by (rule sort_key_fst_keys [OF assms(1-3)])
  then show len: "length ?m = length ?n" by (rule map_eq_imp_length_eq)
  fix i assume i: "i < length ?m"
  with len keys show k: "fst (?m ! i) = fst (?n ! i)" by (metis nth_map)
  have "?m ! i \<in> set m" "?n ! i \<in> set n" using i len nth_mem [of i ?m] nth_mem [of i ?n] by simp_all
  with k assms(4) show "P (snd (?m ! i)) (snd (?n ! i))" by (metis prod.collapse)
qed

lemma sort_key_fst_unique:
  assumes "distinct (map fst m)" and "distinct (map fst n)" and "set m = set (n :: (string \<times> 'b) list)"
  shows "sort_key fst m = sort_key fst n"
proof -
  have "list_all2 (\<lambda>x y. fst x = fst y \<and> snd x = snd y) (sort_key fst m) (sort_key fst n)"
    by (rule sorted_entries_match [OF assms(1,2)])
      (use assms in \<open>auto dest: eq_key_imp_eq_value\<close>)
  then show ?thesis by (induction rule: list_all2_induct) (auto simp: prod_eq_iff)
qed

end
