(* ===== verification/Protocol.thy ===== *)
theory Protocol
  imports Prelude
begin

text \<open>
  The protocol helpers of \<open>src/ext/yrby/src/protocol.rs\<close>: classifying a frame, extracting
  the document change it carries, deciding whether an update would integrate
  (\<open>update_is_ready\<close>) and whether it would change the document (\<open>update_advances_doc\<close>),
  and the gap-free encoding of a document (\<open>integrated_update\<close>).

  Documents, updates and state vectors are yrs's; every function of yrs the sources call
  is a field of the record \<open>yrs_sync\<close>.  What the code relies on is \<open>crdt_laws\<close>, stated on
  the changes a document has received (\<open>known\<close>), those an update carries (\<open>carries\<close>) and
  the causally closed part of a set of changes (\<open>integ\<close>).
\<close>

datatype 'sv sync_message = SyncStep1 'sv | SyncStep2 bytes | SyncUpdate bytes

datatype ('sv, 'aw) message =
    MSync "'sv sync_message"
  | MAuth "string option"
  | MAwarenessQuery
  | MAwareness 'aw
  | MCustom nat bytes

text \<open>\<open>decode_message\<close> returns the message and the bytes it left; \<open>read_messages\<close> is what a
  \<open>MessageReader\<close> yields; the two pending fields are \<open>is_some()\<close> of the store's;
  \<open>apply_leaves\<close> is the document a failed \<open>apply_update\<close> leaves.\<close>

record ('doc, 'upd, 'sv, 'aw) yrs_sync =
  decode_update :: "bytes \<Rightarrow> string + 'upd"
  upd_state_vector :: "'upd \<Rightarrow> 'sv"
  upd_state_vector_lower :: "'upd \<Rightarrow> 'sv"
  upd_delete_set_empty :: "'upd \<Rightarrow> bool"
  upd_insertions :: "'upd \<Rightarrow> (nat \<times> (nat \<times> nat) list) list"
  sv_default :: 'sv
  sv_is_empty :: "'sv \<Rightarrow> bool"
  sv_get :: "'sv \<Rightarrow> nat \<Rightarrow> nat"
  sv_ge :: "'sv \<Rightarrow> 'sv \<Rightarrow> bool"
  decode_sv :: "bytes \<Rightarrow> string + 'sv"
  encode_sv :: "'sv \<Rightarrow> bytes"
  doc_new :: 'doc
  doc_state_vector :: "'doc \<Rightarrow> 'sv"
  encode_state_as_update :: "'doc \<Rightarrow> 'sv \<Rightarrow> bytes"
  doc_apply_update :: "'doc \<Rightarrow> 'upd \<Rightarrow> string + 'doc"
  apply_leaves :: "'doc \<Rightarrow> 'upd \<Rightarrow> 'doc"
  pending_update :: "'doc \<Rightarrow> bool"
  pending_ds :: "'doc \<Rightarrow> bool"
  prune_pending :: "'doc \<Rightarrow> 'doc"
  merge_updates_v1 :: "bytes list \<Rightarrow> string + bytes"
  decode_message :: "bytes \<Rightarrow> string + (('sv, 'aw) message \<times> bytes)"
  read_messages :: "bytes \<Rightarrow> (string + ('sv, 'aw) message) list"
  encode_message :: "('sv, 'aw) message \<Rightarrow> bytes"

section \<open>Frames\<close>

definition classify_message :: "('doc, 'upd, 'sv, 'aw) yrs_sync \<Rightarrow> bytes \<Rightarrow> nat" where
  "classify_message c bs =
     (case decode_message c bs of
        Inl _ \<Rightarrow> 0
      | Inr (msg, rest) \<Rightarrow>
          if rest \<noteq> [] then 0
          else case msg of
              MSync (SyncStep1 _) \<Rightarrow> 1
            | MSync (SyncStep2 _) \<Rightarrow> 2
            | MSync (SyncUpdate _) \<Rightarrow> 2
            | MAwareness _ \<Rightarrow> 3
            | MAwarenessQuery \<Rightarrow> 4
            | _ \<Rightarrow> 0)"

text \<open>The loop over the messages of a frame: an error ends it.\<close>

fun collect_updates :: "(string + ('sv, 'aw) message) list \<Rightarrow> string + bytes list" where
  "collect_updates [] = Inr []"
| "collect_updates (Inl e # _) = Inl e"
| "collect_updates (Inr (MSync (SyncUpdate u)) # ms) = map_sum id ((#) u) (collect_updates ms)"
| "collect_updates (Inr (MSync (SyncStep2 u)) # ms) = map_sum id ((#) u) (collect_updates ms)"
| "collect_updates (Inr _ # ms) = collect_updates ms"

definition upd_is_noop :: "('doc, 'upd, 'sv, 'aw) yrs_sync \<Rightarrow> 'upd \<Rightarrow> bool" where
  "upd_is_noop c u =
     (sv_is_empty c (upd_state_vector c u) \<and> upd_delete_set_empty c u
      \<and> sv_is_empty c (upd_state_vector_lower c u))"

definition merged_doc_update ::
  "('doc, 'upd, 'sv, 'aw) yrs_sync \<Rightarrow> bytes \<Rightarrow> string + bytes option" where
  "merged_doc_update c bs =
     bind_sum (collect_updates (read_messages c bs)) (\<lambda>updates.
       if updates = [] then Inr None
       else bind_sum (case updates of [u] \<Rightarrow> Inr u | _ \<Rightarrow> merge_updates_v1 c updates) (\<lambda>merged.
         bind_sum (decode_update c merged) (\<lambda>update.
           if upd_is_noop c update then Inr None else Inr (Some merged))))"

section \<open>Documents\<close>

definition has_pending :: "('doc, 'upd, 'sv, 'aw) yrs_sync \<Rightarrow> 'doc \<Rightarrow> bool" where
  "has_pending c d = (pending_update c d \<or> pending_ds c d)"

definition integrated_update ::
  "('doc, 'upd, 'sv, 'aw) yrs_sync \<Rightarrow> 'doc \<Rightarrow> 'sv \<Rightarrow> string + bytes" where
  "integrated_update c d sv =
     (if \<not> pending_update c d \<and> \<not> pending_ds c d then Inr (encode_state_as_update c d sv)
      else
        let full = encode_state_as_update c d (sv_default c)
        in bind_sum (decode_update c full) (\<lambda>u.
             bind_sum (doc_apply_update c (doc_new c) u) (\<lambda>clean.
               Inr (encode_state_as_update c (prune_pending c clean) sv))))"

definition update_is_ready :: "('doc, 'upd, 'sv, 'aw) yrs_sync \<Rightarrow> 'doc \<Rightarrow> bytes \<Rightarrow> string + bool" where
  "update_is_ready c d bs =
     bind_sum (decode_update c bs) (\<lambda>update.
       if \<not> sv_ge c (doc_state_vector c d) (upd_state_vector_lower c update) then Inr False
       else bind_sum (integrated_update c d (sv_default c)) (\<lambda>seed.
         bind_sum (decode_update c seed) (\<lambda>s.
           bind_sum (doc_apply_update c (doc_new c) s) (\<lambda>probe.
             bind_sum (doc_apply_update c probe update) (\<lambda>probe'.
               Inr (\<not> has_pending c probe'))))))"

text \<open>The loop over the insertions: a range past a non-zero cap reveals a hidden gap.\<close>

definition hides_gap :: "('doc, 'upd, 'sv, 'aw) yrs_sync \<Rightarrow> 'upd \<Rightarrow> bool" where
  "hides_gap c update =
     list_ex (\<lambda>(client, ranges).
         let cap = sv_get c (upd_state_vector c update) client
         in cap > 0 \<and> list_ex (\<lambda>(_, end). end > cap) ranges)
       (upd_insertions c update)"

definition update_advances_doc ::
  "('doc, 'upd, 'sv, 'aw) yrs_sync \<Rightarrow> 'doc \<Rightarrow> bytes \<Rightarrow> string + bool" where
  "update_advances_doc c d bs =
     bind_sum (decode_update c bs) (\<lambda>update.
       let has_deletes = \<not> upd_delete_set_empty c update
       in if hides_gap c update then Inr True
          else if \<not> has_deletes \<and> \<not> sv_ge c (doc_state_vector c d) (upd_state_vector c update) then Inr True
          else
            let current = encode_state_as_update c d (sv_default c)
            in bind_sum (decode_update c current) (\<lambda>cur.
               bind_sum (doc_apply_update c (doc_new c) cur) (\<lambda>probe.
                 let pending_before = (pending_update c probe \<or> pending_ds c probe)
                 in if has_deletes then
                      let before = encode_state_as_update c probe (sv_default c)
                      in bind_sum (doc_apply_update c probe update) (\<lambda>probe'.
                           Inr (before \<noteq> encode_state_as_update c probe' (sv_default c)))
                    else
                      let before = doc_state_vector c probe
                      in bind_sum (doc_apply_update c probe update) (\<lambda>probe'.
                           if before \<noteq> doc_state_vector c probe' then Inr True
                           else Inr ((pending_update c probe' \<or> pending_ds c probe') \<noteq> pending_before)))))"

section \<open>What the code relies on\<close>

text \<open>
  \<^item> \<open>integ\<close> is a kernel operator: the changes all of whose causes are there.
  \<^item> An empty document knows nothing; applying an update adds what it carries, and a decoded
    update can always be applied.
  \<^item> The full encoding of a document decodes, and carries all it knows, pending included.
  \<^item> A document has pending exactly when it knows changes it cannot integrate; pruning keeps
    the integrated ones.
  \<^item> An update whose lower bound the document's state vector does not cover leans on changes
    the document has not integrated.
\<close>

definition crdt_laws ::
  "('doc, 'upd, 'sv, 'aw) yrs_sync \<Rightarrow> ('doc \<Rightarrow> 'c set) \<Rightarrow> ('upd \<Rightarrow> 'c set) \<Rightarrow> ('c set \<Rightarrow> 'c set) \<Rightarrow> bool" where
  "crdt_laws c known carries integ \<longleftrightarrow>
     (\<forall>S. integ S \<subseteq> S) \<and> (\<forall>S T. S \<subseteq> T \<longrightarrow> integ S \<subseteq> integ T) \<and> (\<forall>S. integ (integ S) = integ S)
     \<and> known (doc_new c) = {}
     \<and> (\<forall>d u. \<exists>d'. doc_apply_update c d u = Inr d' \<and> known d' = known d \<union> carries u)
     \<and> (\<forall>d. \<exists>u. decode_update c (encode_state_as_update c d (sv_default c)) = Inr u \<and> carries u = known d)
     \<and> (\<forall>d. has_pending c d \<longleftrightarrow> integ (known d) \<noteq> known d)
     \<and> (\<forall>d. known (prune_pending c d) = integ (known d))
     \<and> (\<forall>d u. \<not> sv_ge c (doc_state_vector c d) (upd_state_vector_lower c u) \<longrightarrow>
          integ (integ (known d) \<union> carries u) \<noteq> integ (known d) \<union> carries u)"

text \<open>
  What deciding that an update is nothing new relies on:
  \<^item> the state vector, and the encoding after an update that brings nothing, are those of the
    changes known;
  \<^item> a document that has integrated what an update carries covers the update's state vector;
  \<^item> an update without deletions and without a hidden gap moves the state vector when it
    moves what is integrated.
\<close>

definition advance_laws ::
  "('doc, 'upd, 'sv, 'aw) yrs_sync \<Rightarrow> ('doc \<Rightarrow> 'c set) \<Rightarrow> ('upd \<Rightarrow> 'c set) \<Rightarrow> ('c set \<Rightarrow> 'c set) \<Rightarrow> bool" where
  "advance_laws c known carries integ \<longleftrightarrow>
     (\<forall>d d'. known d = known d' \<longrightarrow> doc_state_vector c d = doc_state_vector c d')
     \<and> (\<forall>d u d'. doc_apply_update c d u = Inr d' \<longrightarrow> known d' = known d \<longrightarrow>
          encode_state_as_update c d' (sv_default c) = encode_state_as_update c d (sv_default c))
     \<and> (\<forall>d u. carries u \<subseteq> integ (known d) \<longrightarrow> sv_ge c (doc_state_vector c d) (upd_state_vector c u))
     \<and> (\<forall>d u d'. doc_apply_update c d u = Inr d' \<longrightarrow> upd_delete_set_empty c u \<longrightarrow> \<not> hides_gap c u \<longrightarrow>
          integ (known d') \<noteq> integ (known d) \<longrightarrow> doc_state_vector c d' \<noteq> doc_state_vector c d)"

text \<open>An update is ready when, on top of what the document has integrated, nothing it
  carries is left waiting.\<close>

definition ready_over :: "('c set \<Rightarrow> 'c set) \<Rightarrow> 'c set \<Rightarrow> 'c set \<Rightarrow> bool" where
  "ready_over integ S C \<longleftrightarrow> integ (integ S \<union> C) = integ S \<union> C"

lemma crdt_lawsD:
  assumes "crdt_laws c known carries integ"
  shows "integ S \<subseteq> S" "S \<subseteq> T \<Longrightarrow> integ S \<subseteq> integ T" "integ (integ S) = integ S"
    "known (doc_new c) = {}"
    "\<exists>d'. doc_apply_update c d u = Inr d' \<and> known d' = known d \<union> carries u"
    "\<exists>u. decode_update c (encode_state_as_update c d (sv_default c)) = Inr u \<and> carries u = known d"
    "has_pending c d \<longleftrightarrow> integ (known d) \<noteq> known d"
    "known (prune_pending c d) = integ (known d)"
    "\<not> sv_ge c (doc_state_vector c d) (upd_state_vector_lower c u) \<Longrightarrow>
       integ (integ (known d) \<union> carries u) \<noteq> integ (known d) \<union> carries u"
  using assms by (simp_all add: crdt_laws_def)

text \<open>The gap-free encoding carries exactly what the document has integrated.\<close>

lemma integrated_update_carries:
  assumes laws: "crdt_laws c known carries integ"
  shows "\<exists>bs u. integrated_update c d (sv_default c) = Inr bs \<and> decode_update c bs = Inr u
    \<and> carries u = integ (known d)"
proof (cases "has_pending c d")
  case False
  with crdt_lawsD(6,7) [OF laws, of d] show ?thesis
    by (auto simp: integrated_update_def has_pending_def)
next
  case True
  obtain u where u: "decode_update c (encode_state_as_update c d (sv_default c)) = Inr u" "carries u = known d"
    using crdt_lawsD(6) [OF laws] by blast
  obtain clean where cl: "doc_apply_update c (doc_new c) u = Inr clean" "known clean = known d"
    using crdt_lawsD(5) [OF laws, of "doc_new c" u] crdt_lawsD(4) [OF laws] u(2) by auto
  obtain v where "decode_update c (encode_state_as_update c (prune_pending c clean) (sv_default c)) = Inr v"
    "carries v = integ (known d)"
    using crdt_lawsD(6) [OF laws, of "prune_pending c clean"] crdt_lawsD(8) [OF laws] cl(2) by auto
  with True u cl show ?thesis
    by (auto simp: integrated_update_def has_pending_def Let_def)
qed

text \<open>\<open>update_is_ready\<close> decides exactly that.\<close>

lemma update_is_ready_exact:
  assumes laws: "crdt_laws c known carries integ" and u: "decode_update c bs = Inr u"
  shows "update_is_ready c d bs = Inr (ready_over integ (known d) (carries u))"
proof (cases "sv_ge c (doc_state_vector c d) (upd_state_vector_lower c u)")
  case False
  with crdt_lawsD(9) [OF laws False] u show ?thesis
    by (simp add: update_is_ready_def ready_over_def)
next
  case True
  obtain seed s where s: "integrated_update c d (sv_default c) = Inr seed" "decode_update c seed = Inr s"
    "carries s = integ (known d)"
    using integrated_update_carries [OF laws] by blast
  obtain probe where p: "doc_apply_update c (doc_new c) s = Inr probe" "known probe = integ (known d)"
    using crdt_lawsD(5) [OF laws, of "doc_new c" s] crdt_lawsD(4) [OF laws] s(3) by auto
  obtain probe' where p': "doc_apply_update c probe u = Inr probe'" "known probe' = integ (known d) \<union> carries u"
    using crdt_lawsD(5) [OF laws, of probe u] p(2) by auto
  show ?thesis
    using True u s p p' crdt_lawsD(7) [OF laws, of probe']
    by (simp add: update_is_ready_def ready_over_def)
qed

lemma ready_known_integrated:
  assumes laws: "crdt_laws c known carries integ" and "ready_over integ S C" and "C \<subseteq> S"
  shows "C \<subseteq> integ S"
proof -
  have "integ S \<union> C \<subseteq> S" using assms(3) crdt_lawsD(1) [OF laws] by blast
  from crdt_lawsD(2) [OF laws this] assms(2) show ?thesis by (auto simp: ready_over_def)
qed

lemma ready_grows:
  assumes laws: "crdt_laws c known carries integ" and "ready_over integ S C" and "\<not> C \<subseteq> S"
  shows "integ (S \<union> C) \<noteq> integ S"
proof -
  have "integ S \<union> C \<subseteq> S \<union> C" using crdt_lawsD(1) [OF laws] by blast
  from crdt_lawsD(2) [OF laws this] assms(2) have "C \<subseteq> integ (S \<union> C)" by (auto simp: ready_over_def)
  with assms(3) crdt_lawsD(1) [OF laws, of S] show ?thesis by blast
qed

text \<open>For a ready update without a hidden gap, \<open>update_advances_doc\<close> decides whether it
  carries a change the document does not have.\<close>

lemma update_advances_exact:
  assumes laws: "crdt_laws c known carries integ" and adv: "advance_laws c known carries integ"
    and u: "decode_update c bs = Inr u" and ready: "ready_over integ (known d) (carries u)"
    and gap: "\<not> hides_gap c u"
  shows "update_advances_doc c d bs = Inr (\<not> carries u \<subseteq> known d)"
proof -
  obtain cur where cur: "decode_update c (encode_state_as_update c d (sv_default c)) = Inr cur" "carries cur = known d"
    using crdt_lawsD(6) [OF laws] by blast
  obtain probe where p: "doc_apply_update c (doc_new c) cur = Inr probe" "known probe = known d"
    using crdt_lawsD(5) [OF laws, of "doc_new c" cur] crdt_lawsD(4) [OF laws] cur(2) by auto
  obtain probe' where p': "doc_apply_update c probe u = Inr probe'" "known probe' = known d \<union> carries u"
    using crdt_lawsD(5) [OF laws, of probe u] p(2) by auto
  have enc: "encode_state_as_update c probe (sv_default c) = encode_state_as_update c probe' (sv_default c)
      \<longleftrightarrow> carries u \<subseteq> known d"
  proof
    assume "encode_state_as_update c probe (sv_default c) = encode_state_as_update c probe' (sv_default c)"
    then have "known probe = known probe'" using crdt_lawsD(6) [OF laws] by (metis sum.inject(2))
    then show "carries u \<subseteq> known d" using p p' by blast
  next
    assume "carries u \<subseteq> known d"
    then have "known probe' = known probe" using p p' by blast
    with adv p' show "encode_state_as_update c probe (sv_default c) = encode_state_as_update c probe' (sv_default c)"
      unfolding advance_laws_def by metis
  qed
  show ?thesis
  proof (cases "carries u \<subseteq> known d")
    case True
    then have sub: "carries u \<subseteq> integ (known d)" by (rule ready_known_integrated [OF laws ready])
    have same: "known probe' = known probe" using True p p' by blast
    have "has_pending c probe' = has_pending c probe" using crdt_lawsD(7) [OF laws] same by simp
    moreover have "doc_state_vector c probe = doc_state_vector c probe'"
      "sv_ge c (doc_state_vector c d) (upd_state_vector c u)"
      using adv same sub unfolding advance_laws_def by metis+
    ultimately show ?thesis
      using u gap cur p p' enc True by (simp add: update_advances_doc_def has_pending_def Let_def)
  next
    case False
    have "integ (known probe') \<noteq> integ (known probe)"
      using ready_grows [OF laws ready False] p p' by simp
    then have "doc_state_vector c probe \<noteq> doc_state_vector c probe'" if "upd_delete_set_empty c u"
      using adv p' gap that unfolding advance_laws_def by metis
    then show ?thesis
      using u gap cur p p' enc False by (auto simp: update_advances_doc_def Let_def)
  qed
qed

end
