(* ===== verification/Unsent.thy ===== *)
theory Unsent
  imports Prelude
begin

text \<open>
  The updates of a document's own transactions that no edit has returned yet
  (\<open>src/ext/yrby/src/lib.rs\<close>: \<open>Unsent\<close>, \<open>merge_unsent\<close>, \<open>merge_chunks\<close>, the observer of
  \<open>RbDoc::new\<close>, \<open>take_unsent\<close>, \<open>keep_unsent\<close>).  \<open>merge_updates\<close> is yrs's
  \<open>merge_updates_v1\<close>, an argument.

  \<open>take_unsent\<close> holds the lock only to empty the list and again to put the updates back,
  so the two halves are separate definitions, and a step relation interleaves them with
  the writes and takes of other threads.  The lemmas: merging level by level ends, calls
  yrs with at most \<open>MERGE_FAN_IN\<close> updates at a time and keeps what every update carries;
  and in every interleaving each local write is in the list, in flight in a take, or in an
  update that was returned.
\<close>

section \<open>Merging level by level\<close>

definition MERGE_FAN_IN :: nat where "MERGE_FAN_IN = 16"

text \<open>\<open>slice::chunks\<close>.\<close>

function chunks :: "nat \<Rightarrow> 'a list \<Rightarrow> 'a list list" where
  "chunks n xs = (if xs = [] \<or> n = 0 then [] else take n xs # chunks n (drop n xs))"
  by pat_completeness auto
termination by (relation "measure (\<lambda>(n, xs). length xs)") auto

declare chunks.simps [simp del]

text \<open>\<open>collect\<close> into a \<open>Result\<close>: the first error wins.\<close>

fun collect_results :: "('e + 'a) list \<Rightarrow> 'e + 'a list" where
  "collect_results [] = Inr []"
| "collect_results (r # rs) =
     (case r of Inl e \<Rightarrow> Inl e | Inr x \<Rightarrow> map_sum id ((#) x) (collect_results rs))"

definition merge_chunk :: "(bytes list \<Rightarrow> string + bytes) \<Rightarrow> bytes list \<Rightarrow> string + bytes" where
  "merge_chunk merge_updates chunk =
     (case chunk of [update] \<Rightarrow> Inr update | _ \<Rightarrow> merge_updates chunk)"

definition merge_chunks :: "(bytes list \<Rightarrow> string + bytes) \<Rightarrow> bytes list \<Rightarrow> string + bytes list" where
  "merge_chunks merge_updates updates =
     collect_results (map (merge_chunk merge_updates) (chunks MERGE_FAN_IN updates))"

lemma collect_results_map: "collect_results (map Inr xs) = Inr xs"
  by (induction xs) auto

lemma collect_results_InrD: "collect_results rs = Inr xs \<Longrightarrow> rs = map Inr xs"
  by (induction rs arbitrary: xs) (auto split: sum.splits elim!: map_sum_InrE)

lemma collect_results_Inr: "collect_results rs = Inr xs \<longleftrightarrow> rs = map Inr xs"
  using collect_results_map collect_results_InrD by blast

lemma length_collect_results: "collect_results rs = Inr xs \<Longrightarrow> length xs = length rs"
  by (simp add: collect_results_Inr)

lemma chunks_Nil [simp]: "chunks n [] = []"
  by (simp add: chunks.simps)

lemma chunks_step: "xs \<noteq> [] \<Longrightarrow> 0 < n \<Longrightarrow> chunks n xs = take n xs # chunks n (drop n xs)"
  by (simp add: chunks.simps [of n xs])

lemma concat_chunks: "0 < n \<Longrightarrow> concat (chunks n xs) = xs"
proof (induction n xs rule: chunks.induct)
  case (1 n xs)
  then show ?case by (cases "xs = []") (auto simp: chunks_step)
qed

lemma chunks_bounds: "c \<in> set (chunks n xs) \<Longrightarrow> 0 < length c \<and> length c \<le> n"
proof (induction n xs rule: chunks.induct)
  case (1 n xs)
  then show ?case
    by (cases "xs = [] \<or> n = 0") (auto simp: chunks.simps [of n xs])
qed

lemma length_chunks_le: "0 < n \<Longrightarrow> length (chunks n xs) \<le> length xs"
proof (induction n xs rule: chunks.induct)
  case (1 n xs)
  then show ?case
    by (cases "xs = []") (auto simp: chunks_step Suc_le_eq intro: le_less_trans)
qed

lemma length_chunks_less: "1 < n \<Longrightarrow> 1 < length xs \<Longrightarrow> length (chunks n xs) < length xs"
  using length_chunks_le [of n "drop n xs"] by (cases "xs = []") (auto simp: chunks_step)

text \<open>The \<open>while\<close> loop of \<open>merge_unsent\<close>: every round is shorter.\<close>

function merge_levels ::
  "(bytes list \<Rightarrow> string + bytes) \<Rightarrow> bytes list \<Rightarrow> string + bytes list" where
  "merge_levels merge_updates level =
     (if length level > 1
      then (case merge_chunks merge_updates level of
              Inl e \<Rightarrow> Inl e
            | Inr level' \<Rightarrow> merge_levels merge_updates level')
      else Inr level)"
  by pat_completeness auto
termination
  by (relation "measure (\<lambda>(f, level). length level)")
    (auto simp: merge_chunks_def MERGE_FAN_IN_def dest!: length_collect_results
      intro!: length_chunks_less)

declare merge_levels.simps [simp del]

text \<open>\<open>level.pop().unwrap_or_default()\<close>.\<close>

definition pop_or_default :: "bytes list \<Rightarrow> bytes" where
  "pop_or_default level = (if level = [] then [] else last level)"

definition merge_unsent :: "(bytes list \<Rightarrow> string + bytes) \<Rightarrow> bytes list \<Rightarrow> string + bytes" where
  "merge_unsent merge_updates updates =
     (case updates of
        [update] \<Rightarrow> Inr update
      | _ \<Rightarrow>
          (case merge_chunks merge_updates updates of
             Inl e \<Rightarrow> Inl e
           | Inr level \<Rightarrow> map_sum id pop_or_default (merge_levels merge_updates level)))"

section \<open>What a merge carries\<close>

text \<open>What an update carries is a set of changes; a merge carries the union.\<close>

definition merge_carries :: "(bytes \<Rightarrow> 'c set) \<Rightarrow> (bytes list \<Rightarrow> string + bytes) \<Rightarrow> bool" where
  "merge_carries content merge_updates \<longleftrightarrow>
     (\<forall>us m. us \<noteq> [] \<longrightarrow> merge_updates us = Inr m \<longrightarrow> content m = (\<Union>u \<in> set us. content u))"

lemma merge_carriesD:
  "merge_carries content mu \<Longrightarrow> us \<noteq> [] \<Longrightarrow> mu us = Inr m \<Longrightarrow> content m = (\<Union>u \<in> set us. content u)"
  by (simp add: merge_carries_def)

lemma merge_chunk_content:
  assumes "merge_carries content mu" and "c \<noteq> []" and "merge_chunk mu c = Inr m"
  shows "content m = (\<Union>u \<in> set c. content u)"
proof (cases "\<exists>u. c = [u]")
  case False
  then have "mu c = Inr m" using assms(2,3) by (auto simp: merge_chunk_def split: list.splits)
  with merge_carriesD [OF assms(1,2)] show ?thesis by blast
qed (use assms(3) in \<open>auto simp: merge_chunk_def\<close>)

lemma merge_chunks_Inr:
  "merge_chunks mu us = Inr level \<longleftrightarrow> map (merge_chunk mu) (chunks MERGE_FAN_IN us) = map Inr level"
  by (simp add: merge_chunks_def collect_results_Inr)

lemma merged_contents:
  assumes "merge_carries content mu" and "map (merge_chunk mu) cs = map Inr level" and "[] \<notin> set cs"
  shows "(\<Union>u \<in> set level. content u) = (\<Union>c \<in> set cs. \<Union>u \<in> set c. content u)"
  using assms(2,3)
proof (induction cs arbitrary: level)
  case (Cons c cs)
  then obtain m level' where l: "level = m # level'" by (cases level) auto
  have "content m = (\<Union>u \<in> set c. content u)"
    using Cons.prems l by (intro merge_chunk_content [OF assms(1)]) auto
  with Cons l show ?case by simp
qed simp

lemma merge_chunks_content:
  assumes "merge_carries content mu" and "merge_chunks mu us = Inr level"
  shows "(\<Union>u \<in> set level. content u) = (\<Union>u \<in> set us. content u)"
proof -
  have "[] \<notin> set (chunks MERGE_FAN_IN us)" using chunks_bounds by fastforce
  from merged_contents [OF assms(1) _ this] assms(2)
  have "(\<Union>u \<in> set level. content u) = (\<Union>u \<in> set (concat (chunks MERGE_FAN_IN us)). content u)"
    by (simp add: merge_chunks_Inr)
  then show ?thesis by (simp only: concat_chunks MERGE_FAN_IN_def zero_less_numeral)
qed

lemma merge_chunks_nonempty: "merge_chunks mu us = Inr level \<Longrightarrow> us \<noteq> [] \<Longrightarrow> level \<noteq> []"
  using chunks_step [of us MERGE_FAN_IN] by (auto simp: merge_chunks_Inr MERGE_FAN_IN_def)

lemma merge_levels_more:
  "1 < length level \<Longrightarrow> merge_levels mu level =
     (case merge_chunks mu level of Inl e \<Rightarrow> Inl e | Inr level' \<Rightarrow> merge_levels mu level')"
  by (subst merge_levels.simps) simp

lemma merge_levels_done: "\<not> 1 < length level \<Longrightarrow> merge_levels mu level = Inr level"
  by (subst merge_levels.simps) simp

lemma merge_levels_content:
  "merge_carries content mu \<Longrightarrow> merge_levels mu level = Inr out \<Longrightarrow> level \<noteq> [] \<Longrightarrow>
    \<exists>m. out = [m] \<and> content m = (\<Union>u \<in> set level. content u)"
proof (induction mu level rule: merge_levels.induct)
  case (1 mu level)
  show ?case
  proof (cases "length level > 1")
    case True
    with 1(3) obtain level' where l: "merge_chunks mu level = Inr level'" "merge_levels mu level' = Inr out"
      by (auto simp: merge_levels_more split: sum.splits)
    from 1(1) [OF True l(1) 1(2) l(2) merge_chunks_nonempty [OF l(1) 1(4)]]
    show ?thesis by (simp only: merge_chunks_content [OF 1(2) l(1)])
  next
    case False
    with 1(3,4) show ?thesis by (cases level) (auto simp: merge_levels_done)
  qed
qed

lemma merge_unsent_content:
  assumes "merge_carries content mu" and "merge_unsent mu us = Inr m" and "us \<noteq> []"
  shows "content m = (\<Union>u \<in> set us. content u)"
proof (cases "\<exists>u. us = [u]")
  case False
  with assms(2,3) obtain level out where l: "merge_chunks mu us = Inr level"
    "merge_levels mu level = Inr out" "m = pop_or_default out"
    by (auto simp: merge_unsent_def split: list.splits sum.splits elim!: map_sum_InrE)
  from merge_levels_content [OF assms(1) l(2) merge_chunks_nonempty [OF l(1) assms(3)]]
  show ?thesis
    using merge_chunks_content [OF assms(1) l(1)] l(3) by (auto simp: pop_or_default_def)
qed (use assms(2) in \<open>auto simp: merge_unsent_def\<close>)

text \<open>A merge that never fails makes \<open>merge_unsent\<close> return.\<close>

lemma merge_chunks_total: "(\<And>c. \<exists>m. mu c = Inr m) \<Longrightarrow> \<exists>level. merge_chunks mu us = Inr level"
proof -
  assume total: "\<And>c. \<exists>m. mu c = Inr m"
  have "\<exists>m. merge_chunk mu c = Inr m" for c
    using total [of c] by (auto simp: merge_chunk_def split: list.splits)
  then have "\<exists>level. map (merge_chunk mu) cs = map Inr level" for cs
    by (induction cs) (auto, metis list.simps(9))
  then show ?thesis by (simp add: merge_chunks_Inr)
qed

lemma merge_levels_total:
  "(\<And>c. \<exists>m. mu c = Inr m) \<Longrightarrow> \<exists>out. merge_levels mu level = Inr out"
proof (induction mu level rule: merge_levels.induct)
  case (1 mu level)
  obtain level' where l: "merge_chunks mu level = Inr level'" using merge_chunks_total 1(2) by blast
  with 1 show ?case
    by (cases "length level > 1") (auto simp: merge_levels_more merge_levels_done)
qed

lemma merge_unsent_total:
  assumes "\<And>c. \<exists>m. mu c = Inr m"
  shows "\<exists>m. merge_unsent mu us = Inr m"
proof -
  obtain level where l: "merge_chunks mu us = Inr level" using merge_chunks_total assms by blast
  moreover obtain out where "merge_levels mu level = Inr out" using merge_levels_total assms by blast
  ultimately show ?thesis by (auto simp: merge_unsent_def split: list.splits)
qed

text \<open>yrs only ever merges between two and \<open>MERGE_FAN_IN\<close> updates at once.\<close>

definition agree_on_chunks ::
  "(bytes list \<Rightarrow> string + bytes) \<Rightarrow> (bytes list \<Rightarrow> string + bytes) \<Rightarrow> bool" where
  "agree_on_chunks mu nu \<longleftrightarrow> (\<forall>c. 2 \<le> length c \<and> length c \<le> MERGE_FAN_IN \<longrightarrow> mu c = nu c)"

lemma merge_chunks_agree: "agree_on_chunks mu nu \<Longrightarrow> merge_chunks mu us = merge_chunks nu us"
proof -
  assume agree: "agree_on_chunks mu nu"
  have "merge_chunk mu c = merge_chunk nu c" if "c \<in> set (chunks MERGE_FAN_IN us)" for c
    using chunks_bounds [OF that] agree
    by (auto simp: merge_chunk_def agree_on_chunks_def split: list.splits)
  then have "map (merge_chunk mu) (chunks MERGE_FAN_IN us) = map (merge_chunk nu) (chunks MERGE_FAN_IN us)"
    by simp
  then show ?thesis by (simp only: merge_chunks_def)
qed

lemma merge_levels_agree: "agree_on_chunks mu nu \<Longrightarrow> merge_levels mu level = merge_levels nu level"
proof (induction mu level rule: merge_levels.induct)
  case (1 mu level)
  have "merge_chunks nu level = merge_chunks mu level" using merge_chunks_agree [OF 1(2)] by simp
  with 1 show ?case
    by (cases "1 < length level") (auto simp: merge_levels_more merge_levels_done split: sum.split)
qed

lemma merge_unsent_agree: "agree_on_chunks mu nu \<Longrightarrow> merge_unsent mu us = merge_unsent nu us"
  by (auto simp: merge_unsent_def merge_chunks_agree [of mu nu] merge_levels_agree [of mu nu]
      split: list.splits sum.splits)

section \<open>Origins\<close>

definition ORIGIN :: string where "ORIGIN = ''yrby''"

definition REMOTE :: string where "REMOTE = ''yrby-remote''"

definition starts_with :: "string \<Rightarrow> string \<Rightarrow> bool" where
  "starts_with s pre = (take (length pre) s = pre)"

definition is_remote :: "string option \<Rightarrow> bool" where
  "is_remote origin = (case origin of Some o' \<Rightarrow> starts_with o' REMOTE | None \<Rightarrow> False)"

text \<open>\<open>n\<close> is the value of the counter, which \<open>fetch_add\<close> never hands out twice.\<close>

definition remote_key :: "nat \<Rightarrow> string" where
  "remote_key n = REMOTE @ '':'' @ string_of_nat n"

section \<open>Taking and putting back\<close>

text \<open>The observer \<open>RbDoc::new\<close> registers, run when a transaction commits.\<close>

definition on_commit :: "string option \<Rightarrow> bytes \<Rightarrow> bytes list \<Rightarrow> bytes list" where
  "on_commit origin update unsent = (if is_remote origin then unsent else unsent @ [update])"

text \<open>The first half of \<open>take_unsent\<close>: \<open>mem::take\<close> under the lock.\<close>

definition take_begin :: "bytes list \<Rightarrow> bytes list \<times> bytes list" where
  "take_begin unsent = (unsent, [])"

text \<open>The second half, after the merge ran without the lock: \<open>interrupted\<close> is the error
  \<open>nogvl\<close> comes back with, if any.\<close>

definition take_finish ::
  "(bytes list \<Rightarrow> string + bytes) \<Rightarrow> string option \<Rightarrow> bytes list \<Rightarrow> bytes list
     \<Rightarrow> (string + bytes) \<times> bytes list" where
  "take_finish mu interrupted taken unsent =
     (case (case interrupted of Some e \<Rightarrow> Inl e | None \<Rightarrow> merge_unsent mu taken) of
        Inr merged \<Rightarrow> (Inr merged, unsent)
      | Inl error \<Rightarrow> (Inl error, taken @ unsent))"

text \<open>The whole of \<open>take_unsent\<close> when nothing is written meanwhile.\<close>

definition take_unsent ::
  "(bytes list \<Rightarrow> string + bytes) \<Rightarrow> string option \<Rightarrow> bytes list \<Rightarrow> (string + bytes option) \<times> bytes list" where
  "take_unsent mu interrupted unsent =
     (let (taken, unsent1) = take_begin unsent
      in if taken = [] then (Inr None, unsent1)
         else let (r, unsent2) = take_finish mu interrupted taken unsent1 in (map_sum id Some r, unsent2))"

definition keep_unsent :: "bytes \<Rightarrow> bytes list \<Rightarrow> bytes list" where
  "keep_unsent update unsent = update # unsent"

text \<open>The state the threads of a process share: the list, the takes in flight (by thread),
  the updates handed to Ruby and not put back, and, for the statement of the invariant, all
  updates local transactions ever committed.\<close>

record unsent_state =
  pool :: "bytes list"
  flying :: "(nat \<times> bytes list) list"
  returned :: "bytes list"
  written :: "bytes list"

definition unsent_init :: unsent_state where
  "unsent_init = \<lparr>pool = [], flying = [], returned = [], written = []\<rparr>"

inductive unsent_step :: "(bytes list \<Rightarrow> string + bytes) \<Rightarrow> unsent_state \<Rightarrow> unsent_state \<Rightarrow> bool"
  for mu where
  commit: "unsent_step mu st
     (st\<lparr>pool := on_commit origin u (pool st),
         written := (if is_remote origin then written st else written st @ [u])\<rparr>)"
| start: "take_begin (pool st) = (taken, rest) \<Longrightarrow> taken \<noteq> [] \<Longrightarrow> t \<notin> fst ` set (flying st) \<Longrightarrow>
     unsent_step mu st (st\<lparr>pool := rest, flying := (t, taken) # flying st\<rparr>)"
| finish: "(t, taken) \<in> set (flying st) \<Longrightarrow> take_finish mu intr taken (pool st) = (Inr m, rest) \<Longrightarrow>
     unsent_step mu st
       (st\<lparr>pool := rest, flying := remove1 (t, taken) (flying st), returned := m # returned st\<rparr>)"
| fail: "(t, taken) \<in> set (flying st) \<Longrightarrow> take_finish mu intr taken (pool st) = (Inl e, rest) \<Longrightarrow>
     unsent_step mu st (st\<lparr>pool := rest, flying := remove1 (t, taken) (flying st)\<rparr>)"
| keep: "u \<in> set (returned st) \<Longrightarrow>
     unsent_step mu st
       (st\<lparr>pool := keep_unsent u (pool st), returned := remove1 u (returned st)\<rparr>)"

definition held :: "(bytes \<Rightarrow> 'c set) \<Rightarrow> unsent_state \<Rightarrow> 'c set" where
  "held content st =
     (\<Union>u \<in> set (pool st). content u) \<union> (\<Union>f \<in> set (flying st). \<Union>u \<in> set (snd f). content u)
     \<union> (\<Union>u \<in> set (returned st). content u)"

definition unsent_inv :: "(bytes \<Rightarrow> 'c set) \<Rightarrow> unsent_state \<Rightarrow> bool" where
  "unsent_inv content st \<longleftrightarrow>
     held content st = (\<Union>u \<in> set (written st). content u) \<and> (\<forall>f \<in> set (flying st). snd f \<noteq> [])"

lemma Union_remove1: "x \<in> set xs \<Longrightarrow> (\<Union>y \<in> set xs. f y) = f x \<union> (\<Union>y \<in> set (remove1 x xs). f y)"
  by (induction xs) auto

lemma take_finish_InrD:
  "take_finish mu intr taken unsent = (Inr m, rest) \<Longrightarrow> merge_unsent mu taken = Inr m \<and> rest = unsent"
  by (auto simp: take_finish_def split: sum.splits option.splits)

lemma take_finish_InlD: "take_finish mu intr taken unsent = (Inl e, rest) \<Longrightarrow> rest = taken @ unsent"
  by (auto simp: take_finish_def split: sum.splits option.splits)

lemma unsent_step_inv:
  assumes law: "merge_carries content mu"
  shows "unsent_step mu st st' \<Longrightarrow> unsent_inv content st \<Longrightarrow> unsent_inv content st'"
proof (induction rule: unsent_step.induct)
  case (finish t taken st intr m rest)
  have m: "merge_unsent mu taken = Inr m" "rest = pool st"
    using take_finish_InrD [OF finish(2)] by auto
  have "taken \<noteq> []" using finish(1,3) by (force simp: unsent_inv_def)
  from merge_unsent_content [OF law m(1) this]
  have "content m = (\<Union>u \<in> set taken. content u)" .
  moreover have "set (remove1 (t, taken) (flying st)) \<subseteq> set (flying st)" by (rule set_remove1_subset)
  ultimately show ?case
    using finish(3) m(2) Union_remove1 [OF finish(1), of "\<lambda>f. \<Union>u \<in> set (snd f). content u"]
    by (auto simp: unsent_inv_def held_def)
next
  case (fail t taken st intr e rest)
  have "set (remove1 (t, taken) (flying st)) \<subseteq> set (flying st)" by (rule set_remove1_subset)
  then show ?case
    using fail(3) take_finish_InlD [OF fail(2)]
      Union_remove1 [OF fail(1), of "\<lambda>f. \<Union>u \<in> set (snd f). content u"]
    by (auto simp: unsent_inv_def held_def)
next
  case (keep u st)
  then show ?case
    using Union_remove1 [OF keep(1), of content] by (auto simp: unsent_inv_def held_def keep_unsent_def)
qed (auto simp: unsent_inv_def held_def on_commit_def take_begin_def)

lemma unsent_reachable_inv:
  assumes "merge_carries content mu" and "(unsent_step mu)\<^sup>*\<^sup>* unsent_init st"
  shows "unsent_inv content st"
  using assms(2)
proof (induction rule: rtranclp_induct)
  case base
  show ?case by (simp add: unsent_init_def unsent_inv_def held_def)
next
  case (step st st')
  then show ?case using unsent_step_inv [OF assms(1)] by blast
qed

end
