(* ===== verification/DocSync.thy ===== *)
theory DocSync
  imports Protocol Unsent
begin

text \<open>
  The document class of \<open>src/ext/yrby/src/lib.rs\<close> as a sync peer: applying updates,
  encoding state, answering a frame (\<open>handle_sync_message\<close>) and the stateless frame
  functions.  The state is the yrs document and the list of unsent updates.

  \<open>txn_update\<close>
  is the update yrs reports to the observer for a transaction between two states, none when
  the transaction changed nothing.
\<close>

record 'doc rb_doc =
  ydoc :: 'doc
  unsent :: "bytes list"

text \<open>A transaction from the current document to \<open>d'\<close>, committed under \<open>origin\<close>.\<close>

definition commit_txn ::
  "('doc \<Rightarrow> 'doc \<Rightarrow> bytes option) \<Rightarrow> string option \<Rightarrow> 'doc rb_doc \<Rightarrow> 'doc \<Rightarrow> 'doc rb_doc" where
  "commit_txn txn_update origin rb d' =
     rb\<lparr>ydoc := d',
        unsent := (case txn_update (ydoc rb) d' of
            Some update \<Rightarrow> on_commit origin update (unsent rb)
          | None \<Rightarrow> unsent rb)\<rparr>"

text \<open>Decoding an update and applying it under \<open>REMOTE\<close>; the transaction commits when it is
  dropped, whether or not the update applied.\<close>

definition apply_remote ::
  "('doc, 'upd, 'sv, 'aw) yrs_sync \<Rightarrow> ('doc \<Rightarrow> 'doc \<Rightarrow> bytes option) \<Rightarrow> 'doc rb_doc \<Rightarrow> bytes
     \<Rightarrow> (string + unit) \<times> 'doc rb_doc" where
  "apply_remote c txn_update rb bs =
     (case decode_update c bs of
        Inl e \<Rightarrow> (Inl e, rb)
      | Inr u \<Rightarrow>
          (case doc_apply_update c (ydoc rb) u of
             Inl e \<Rightarrow> (Inl e, commit_txn txn_update (Some REMOTE) rb (apply_leaves c (ydoc rb) u))
           | Inr d' \<Rightarrow> (Inr (), commit_txn txn_update (Some REMOTE) rb d')))"

definition apply_update ::
  "('doc, 'upd, 'sv, 'aw) yrs_sync \<Rightarrow> ('doc \<Rightarrow> 'doc \<Rightarrow> bytes option) \<Rightarrow> string option \<Rightarrow> 'doc rb_doc \<Rightarrow> bytes
     \<Rightarrow> (string + unit) \<times> 'doc rb_doc" where
  "apply_update c txn_update intr rb bs =
     (let (r, rb') = apply_remote c txn_update rb bs in (nogvl_try intr r, rb'))"

text \<open>A local write: a transaction under \<open>ORIGIN\<close> (\<open>shared::write\<close>).\<close>

definition local_write ::
  "('doc \<Rightarrow> 'doc \<Rightarrow> bytes option) \<Rightarrow> 'doc rb_doc \<Rightarrow> 'doc \<Rightarrow> 'doc rb_doc" where
  "local_write txn_update rb d' = commit_txn txn_update (Some ORIGIN) rb d'"

definition encode_state_vector ::
  "('doc, 'upd, 'sv, 'aw) yrs_sync \<Rightarrow> string option \<Rightarrow> 'doc rb_doc \<Rightarrow> string + bytes" where
  "encode_state_vector c intr rb = nogvl intr (encode_sv c (doc_state_vector c (ydoc rb)))"

definition encode_state ::
  "('doc, 'upd, 'sv, 'aw) yrs_sync \<Rightarrow> string option \<Rightarrow> 'doc rb_doc \<Rightarrow> bytes option \<Rightarrow> string + bytes" where
  "encode_state c intr rb sv_bytes =
     nogvl_try intr
       (bind_sum (case sv_bytes of None \<Rightarrow> Inr (sv_default c) | Some bs \<Rightarrow> decode_sv c bs) (\<lambda>sv.
          Inr (encode_state_as_update c (ydoc rb) sv)))"

definition compacted_state_update ::
  "('doc, 'upd, 'sv, 'aw) yrs_sync \<Rightarrow> string option \<Rightarrow> 'doc rb_doc \<Rightarrow> string + bytes" where
  "compacted_state_update c intr rb = nogvl_try intr (integrated_update c (ydoc rb) (sv_default c))"

definition pending :: "('doc, 'upd, 'sv, 'aw) yrs_sync \<Rightarrow> string option \<Rightarrow> 'doc rb_doc \<Rightarrow> string + bool" where
  "pending c intr rb = nogvl intr (has_pending c (ydoc rb))"

definition update_ready ::
  "('doc, 'upd, 'sv, 'aw) yrs_sync \<Rightarrow> string option \<Rightarrow> 'doc rb_doc \<Rightarrow> bytes \<Rightarrow> string + bool" where
  "update_ready c intr rb bs = nogvl_try intr (update_is_ready c (ydoc rb) bs)"

definition update_advances ::
  "('doc, 'upd, 'sv, 'aw) yrs_sync \<Rightarrow> string option \<Rightarrow> 'doc rb_doc \<Rightarrow> bytes \<Rightarrow> string + bool" where
  "update_advances c intr rb bs = nogvl_try intr (update_advances_doc c (ydoc rb) bs)"

definition sync_step1 ::
  "('doc, 'upd, 'sv, 'aw) yrs_sync \<Rightarrow> string option \<Rightarrow> 'doc rb_doc \<Rightarrow> string + bytes" where
  "sync_step1 c intr rb =
     nogvl intr (encode_message c (MSync (SyncStep1 (doc_state_vector c (ydoc rb)))))"

text \<open>The closure of \<open>handle_sync_message\<close>: message type, sync type and response.  \<open>decode_v1\<close>
  of a message reads one message and ignores what follows.\<close>

definition handle_closure ::
  "('doc, 'upd, 'sv, 'aw) yrs_sync \<Rightarrow> ('doc \<Rightarrow> 'doc \<Rightarrow> bytes option) \<Rightarrow> 'doc rb_doc \<Rightarrow> bytes
     \<Rightarrow> (string + nat \<times> nat \<times> bytes) \<times> 'doc rb_doc" where
  "handle_closure c txn_update rb data =
     (case decode_message c data of
        Inl e \<Rightarrow> (Inl e, rb)
      | Inr (msg, _) \<Rightarrow>
          (case msg of
             MSync (SyncStep1 sv) \<Rightarrow>
               (Inr (0, 0, encode_message c (MSync (SyncStep2 (encode_state_as_update c (ydoc rb) sv)))), rb)
           | MSync (SyncStep2 bs) \<Rightarrow>
               (let (r, rb') = apply_remote c txn_update rb bs in (map_sum id (\<lambda>_. (0, 1, [])) r, rb'))
           | MSync (SyncUpdate bs) \<Rightarrow>
               (let (r, rb') = apply_remote c txn_update rb bs in (map_sum id (\<lambda>_. (0, 2, [])) r, rb'))
           | MAwareness _ \<Rightarrow> (Inr (1, 0, []), rb)
           | _ \<Rightarrow> (Inl ''unsupported message type'', rb)))"

definition handle_sync_message ::
  "('doc, 'upd, 'sv, 'aw) yrs_sync \<Rightarrow> ('doc \<Rightarrow> 'doc \<Rightarrow> bytes option) \<Rightarrow> string option \<Rightarrow> 'doc rb_doc \<Rightarrow> bytes
     \<Rightarrow> (string + nat \<times> nat \<times> bytes) \<times> 'doc rb_doc" where
  "handle_sync_message c txn_update intr rb data =
     (let (r, rb') = handle_closure c txn_update rb data in (nogvl_try intr r, rb'))"

section \<open>Stateless frame functions\<close>

definition wrap_update :: "('doc, 'upd, 'sv, 'aw) yrs_sync \<Rightarrow> bytes \<Rightarrow> bytes" where
  "wrap_update c bs = encode_message c (MSync (SyncUpdate bs))"

definition message_kind :: "('doc, 'upd, 'sv, 'aw) yrs_sync \<Rightarrow> string option \<Rightarrow> bytes \<Rightarrow> string + nat" where
  "message_kind c intr data = nogvl intr (classify_message c data)"

definition update_from_message ::
  "('doc, 'upd, 'sv, 'aw) yrs_sync \<Rightarrow> string option \<Rightarrow> bytes \<Rightarrow> string + bytes option" where
  "update_from_message c intr data = nogvl_try intr (merged_doc_update c data)"

section \<open>What the frames rely on\<close>

text \<open>A message decodes to itself and leaves nothing, and the reader yields the messages of
  a frame one after the other.\<close>

definition frame_laws :: "('doc, 'upd, 'sv, 'aw) yrs_sync \<Rightarrow> bool" where
  "frame_laws c \<longleftrightarrow>
     (\<forall>m. decode_message c (encode_message c m) = Inr (m, []))
     \<and> read_messages c [] = []
     \<and> (\<forall>bs m rest. decode_message c bs = Inr (m, rest) \<longrightarrow> read_messages c bs = Inr m # read_messages c rest)"

text \<open>Encoding against a state vector carries only what the document knows, and all of it
  but what the vector covers; a document's own vector covers only what it knows.\<close>

definition diff_laws ::
  "('doc, 'upd, 'sv, 'aw) yrs_sync \<Rightarrow> ('doc \<Rightarrow> 'c set) \<Rightarrow> ('upd \<Rightarrow> 'c set) \<Rightarrow> ('sv \<Rightarrow> 'c set) \<Rightarrow> bool" where
  "diff_laws c known carries covered \<longleftrightarrow>
     (\<forall>d sv. \<exists>u. decode_update c (encode_state_as_update c d sv) = Inr u
        \<and> carries u \<subseteq> known d \<and> known d \<subseteq> carries u \<union> covered sv)
     \<and> (\<forall>d. covered (doc_state_vector c d) \<subseteq> known d)"

lemma is_remote_REMOTE [simp]: "is_remote (Some REMOTE)"
  by (simp add: is_remote_def starts_with_def)

lemma not_remote_ORIGIN [simp]: "\<not> is_remote (Some ORIGIN)"
  by (simp add: is_remote_def starts_with_def ORIGIN_def REMOTE_def)

lemma unsent_commit_remote [simp]: "unsent (commit_txn tu (Some REMOTE) rb d) = unsent rb"
  by (simp add: commit_txn_def on_commit_def split: option.split)

lemma ydoc_commit [simp]: "ydoc (commit_txn tu origin rb d) = d"
  by (simp add: commit_txn_def)

lemma ydoc_local_write [simp]: "ydoc (local_write tu rb d) = d"
  by (simp add: local_write_def)

lemma apply_remote_unsent: "unsent (snd (apply_remote c tu rb bs)) = unsent rb"
  by (simp add: apply_remote_def split: sum.split)

lemma handle_closure_unsent: "unsent (snd (handle_closure c tu rb data)) = unsent rb"
  using apply_remote_unsent [of c tu rb]
  by (simp add: handle_closure_def split: sum.split prod.split message.split sync_message.split) (metis snd_conv)

text \<open>One direction of the handshake: after the answer to its step 1, a document knows what
  both knew.\<close>

lemma pull_known:
  assumes laws: "crdt_laws c known carries integ" and frames: "frame_laws c"
    and diffs: "diff_laws c known carries covered"
  shows "\<exists>req resp r a'. sync_step1 c None a = Inr req
    \<and> handle_sync_message c tu None b req = (Inr (0, 0, resp), b)
    \<and> handle_sync_message c tu None a resp = (Inr r, a')
    \<and> known (ydoc a') = known (ydoc a) \<union> known (ydoc b) \<and> unsent a' = unsent a"
proof -
  let ?sv = "doc_state_vector c (ydoc a)"
  let ?resp = "encode_message c (MSync (SyncStep2 (encode_state_as_update c (ydoc b) ?sv)))"
  have dec: "decode_message c (encode_message c m) = Inr (m, [])" for m
    using frames by (simp add: frame_laws_def)
  obtain u where u: "decode_update c (encode_state_as_update c (ydoc b) ?sv) = Inr u"
    "carries u \<subseteq> known (ydoc b)" "known (ydoc b) \<subseteq> carries u \<union> covered ?sv"
    using diffs unfolding diff_laws_def by blast
  obtain d where d: "doc_apply_update c (ydoc a) u = Inr d" "known d = known (ydoc a) \<union> carries u"
    using crdt_lawsD(5) [OF laws] by blast
  have "covered ?sv \<subseteq> known (ydoc a)" using diffs by (simp add: diff_laws_def)
  then have "known d = known (ydoc a) \<union> known (ydoc b)" using u d by blast
  moreover have "handle_sync_message c tu None a ?resp = (Inr (0, 1, []), commit_txn tu (Some REMOTE) a d)"
    using u(1) d(1) by (simp add: handle_sync_message_def handle_closure_def dec apply_remote_def nogvl_try_def nogvl_def)
  moreover have "handle_sync_message c tu None b (encode_message c (MSync (SyncStep1 ?sv))) = (Inr (0, 0, ?resp), b)"
    by (simp add: handle_sync_message_def handle_closure_def dec nogvl_try_def nogvl_def)
  moreover have "sync_step1 c None a = Inr (encode_message c (MSync (SyncStep1 ?sv)))"
    by (simp add: sync_step1_def nogvl_def)
  ultimately show ?thesis by (metis unsent_commit_remote ydoc_commit)
qed

end
