(* ===== verification/ClockModel.thy ===== *)
theory ClockModel
  imports DocSync
begin

text \<open>
  A small document type that has the behaviour \<open>crdt_laws\<close>, \<open>advance_laws\<close>, \<open>frame_laws\<close>
  and \<open>diff_laws\<close> describe: the changes of one client are its clocks, clock \<open>n\<close> needs all
  clocks before it, a document is the list of the clocks it received, an update and its
  bytes are a list of clocks, a state vector the number of clocks integrated.  It shows
  that the laws can hold together, and the witnesses run the sync code on it.
\<close>

definition clock_sv :: "nat list \<Rightarrow> nat" where
  "clock_sv d = length (takeWhile (\<lambda>n. n \<in> set d) [0..<Suc (length d)])"

definition clock_lower :: "nat list \<Rightarrow> nat" where
  "clock_lower u = (if u = [] then 0 else Min (set u))"

definition clock_end :: "nat list \<Rightarrow> nat" where
  "clock_end u =
     (if u = [] then 0
      else clock_lower u + length (takeWhile (\<lambda>k. clock_lower u + k \<in> set u) [0..<Suc (length u)]))"

definition clock_apply :: "nat list \<Rightarrow> nat list \<Rightarrow> string + nat list" where
  "clock_apply d u = Inr (d @ filter (\<lambda>n. n \<notin> set d) u)"

fun clock_encode :: "(nat, unit) message \<Rightarrow> bytes" where
  "clock_encode (MSync (SyncStep1 sv)) = [0, 0, sv]"
| "clock_encode (MSync (SyncStep2 u)) = [0, 1, length u] @ u"
| "clock_encode (MSync (SyncUpdate u)) = [0, 2, length u] @ u"
| "clock_encode (MAwareness _) = [1]"
| "clock_encode (MAuth None) = [2, 0]"
| "clock_encode (MAuth (Some s)) = [2, 1, length s] @ map of_char s"
| "clock_encode MAwarenessQuery = [3]"
| "clock_encode (MCustom n u) = [4, n, length u] @ u"

fun clock_take :: "(bytes \<Rightarrow> (nat, unit) message) \<Rightarrow> nat \<Rightarrow> bytes \<Rightarrow> string + ((nat, unit) message \<times> bytes)" where
  "clock_take f n rest =
     (if n \<le> length rest then Inr (f (take n rest), drop n rest) else Inl ''end of buffer'')"

definition clock_decode :: "bytes \<Rightarrow> string + ((nat, unit) message \<times> bytes)" where
  "clock_decode bs =
     (case bs of
        0 # 0 # sv # rest \<Rightarrow> Inr (MSync (SyncStep1 sv), rest)
      | 0 # Suc 0 # n # rest \<Rightarrow> clock_take (\<lambda>u. MSync (SyncStep2 u)) n rest
      | 0 # Suc (Suc 0) # n # rest \<Rightarrow> clock_take (\<lambda>u. MSync (SyncUpdate u)) n rest
      | Suc 0 # rest \<Rightarrow> Inr (MAwareness (), rest)
      | Suc (Suc 0) # 0 # rest \<Rightarrow> Inr (MAuth None, rest)
      | Suc (Suc 0) # Suc 0 # n # rest \<Rightarrow> clock_take (\<lambda>u. MAuth (Some (map char_of u))) n rest
      | Suc (Suc (Suc 0)) # rest \<Rightarrow> Inr (MAwarenessQuery, rest)
      | Suc (Suc (Suc (Suc 0))) # k # n # rest \<Rightarrow> clock_take (MCustom k) n rest
      | _ \<Rightarrow> Inl ''malformed'')"

lemma clock_decode_shorter: "clock_decode bs = Inr (m, rest) \<Longrightarrow> length rest < length bs"
  by (auto simp: clock_decode_def split: list.splits nat.splits if_splits)

function clock_read :: "bytes \<Rightarrow> (string + (nat, unit) message) list" where
  "clock_read bs =
     (if bs = [] then []
      else case clock_decode bs of Inl e \<Rightarrow> [Inl e] | Inr (m, rest) \<Rightarrow> Inr m # clock_read rest)"
  by pat_completeness auto
termination by (relation "measure length") (auto dest: clock_decode_shorter)

declare clock_read.simps [simp del]

definition clock_sync :: "(nat list, nat list, nat, unit) yrs_sync" where
  "clock_sync =
     \<lparr>decode_update = Inr,
      upd_state_vector = clock_end,
      upd_state_vector_lower = clock_lower,
      upd_delete_set_empty = (\<lambda>u. True),
      upd_insertions = (\<lambda>u. [(0, map (\<lambda>n. (n, Suc n)) u)]),
      sv_default = 0,
      sv_is_empty = (\<lambda>sv. sv = 0),
      sv_get = (\<lambda>sv client. sv),
      sv_ge = (\<lambda>a b. b \<le> a),
      decode_sv = (\<lambda>bs. case bs of [sv] \<Rightarrow> Inr sv | _ \<Rightarrow> Inl ''malformed''),
      encode_sv = (\<lambda>sv. [sv]),
      doc_new = [],
      doc_state_vector = clock_sv,
      encode_state_as_update = (\<lambda>d sv. filter (\<lambda>n. sv \<le> n) d),
      doc_apply_update = clock_apply,
      apply_leaves = (\<lambda>d u. d),
      pending_update = (\<lambda>d. list_ex (\<lambda>n. clock_sv d \<le> n) d),
      pending_ds = (\<lambda>d. False),
      prune_pending = (\<lambda>d. filter (\<lambda>n. n < clock_sv d) d),
      merge_updates_v1 = (\<lambda>us. Inr (concat us)),
      decode_message = clock_decode,
      read_messages = clock_read,
      encode_message = clock_encode\<rparr>"

definition clock_integ :: "nat set \<Rightarrow> nat set" where
  "clock_integ S = {n. \<forall>m \<le> n. m \<in> S}"

definition clock_covered :: "nat \<Rightarrow> nat set" where
  "clock_covered sv = {..<sv}"

section \<open>The laws hold\<close>

lemma takeWhile_upt_holds:
  assumes "m < length (takeWhile P [0..<n])"
  shows "P m"
proof -
  have "m < n" using assms length_takeWhile_le [of P "[0..<n]"] by simp
  then have "takeWhile P [0..<n] ! m = m" using assms by (simp add: takeWhile_nth)
  with nth_mem [OF assms] show ?thesis by (metis set_takeWhileD)
qed

lemma clock_sv_below: "m < clock_sv d \<Longrightarrow> m \<in> set d"
  unfolding clock_sv_def by (rule takeWhile_upt_holds)

lemma clock_sv_gap: "clock_sv d \<notin> set d"
proof (cases "clock_sv d < Suc (length d)")
  case True
  then show ?thesis
    using nth_length_takeWhile [of "\<lambda>n. n \<in> set d" "[0..<Suc (length d)]"]
    by (simp add: clock_sv_def del: upt_Suc)
next
  case False
  have "{..<Suc (length d)} \<subseteq> set d" using False clock_sv_below by fastforce
  from card_mono [OF _ this] card_length [of d] show ?thesis by simp
qed

lemma clock_integ_sv: "clock_integ (set d) = {..<clock_sv d}"
proof (rule set_eqI)
  fix n
  show "n \<in> clock_integ (set d) \<longleftrightarrow> n \<in> {..<clock_sv d}"
    using clock_sv_below [of _ d] clock_sv_gap [of d]
    by (auto simp: clock_integ_def) (meson leI)
qed

lemma clock_integD: "n \<in> clock_integ S \<Longrightarrow> m \<le> n \<Longrightarrow> m \<in> S"
  by (simp add: clock_integ_def)

lemma clock_integ_kernel:
  "clock_integ S \<subseteq> S" "S \<subseteq> T \<Longrightarrow> clock_integ S \<subseteq> clock_integ T" "clock_integ (clock_integ S) = clock_integ S"
  unfolding clock_integ_def by (auto intro: le_trans)

lemma clock_pending: "has_pending clock_sync d \<longleftrightarrow> clock_integ (set d) \<noteq> set d"
proof -
  have "{..<clock_sv d} \<subseteq> set d" using clock_sv_below by auto
  moreover have "has_pending clock_sync d \<longleftrightarrow> \<not> set d \<subseteq> {..<clock_sv d}"
    by (auto simp: has_pending_def clock_sync_def list_ex_iff not_less)
  ultimately show ?thesis by (auto simp: clock_integ_sv)
qed

lemma clock_lower_le: "n \<in> set u \<Longrightarrow> clock_lower u \<le> n"
  by (auto simp: clock_lower_def)

lemma clock_not_ready:
  assumes "clock_sv d < clock_lower u"
  shows "clock_integ (clock_integ (set d) \<union> set u) \<noteq> clock_integ (set d) \<union> set u"
proof -
  have "u \<noteq> []" using assms by (auto simp: clock_lower_def)
  then obtain n where n: "n \<in> set u" by (meson hd_in_set)
  have "clock_sv d < n" using assms clock_lower_le [OF n] by simp
  moreover have "clock_sv d \<notin> clock_integ (set d) \<union> set u"
    using assms clock_lower_le by (fastforce simp: clock_integ_sv)
  ultimately have "n \<notin> clock_integ (clock_integ (set d) \<union> set u)"
    using clock_integD less_imp_le by blast
  with n show ?thesis by blast
qed

lemma clock_end_reached:
  assumes "u \<noteq> []"
  shows "\<exists>n \<in> set u. clock_end u = Suc n"
proof -
  let ?k = "length (takeWhile (\<lambda>k. clock_lower u + k \<in> set u) [0..<Suc (length u)])"
  have "clock_lower u \<in> set u" using assms by (simp add: clock_lower_def)
  then have "0 < ?k" by (simp add: upt_conv_Cons del: upt_Suc)
  then obtain j where j: "?k = Suc j" by (cases ?k) auto
  then have "clock_lower u + j \<in> set u"
    using takeWhile_upt_holds [of j "\<lambda>k. clock_lower u + k \<in> set u" "Suc (length u)"] by simp
  with j assms show ?thesis by (auto simp: clock_end_def)
qed

lemma clock_covers:
  assumes "set u \<subseteq> clock_integ (set d)"
  shows "clock_end u \<le> clock_sv d"
proof (cases "u = []")
  case False
  with clock_end_reached assms show ?thesis by (fastforce simp: clock_integ_sv)
qed (simp add: clock_end_def)

lemma clock_crdt_laws: "crdt_laws clock_sync set set clock_integ"
  unfolding crdt_laws_def
  using clock_integ_kernel clock_pending clock_not_ready
  by (auto simp: clock_sync_def clock_apply_def clock_integ_sv dest: clock_sv_below simp: not_le)

lemma clock_advance_laws: "advance_laws clock_sync set set clock_integ"
proof -
  have sv: "clock_sv d = clock_sv d'" if "set d = set d'" for d d'
    using that clock_integ_sv [of d] clock_integ_sv [of d'] by simp
  have enc: "d' = d" if "clock_apply d u = Inr d'" "set d' = set d" for d u d'
    using that by (auto simp: clock_apply_def filter_empty_conv)
  have grow: "clock_sv d' \<noteq> clock_sv d" if "clock_integ (set d') \<noteq> clock_integ (set d)" for d d'
    using that by (auto simp: clock_integ_sv)
  have fields: "doc_state_vector clock_sync = clock_sv" "doc_apply_update clock_sync = clock_apply"
    "upd_state_vector clock_sync = clock_end" "sv_ge clock_sync a b \<longleftrightarrow> b \<le> a" for a b
    by (simp_all add: clock_sync_def)
  show ?thesis
    unfolding advance_laws_def fields
    by (intro conjI allI impI) (use sv enc grow clock_covers in blast)+
qed

lemma clock_diff_laws: "diff_laws clock_sync set set clock_covered"
  unfolding diff_laws_def
  by (auto simp: clock_sync_def clock_covered_def dest: clock_sv_below)

lemma clock_decode_encode: "clock_decode (clock_encode m) = Inr (m, [])"
  by (cases m rule: clock_encode.cases) (simp_all add: clock_decode_def comp_def numeral_eq_Suc)

lemma clock_frame_laws: "frame_laws clock_sync"
  unfolding frame_laws_def
  by (auto simp: clock_sync_def clock_decode_encode clock_read.simps)
    (auto simp: clock_decode_def)

end
