(* ===== verification/YrsData.thy ===== *)
theory YrsData
  imports Prelude
begin

text \<open>
  The values of the yrs crate (the Rust port of Yjs) as a read transaction shows them to
  the code under \<open>src/ext\<close>.  yrs itself is a dependency: only its public data types
  are written down here, with the constructors the sources match on, and a document is
  the finite tree its accessors (\<open>children\<close>, \<open>attributes\<close>, \<open>get_attribute\<close>, \<open>diff\<close>,
  \<open>tag\<close>) enumerate.  Everything of yrs, of serde and of float formatting that computes
  is a field of the record \<open>yrs\<close>, an argument of every definition that calls it.

  A Rust \<open>HashMap\<close> is an association list in the order the map iterates, so that a
  claim that the order does not matter can be stated.
\<close>

datatype number = NInt int | NFloat f64

datatype any =
    ANull
  | AUndefined
  | ABool bool
  | ANumber number
  | AString string
  | ABuffer "nat list"
  | AArray "any list"
  | AMap "(string \<times> any) list"

type_synonym run_attrs = "(string \<times> any) list"

text \<open>\<open>Out\<close>, \<open>XmlOut\<close> and the XML nodes.  \<open>OOther\<close> stands for the variants the sources
  never name (they fall into a wildcard arm everywhere).  The entries of a text are what
  \<open>Text::diff\<close> yields: the inserted value and the run's formatting attributes.\<close>

datatype out =
    OAny any
  | OYText "(out \<times> run_attrs option) list"
  | OYArray "out list"
  | OYMap "(string \<times> out) list"
  | OYXmlElement xml_element
  | OYXmlFragment "xml_out list"
  | OYXmlText xml_text
  | OOther
and xml_out =
    XElement xml_element
  | XFragment "xml_out list"
  | XText xml_text
and xml_element =
    XmlElement (tag: string) (el_attrs: "(string \<times> out) list") (el_children: "xml_out list")
and xml_text =
    XmlText (tx_attrs: "(string \<times> out) list") (tx_diff: "(out \<times> run_attrs option) list")

type_synonym attr_list = "(string \<times> out) list"
type_synonym fragment = "xml_out list"
type_synonym diff = "(out \<times> run_attrs option) list"

record yrs =
  any_to_json :: "any \<Rightarrow> string"
  ytext_string :: "diff \<Rightarrow> string"
  text_string :: "xml_text \<Rightarrow> string"
  element_string :: "xml_element \<Rightarrow> string"
  fragment_string :: "fragment \<Rightarrow> string"
  json_string :: "string \<Rightarrow> string"
  fmt_f64 :: "f64 \<Rightarrow> string"

text \<open>\<open>Xml::get_attribute\<close> and \<open>HashMap::get\<close>.\<close>

abbreviation get_attribute :: "attr_list \<Rightarrow> string \<Rightarrow> out option" where
  "get_attribute \<equiv> map_of"

abbreviation hm_get :: "(string \<times> 'v) list \<Rightarrow> string \<Rightarrow> 'v option" where
  "hm_get \<equiv> map_of"

abbreviation hm_contains :: "(string \<times> 'v) list \<Rightarrow> string \<Rightarrow> bool" where
  "hm_contains m k \<equiv> map_of m k \<noteq> None"

fun any_string :: "any \<Rightarrow> string option" where
  "any_string (AString s) = Some s"
| "any_string _ = None"

fun out_string :: "out \<Rightarrow> string option" where
  "out_string (OAny a) = any_string a"
| "out_string _ = None"

text \<open>Sizes decrease along the accessors, for the termination of the tree walks.\<close>

lemma size_child_le [termination_simp]:
  "x \<in> set xs \<Longrightarrow> size x < size_list size xs + 1"
  by (induction xs) auto

text \<open>An instance to evaluate examples with.\<close>

definition plain_yrs :: yrs where
  "plain_yrs = \<lparr>any_to_json = (\<lambda>_. []), ytext_string = (\<lambda>_. []), text_string = (\<lambda>_. []),
     element_string = (\<lambda>_. []), fragment_string = (\<lambda>_. []), json_string = (\<lambda>s. s), fmt_f64 = (\<lambda>_. [])\<rparr>"

end
