(* ===== verification/ReadDoc.thy ===== *)
theory ReadDoc
  imports YrsData "HOL-Library.AList"
begin

text \<open>
  The content readers of \<open>src/ext/yrby/src/read.rs\<close>: the text of an XML-shaped root, one
  line per leaf block, and the JSON of map and array roots with the keys of every object
  sorted.  Names are the source's with the prefix \<open>rd_\<close>.  The lemmas: the block walk
  gives exactly the lines of an independent layout, and the JSON does not depend on
  the order in which a hash map iterates, at any depth.
\<close>

section \<open>Text of an XML root\<close>

definition rd_is_inline_lexical_type :: "string \<Rightarrow> bool" where
  "rd_is_inline_lexical_type ty = (ty \<in> set [''text'', ''link'', ''autolink'', ''linebreak'', ''tab'',
     ''hashtag'', ''mark'', ''overflow''])"

definition rd_lexical_type :: "xml_text \<Rightarrow> string" where
  "rd_lexical_type t =
     (case get_attribute (tx_attrs t) ''__type'' of Some (OAny (AString s)) \<Rightarrow> s | _ \<Rightarrow> [])"

text \<open>The closure \<open>attr\<close> of \<open>lexical_decorator_text\<close>.\<close>

definition rd_text_attr :: "xml_element \<Rightarrow> string \<Rightarrow> string option" where
  "rd_text_attr e name =
     (case get_attribute (el_attrs e) name of
        Some (OAny (AString s)) \<Rightarrow> if s \<noteq> [] then Some s else None
      | _ \<Rightarrow> None)"

definition or_else :: "'a option \<Rightarrow> 'a option \<Rightarrow> 'a option" where
  "or_else a b = (case a of Some x \<Rightarrow> Some x | None \<Rightarrow> b)"

definition rd_lexical_decorator_text :: "xml_element \<Rightarrow> string option" where
  "rd_lexical_decorator_text e =
     (case get_attribute (el_attrs e) ''__type'' of
        Some (OAny (AString ty)) \<Rightarrow>
          if ty = ''custom_action_text_attachment'' then rd_text_attr e ''plainText''
          else if ty = ''action_text_attachment'' then
            or_else (or_else (rd_text_attr e ''caption'') (rd_text_attr e ''altText''))
              (rd_text_attr e ''fileName'')
          else None
      | _ \<Rightarrow> None)"

definition rd_lexical_map_type :: "(string \<times> out) list \<Rightarrow> string" where
  "rd_lexical_map_type m = (case hm_get m ''__type'' of Some (OAny (AString s)) \<Rightarrow> s | _ \<Rightarrow> [])"

text \<open>The character a node of this type stands for.\<close>

definition rd_type_char :: "string \<Rightarrow> string" where
  "rd_type_char ty =
     (if ty = ''linebreak'' then [CHR 0x0A] else if ty = ''tab'' then [CHR 0x09] else [])"

fun rd_inline_lexical_text :: "xml_text \<Rightarrow> string \<Rightarrow> string"
  and rd_inline_runs :: "diff \<Rightarrow> string \<Rightarrow> string" where
  "rd_inline_lexical_text (XmlText as ds) buf = rd_inline_runs ds buf"
| "rd_inline_runs [] buf = buf"
| "rd_inline_runs ((v, _) # ds) buf =
     rd_inline_runs ds
       (case v of
          OAny (AString s) \<Rightarrow> buf @ s
        | OYXmlText child \<Rightarrow> rd_inline_lexical_text child buf
        | OYMap m \<Rightarrow> buf @ rd_type_char (rd_lexical_map_type m)
        | _ \<Rightarrow> buf)"

text \<open>The walk of a block.  The loop's state is the current line and the lines so far.\<close>

fun rd_walk_lexical_block :: "xml_text \<Rightarrow> string list \<Rightarrow> string list"
  and rd_walk_runs :: "diff \<Rightarrow> string \<Rightarrow> string list \<Rightarrow> string \<times> string list" where
  "rd_walk_lexical_block (XmlText as ds) out =
     (let (line, out') = rd_walk_runs ds [] out
      in if line \<noteq> [] then out' @ [line] else out')"
| "rd_walk_runs [] line out = (line, out)"
| "rd_walk_runs ((v, _) # ds) line out =
     (case v of
        OAny (AString s) \<Rightarrow> rd_walk_runs ds (line @ s) out
      | OYMap m \<Rightarrow> rd_walk_runs ds (line @ rd_type_char (rd_lexical_map_type m)) out
      | OYXmlText child \<Rightarrow>
          (let ty = rd_lexical_type child
           in if ty = ''linebreak'' \<or> ty = ''tab'' then rd_walk_runs ds (line @ rd_type_char ty) out
              else if rd_is_inline_lexical_type ty then
                rd_walk_runs ds (rd_inline_lexical_text child line) out
              else
                rd_walk_runs ds []
                  (rd_walk_lexical_block child (if line \<noteq> [] then out @ [line] else out)))
      | OYXmlElement e \<Rightarrow>
          rd_walk_runs ds (line @ (case rd_lexical_decorator_text e of Some s \<Rightarrow> s | None \<Rightarrow> [])) out
      | _ \<Rightarrow> rd_walk_runs ds line out)"

fun rd_xml_step :: "yrs \<Rightarrow> string list \<Rightarrow> xml_out \<Rightarrow> string list" where
  "rd_xml_step y out (XText t) = rd_walk_lexical_block t out"
| "rd_xml_step y out (XElement e) =
     (if get_attribute (el_attrs e) ''__type'' = None then out @ [element_string y e]
      else case rd_lexical_decorator_text e of Some s \<Rightarrow> out @ [s] | None \<Rightarrow> out)"
| "rd_xml_step y out (XFragment f) = out @ [fragment_string y f]"

definition rd_xml_blocks_text :: "yrs \<Rightarrow> fragment \<Rightarrow> string" where
  "rd_xml_blocks_text y fragment = join [CHR 0x0A] (foldl (rd_xml_step y) [] fragment)"

section \<open>JSON of maps and arrays\<close>

text \<open>\<open>HashMap::insert\<close> of each pair in turn.\<close>

definition hm_collect :: "(string \<times> 'v) list \<Rightarrow> (string \<times> 'v) list" where
  "hm_collect kvs = foldl (\<lambda>hm (k, v). AList.update k v hm) [] kvs"

fun rd_out_to_any :: "yrs \<Rightarrow> out \<Rightarrow> any" where
  "rd_out_to_any y (OAny a) = a"
| "rd_out_to_any y (OYText d) = AString (ytext_string y d)"
| "rd_out_to_any y (OYXmlText t) = AString (text_string y t)"
| "rd_out_to_any y (OYXmlElement e) = AString (element_string y e)"
| "rd_out_to_any y (OYXmlFragment f) = AString (fragment_string y f)"
| "rd_out_to_any y (OYArray arr) = AArray (map (rd_out_to_any y) arr)"
| "rd_out_to_any y (OYMap m) = AMap (hm_collect (map (\<lambda>(k, v). (k, rd_out_to_any y v)) m))"
| "rd_out_to_any y OOther = ANull"

definition rd_scalar_json :: "yrs \<Rightarrow> any \<Rightarrow> string" where
  "rd_scalar_json y a = any_to_json y a"

text \<open>The loops that separate items with a comma are \<open>join\<close>.\<close>

fun rd_any_to_json :: "yrs \<Rightarrow> any \<Rightarrow> string" where
  "rd_any_to_json y (AArray items) = ''['' @ join '','' (map (rd_any_to_json y) items) @ '']''"
| "rd_any_to_json y (AMap entries) =
     ''{'' @ join '',''
       (map (\<lambda>(key, v). rd_scalar_json y (AString key) @ '':'' @ rd_any_to_json y v)
         (sort_key fst entries)) @ ''}''"
| "rd_any_to_json y scalar = rd_scalar_json y scalar"

definition rd_map_json :: "yrs \<Rightarrow> (string \<times> out) list \<Rightarrow> string" where
  "rd_map_json y m = rd_any_to_json y (AMap (hm_collect (map (\<lambda>(k, v). (k, rd_out_to_any y v)) m)))"

definition rd_array_json :: "yrs \<Rightarrow> out list \<Rightarrow> string" where
  "rd_array_json y arr = rd_any_to_json y (AArray (map (rd_out_to_any y) arr))"

section \<open>The lines of a block\<close>

text \<open>The block walk, specified in one pass that shares nothing with the code but the types: a block
  is laid out as strings and block boundaries (\<open>None\<close>), and the lines are what lies between
  boundaries.  \<open>inner\<close> says whether the walk is inside a link, a mark or another inline node,
  where only text, further nodes and node maps show.\<close>

definition inline_types :: "string set" where
  "inline_types = {''text'', ''link'', ''autolink'', ''linebreak'', ''tab'', ''hashtag'', ''mark'', ''overflow''}"

definition string_attr :: "(string \<times> out) list \<Rightarrow> string \<Rightarrow> string" where
  "string_attr as name = (case Option.bind (map_of as name) out_string of Some s \<Rightarrow> s | None \<Rightarrow> [])"

text \<open>The attributes a decorator may show, the first that is not empty; the character a node that
  stands for white space shows.\<close>

definition caption_attrs :: "string \<Rightarrow> string list" where
  "caption_attrs ty =
     (if ty = ''custom_action_text_attachment'' then [''plainText'']
      else if ty = ''action_text_attachment'' then [''caption'', ''altText'', ''fileName'']
      else [])"

definition shown_text :: "attr_list \<Rightarrow> string" where
  "shown_text as =
     concat (take 1 (filter (\<lambda>s. s \<noteq> []) (map (string_attr as) (caption_attrs (string_attr as ''__type'')))))"

definition white_space :: "string \<rightharpoonup> string" where
  "white_space = [''linebreak'' \<mapsto> [CHR 0x0A], ''tab'' \<mapsto> [CHR 0x09]]"

fun laid_out :: "bool \<Rightarrow> xml_text \<Rightarrow> string option list"
  and laid_out_runs :: "bool \<Rightarrow> diff \<Rightarrow> string option list" where
  "laid_out inner (XmlText as ds) = laid_out_runs inner ds"
| "laid_out_runs inner [] = []"
| "laid_out_runs inner ((v, _) # ds) =
     (case v of
        OAny (AString s) \<Rightarrow> [Some s]
      | OYMap m \<Rightarrow> [Some (case white_space (string_attr m ''__type'') of Some s \<Rightarrow> s | None \<Rightarrow> [])]
      | OYXmlText child \<Rightarrow>
          (if inner then laid_out True child
           else case white_space (string_attr (tx_attrs child) ''__type'') of
               Some s \<Rightarrow> [Some s]
             | None \<Rightarrow>
                 if string_attr (tx_attrs child) ''__type'' \<in> inline_types then laid_out True child
                 else None # laid_out False child @ [None])
      | OYXmlElement e \<Rightarrow> if inner then [] else [Some (shown_text (el_attrs e))]
      | _ \<Rightarrow> []) @ laid_out_runs inner ds"

fun rd_groups :: "string \<Rightarrow> string option list \<Rightarrow> string list" where
  "rd_groups line [] = [line]"
| "rd_groups line (Some s # es) = rd_groups (line @ s) es"
| "rd_groups line (None # es) = line # rd_groups [] es"

abbreviation nonempty :: "string list \<Rightarrow> string list" where
  "nonempty \<equiv> filter (\<lambda>l. l \<noteq> [])"

text \<open>The lines of a child of the root.\<close>

fun root_lines :: "yrs \<Rightarrow> xml_out \<Rightarrow> string list" where
  "root_lines y (XText t) = nonempty (rd_groups [] (laid_out False t))"
| "root_lines y (XElement e) =
     (if map_of (el_attrs e) ''__type'' = None then [element_string y e] else nonempty [shown_text (el_attrs e)])"
| "root_lines y (XFragment f) = [fragment_string y f]"

lemma rd_groups_boundary: "rd_groups line (es @ None # fs) = rd_groups line es @ rd_groups [] fs"
  by (induction line es rule: rd_groups.induct) auto

text \<open>The code's accessors in these terms.\<close>

lemma type_char: "rd_type_char ty = (case white_space ty of Some s \<Rightarrow> s | None \<Rightarrow> [])"
  by (simp add: rd_type_char_def white_space_def)

lemma white_space_iff: "(white_space ty = None) = (ty \<noteq> ''linebreak'' \<and> ty \<noteq> ''tab'')"
  by (simp add: white_space_def)

lemma inline_type: "rd_is_inline_lexical_type ty = (ty \<in> inline_types)"
  by (auto simp: rd_is_inline_lexical_type_def inline_types_def)

lemma map_type: "rd_lexical_map_type m = string_attr m ''__type''"
  by (auto simp: rd_lexical_map_type_def string_attr_def split: option.splits out.splits any.splits)

lemma text_type: "rd_lexical_type t = string_attr (tx_attrs t) ''__type''"
  by (auto simp: rd_lexical_type_def string_attr_def split: option.splits out.splits any.splits)

lemma text_attr: "rd_text_attr e name = (let s = string_attr (el_attrs e) name in if s = [] then None else Some s)"
  by (auto simp: rd_text_attr_def string_attr_def split: option.splits out.splits any.splits)

lemma decorator_text: "(case rd_lexical_decorator_text e of Some s \<Rightarrow> s | None \<Rightarrow> []) = shown_text (el_attrs e)"
  by (auto simp: rd_lexical_decorator_text_def shown_text_def caption_attrs_def text_attr or_else_def Let_def
      string_attr_def [of _ "''__type''"] split: option.splits out.splits any.splits)

text \<open>Inside an inline node there are no boundaries, and the code adds to its buffer what is laid out.\<close>

lemma inline_laid_out:
  "rd_groups (rd_inline_lexical_text t buf) es = rd_groups buf (laid_out True t @ es)"
  "rd_groups (rd_inline_runs ds buf) es = rd_groups buf (laid_out_runs True ds @ es)"
proof (induction t buf and ds buf arbitrary: es and es rule: rd_inline_lexical_text_rd_inline_runs.induct)
  case (3 v ra ds buf)
  show ?case
  proof (cases v)
    case (OAny a)
    then show ?thesis using 3 by (cases a) auto
  qed (use 3 in \<open>auto simp: type_char map_type\<close>)
qed simp_all

lemma rd_walk_groups:
  "rd_walk_lexical_block t out = out @ nonempty (rd_groups [] (laid_out False t))"
  "rd_walk_runs ds line out = (line', out') \<Longrightarrow>
     out @ nonempty (rd_groups line (laid_out_runs False ds @ es)) = out' @ nonempty (rd_groups line' es)"
proof (induction t out and ds line out arbitrary: and line' out' es
    rule: rd_walk_lexical_block_rd_walk_runs.induct)
  case (1 as ds out)
  obtain line' out' where w: "rd_walk_runs ds [] out = (line', out')" by force
  from 1 [OF w, of "[]"] w show ?case by auto
next
  case (3 v ra ds line out)
  note IH = "3.IH" and prems = "3.prems"
  show ?case
  proof (cases v)
    case (OYXmlText child)
    let ?ty = "rd_lexical_type child"
    consider (space) "?ty = ''linebreak'' \<or> ?ty = ''tab''"
      | (inline) "\<not> (?ty = ''linebreak'' \<or> ?ty = ''tab'')" "rd_is_inline_lexical_type ?ty"
      | (block) "\<not> (?ty = ''linebreak'' \<or> ?ty = ''tab'')" "\<not> rd_is_inline_lexical_type ?ty" by blast
    then show ?thesis
    proof cases
      case space
      then obtain s where s: "white_space ?ty = Some s" using white_space_iff by blast
      then have "rd_type_char ?ty = s" by (simp add: type_char)
      moreover from this space prems OYXmlText have "rd_walk_runs ds (line @ rd_type_char ?ty) out = (line', out')"
        by (auto simp: Let_def)
      moreover have "out @ nonempty (rd_groups (line @ rd_type_char ?ty) (laid_out_runs False ds @ es)) =
          out' @ nonempty (rd_groups line' es)"
        if "rd_walk_runs ds (line @ rd_type_char ?ty) out = (line', out')"
        using that IH space OYXmlText by auto
      ultimately show ?thesis using s OYXmlText by (simp add: text_type)
    next
      case inline
      then have "white_space ?ty = None" by (simp add: white_space_iff)
      with inline show ?thesis
        using OYXmlText IH prems by (auto simp: text_type [symmetric] inline_type inline_laid_out [symmetric])
    next
      case block
      then have "white_space ?ty = None" by (simp add: white_space_iff)
      with block show ?thesis
        using OYXmlText IH prems by (auto simp: text_type [symmetric] inline_type rd_groups_boundary)
    qed
  next
    case (OYXmlElement e)
    then show ?thesis using IH prems by (auto simp: decorator_text)
  next
    case (OYMap m)
    then show ?thesis using IH prems by (auto simp: type_char map_type)
  next
    case (OAny a)
    then show ?thesis using IH prems by (cases a) auto
  qed (use IH prems in auto)
qed simp

lemma decorator_line: "rd_lexical_decorator_text e = (let s = shown_text (el_attrs e) in if s = [] then None else Some s)"
proof -
  have "rd_lexical_decorator_text e \<noteq> Some []"
    by (auto simp: rd_lexical_decorator_text_def text_attr or_else_def Let_def split: option.splits out.splits any.splits if_splits)
  then show ?thesis unfolding decorator_text [symmetric] by (cases "rd_lexical_decorator_text e") auto
qed

lemma rd_xml_step_lines: "rd_xml_step y out x = out @ root_lines y x"
  by (cases x) (simp_all add: rd_walk_groups(1) decorator_line Let_def)

lemma rd_xml_lines: "foldl (rd_xml_step y) out fragment = out @ concat (map (root_lines y) fragment)"
  by (induction fragment arbitrary: out) (simp_all add: rd_xml_step_lines)

text \<open>Every string laid out reaches the output, in order.\<close>

lemma rd_groups_concat: "concat (rd_groups line es) = line @ concat (map (case_option [] id) es)"
  by (induction line es rule: rd_groups.induct) auto

lemma concat_nonempty: "concat (nonempty ls) = concat ls"
  by (induction ls) auto

section \<open>JSON does not depend on the order of a hash map\<close>

text \<open>Two values that differ only in the order their maps iterate, at any depth.\<close>

inductive same_any :: "any \<Rightarrow> any \<Rightarrow> bool" where
  scalar: "same_any a a"
| array: "list_all2 same_any xs ys \<Longrightarrow> same_any (AArray xs) (AArray ys)"
| object: "distinct (map fst m) \<Longrightarrow> distinct (map fst n) \<Longrightarrow> fst ` set m = fst ` set n \<Longrightarrow>
     (\<And>k a b. (k, a) \<in> set m \<Longrightarrow> (k, b) \<in> set n \<Longrightarrow> same_any a b) \<Longrightarrow> same_any (AMap m) (AMap n)"

lemma rd_any_to_json_same: "same_any a b \<Longrightarrow> rd_any_to_json y a = rd_any_to_json y b"
proof (induction rule: same_any.induct)
  case (array xs ys)
  then have "map (rd_any_to_json y) xs = map (rd_any_to_json y) ys"
    by (induction rule: list_all2_induct) auto
  then show ?case by simp
next
  case (object m n)
  have "list_all2 (\<lambda>x z. fst x = fst z \<and> rd_any_to_json y (snd x) = rd_any_to_json y (snd z))
      (sort_key fst m) (sort_key fst n)"
    by (rule sorted_entries_match [OF object(1-3)]) (use object.IH in blast)
  then have "map (\<lambda>(key, v). rd_scalar_json y (AString key) @ '':'' @ rd_any_to_json y v) (sort_key fst m)
    = map (\<lambda>(key, v). rd_scalar_json y (AString key) @ '':'' @ rd_any_to_json y v) (sort_key fst n)"
    by (induction rule: list_all2_induct) (auto split: prod.splits)
  then show ?case by simp
qed simp

lemma hm_collect_append:
  "distinct (map fst (hm @ kvs)) \<Longrightarrow> foldl (\<lambda>hm (k, v). AList.update k v hm) hm kvs = hm @ kvs"
proof (induction kvs arbitrary: hm)
  case (Cons kv kvs)
  obtain k v where kv: "kv = (k, v)" by force
  have "AList.update k v hm = hm @ [(k, v)]"
    using Cons.prems kv by (induction hm) auto
  with Cons.IH [of "hm @ [(k, v)]"] Cons.prems kv show ?case by simp
qed simp

lemma hm_collect_distinct: "distinct (map fst kvs) \<Longrightarrow> hm_collect kvs = kvs"
  using hm_collect_append [of "[]" kvs] by (simp add: hm_collect_def)

text \<open>The same for the values of a document.  A text or XML value reaches the JSON as the string yrs
  renders for it, so two of them are the same when yrs renders them alike.\<close>

fun rendered :: "yrs \<Rightarrow> out \<Rightarrow> string option" where
  "rendered y (OYText d) = Some (ytext_string y d)"
| "rendered y (OYXmlText t) = Some (text_string y t)"
| "rendered y (OYXmlElement e) = Some (element_string y e)"
| "rendered y (OYXmlFragment f) = Some (fragment_string y f)"
| "rendered y _ = None"

inductive same_out :: "yrs \<Rightarrow> out \<Rightarrow> out \<Rightarrow> bool" for y where
  same: "same_out y v v"
| plain: "same_any a b \<Longrightarrow> same_out y (OAny a) (OAny b)"
| rendering: "rendered y v = Some s \<Longrightarrow> rendered y w = Some s \<Longrightarrow> same_out y v w"
| yarray: "list_all2 (same_out y) xs ys \<Longrightarrow> same_out y (OYArray xs) (OYArray ys)"
| ymap: "distinct (map fst m) \<Longrightarrow> distinct (map fst n) \<Longrightarrow> fst ` set m = fst ` set n \<Longrightarrow>
     (\<And>k a b. (k, a) \<in> set m \<Longrightarrow> (k, b) \<in> set n \<Longrightarrow> same_out y a b) \<Longrightarrow> same_out y (OYMap m) (OYMap n)"

lemma rendered_any: "rendered y v = Some s \<Longrightarrow> rd_out_to_any y v = AString s"
  by (cases v) simp_all

lemma same_any_entries:
  assumes "distinct (map fst m)" and "distinct (map fst n)" and "fst ` set m = fst ` set n"
    and "\<And>k a b. (k, a) \<in> set m \<Longrightarrow> (k, b) \<in> set n \<Longrightarrow> same_any (f a) (f b)"
  shows "same_any (AMap (hm_collect (map (\<lambda>(k, v). (k, f v)) m)))
    (AMap (hm_collect (map (\<lambda>(k, v). (k, f v)) n)))"
proof -
  have keys: "map fst (map (\<lambda>(k, v). (k, f v)) xs) = map fst xs" for xs
    by (induction xs) auto
  have collect: "hm_collect (map (\<lambda>(k, v). (k, f v)) xs) = map (\<lambda>(k, v). (k, f v)) xs"
    if "distinct (map fst xs)" for xs
    by (rule hm_collect_distinct) (simp only: keys that)
  let ?m = "map (\<lambda>(k, v). (k, f v)) m" and ?n = "map (\<lambda>(k, v). (k, f v)) n"
  have "same_any (AMap ?m) (AMap ?n)"
  proof (rule same_any.object)
    show "distinct (map fst ?m)" "distinct (map fst ?n)" by (simp_all only: keys assms)
    show "fst ` set ?m = fst ` set ?n" by (simp only: image_set keys) (simp add: assms(3))
    show "same_any a b" if "(k, a) \<in> set ?m" "(k, b) \<in> set ?n" for k a b
      using that assms(4) by auto
  qed
  then show ?thesis by (simp only: collect assms)
qed

lemma rd_out_to_any_same: "same_out y v w \<Longrightarrow> same_any (rd_out_to_any y v) (rd_out_to_any y w)"
proof (induction rule: same_out.induct)
  case (same v)
  show ?case by (rule same_any.scalar)
next
  case (rendering v s w)
  then show ?case by (simp add: rendered_any same_any.scalar)
next
  case (yarray xs ys)
  then have "list_all2 same_any (map (rd_out_to_any y) xs) (map (rd_out_to_any y) ys)"
    by (induction rule: list_all2_induct) auto
  then show ?case by (simp add: same_any.array)
next
  case (ymap m n)
  show ?case
    unfolding rd_out_to_any.simps by (rule same_any_entries [OF ymap(1-3)]) (use ymap.IH in blast)
qed simp

end
