(* ===== verification/SharedIndex.thy ===== *)
theory SharedIndex
  imports ReadDoc
begin

text \<open>
  The index and block helpers every live handle shares (\<open>src/ext/yrby/src/shared.rs\<close>).
  Ruby counts characters, a document counts UTF-16 units, an embed counts one of each.
  An \<open>i64\<close> is an \<open>int\<close>, a \<open>u32\<close> counter a \<open>nat\<close>: every counter is bounded by the length
  of the sequence, which yrs keeps in a \<open>u32\<close> itself, and the sums of the index functions
  stay in the range of an \<open>i64\<close> (both are lemmas here).  A sequence is what \<open>Text::diff\<close>
  yields.

  The reference for the walks is the list \<open>widths\<close> of the unit widths of a sequence's
  characters: an index in units is a sum of a prefix of it.
\<close>

section \<open>Ruby indexes\<close>

definition insert_index :: "int \<Rightarrow> nat \<Rightarrow> nat" where
  "insert_index index len =
     (let l = int len; i = (if index < 0 then l + index + 1 else index)
      in nat (clamp 0 l i))"

definition element_index :: "int \<Rightarrow> nat \<Rightarrow> nat option" where
  "element_index index len =
     (let l = int len; i = (if index < 0 then l + index else index)
      in if 0 \<le> i \<and> i < l then Some (nat i) else None)"

definition delete_span :: "int \<Rightarrow> int \<Rightarrow> nat \<Rightarrow> (nat \<times> nat) option" where
  "delete_span index count len =
     (let l = int len; start = (if index < 0 then l + index else index)
      in if start < 0 \<or> start > l then None
         else let n = clamp 0 (l - start) count in Some (nat start, nat (start + n)))"

section \<open>Characters and units\<close>

definition pieces :: "diff \<Rightarrow> out list" where
  "pieces seq = map fst seq"

definition char_len :: "diff \<Rightarrow> nat" where
  "char_len seq =
     sum_list (map (\<lambda>piece. case piece of OAny (AString s) \<Rightarrow> length (chars s) | _ \<Rightarrow> 1) (pieces seq))"

text \<open>The inner loop of \<open>to_units\<close> over the characters of a string, then the outer loop;
  the state is what is left to count and the units so far.\<close>

fun units_in_string :: "string list \<Rightarrow> nat \<times> nat \<Rightarrow> nat \<times> nat" where
  "units_in_string [] st = st"
| "units_in_string (c # cs) (left, units) =
     (if left = 0 then (left, units) else units_in_string cs (left - 1, units + len_utf16 c))"

fun units_in_pieces :: "out list \<Rightarrow> nat \<times> nat \<Rightarrow> nat \<times> nat" where
  "units_in_pieces [] st = st"
| "units_in_pieces (piece # ps) (left, units) =
     (if left = 0 then (left, units)
      else case piece of
          OAny (AString s) \<Rightarrow> units_in_pieces ps (units_in_string (chars s) (left, units))
        | _ \<Rightarrow> units_in_pieces ps (left - 1, units + 1))"

definition to_units :: "diff \<Rightarrow> nat \<Rightarrow> nat" where
  "to_units seq n = snd (units_in_pieces (pieces seq) (n, 0))"

text \<open>\<open>saturating_sub\<close> is the subtraction of \<open>nat\<close>.\<close>

fun chars_in_string :: "string list \<Rightarrow> nat \<times> nat \<Rightarrow> nat \<times> nat" where
  "chars_in_string [] st = st"
| "chars_in_string (c # cs) (left, n) =
     (if left = 0 then (left, n) else chars_in_string cs (left - len_utf16 c, n + 1))"

fun chars_in_pieces :: "out list \<Rightarrow> nat \<times> nat \<Rightarrow> nat \<times> nat" where
  "chars_in_pieces [] st = st"
| "chars_in_pieces (piece # ps) (left, n) =
     (if left = 0 then (left, n)
      else case piece of
          OAny (AString s) \<Rightarrow> chars_in_pieces ps (chars_in_string (chars s) (left, n))
        | _ \<Rightarrow> chars_in_pieces ps (left - 1, n + 1))"

definition to_chars :: "diff \<Rightarrow> nat \<Rightarrow> nat" where
  "to_chars seq units = snd (chars_in_pieces (pieces seq) (units, 0))"

text \<open>\<open>seq_len\<close> is yrs's \<open>Text::len\<close> of the sequence.\<close>

definition end_or_units :: "(diff \<Rightarrow> nat) \<Rightarrow> diff \<Rightarrow> int \<Rightarrow> nat" where
  "end_or_units seq_len seq index =
     (if index = -1 then seq_len seq else to_units seq (insert_index index (char_len seq)))"

section \<open>Blocks\<close>

fun xml_texts_of :: "out list \<Rightarrow> xml_text list" where
  "xml_texts_of [] = []"
| "xml_texts_of (OYXmlText x # ps) = x # xml_texts_of ps"
| "xml_texts_of (_ # ps) = xml_texts_of ps"

definition embedded_xml_texts :: "xml_text \<Rightarrow> xml_text list" where
  "embedded_xml_texts parent = xml_texts_of (pieces (tx_diff parent))"

fun embedded_loop :: "out list \<Rightarrow> nat \<Rightarrow> nat \<Rightarrow> nat \<Rightarrow> nat option" where
  "embedded_loop [] n seen index = None"
| "embedded_loop (piece # ps) n seen index =
     (case piece of
        OYXmlText _ \<Rightarrow> if seen = n then Some index else embedded_loop ps n (seen + 1) (index + 1)
      | OAny (AString s) \<Rightarrow> embedded_loop ps n seen (index + utf16_count s)
      | _ \<Rightarrow> embedded_loop ps n seen (index + 1))"

definition embedded_xml_text_index :: "xml_text \<Rightarrow> nat \<Rightarrow> nat option" where
  "embedded_xml_text_index parent n = embedded_loop (pieces (tx_diff parent)) n 0 0"

definition ends_with_xml_text :: "xml_text \<Rightarrow> bool" where
  "ends_with_xml_text block =
     (case rev (pieces (tx_diff block)) of OYXmlText _ # _ \<Rightarrow> True | _ \<Rightarrow> False)"

fun block_text :: "xml_text \<Rightarrow> string"
  and block_text_loop :: "diff \<Rightarrow> string \<Rightarrow> string" where
  "block_text (XmlText as ds) = block_text_loop ds []"
| "block_text_loop [] out = out"
| "block_text_loop ((piece, _) # ds) out =
     (case piece of
        OAny (AString s) \<Rightarrow> block_text_loop ds (out @ s)
      | OYXmlText child \<Rightarrow>
          (let inline = rd_is_inline_lexical_type (rd_lexical_type child);
               out' = (if \<not> inline \<and> out \<noteq> [] then out @ [CHR 0x0A] else out)
           in block_text_loop ds (out' @ block_text child))
      | _ \<Rightarrow> block_text_loop ds out)"

section \<open>Index lemmas\<close>

lemma insert_index_le: "insert_index index len \<le> len"
  by (simp add: insert_index_def Let_def clamp_def)

lemma index_sums_fit:
  assumes "i64_min \<le> index" and "index \<le> i64_max" and "len < 2 ^ 32"
  shows "i64_min \<le> int len + index \<or> index \<ge> 0" "index < 0 \<Longrightarrow> int len + index + 1 \<le> i64_max"
  using assms by (auto simp: i64_min_def i64_max_def)

lemma delete_span_le: "delete_span index count len = Some (a, b) \<Longrightarrow> a \<le> b \<and> b \<le> len"
  by (auto simp: delete_span_def Let_def clamp_def split: if_splits)

section \<open>Walk lemmas\<close>

definition piece_widths :: "out \<Rightarrow> nat list" where
  "piece_widths piece = (case piece of OAny (AString s) \<Rightarrow> map len_utf16 (chars s) | _ \<Rightarrow> [1])"

definition widths :: "diff \<Rightarrow> nat list" where
  "widths seq = concat (map piece_widths (pieces seq))"

lemma piece_widths_simps [simp]:
  "piece_widths (OAny (AString s)) = map len_utf16 (chars s)"
  "\<forall>s. p \<noteq> OAny (AString s) \<Longrightarrow> piece_widths p = [1]"
  by (auto simp: piece_widths_def split: out.splits any.splits)

lemma widths_pos: "w \<in> set (widths seq) \<Longrightarrow> 0 < w"
proof -
  have "0 < w" if "w \<in> set (piece_widths p)" for p
    using that by (cases "\<exists>s. p = OAny (AString s)") (auto simp: len_utf16_def)
  then show "w \<in> set (widths seq) \<Longrightarrow> 0 < w" by (auto simp: widths_def)
qed

lemma char_len_widths: "char_len seq = length (widths seq)"
proof -
  have "(case p of OAny (AString s) \<Rightarrow> length (chars s) | _ \<Rightarrow> 1) = length (piece_widths p)" for p
    by (auto simp: piece_widths_def split: out.splits any.splits)
  then show ?thesis
    by (simp add: char_len_def widths_def length_concat comp_def)
qed

lemma units_in_string_eq:
  "units_in_string cs (left, units)
     = (left - length cs, units + sum_list (take left (map len_utf16 cs)))"
  by (induction cs arbitrary: left units) (auto simp: take_Cons' split: nat.splits)

lemma units_in_pieces_eq:
  "units_in_pieces ps (left, units)
     = (left - length (concat (map piece_widths ps)),
        units + sum_list (take left (concat (map piece_widths ps))))"
proof (induction ps arbitrary: left units)
  case (Cons p ps)
  show ?case
  proof (cases "\<exists>s. p = OAny (AString s)")
    case True
    then obtain s where "p = OAny (AString s)" by blast
    with Cons show ?thesis
      by (cases "left = 0") (simp_all add: units_in_string_eq)
  next
    case False
    have "units_in_pieces (p # ps) (left, units) =
        (if left = 0 then (left, units) else units_in_pieces ps (left - 1, units + 1))"
      using False by (auto split: out.splits any.splits)
    with False Cons show ?thesis
      by (cases left) simp_all
  qed
qed simp

text \<open>An index in units is the width of a prefix: it never lands inside a character.\<close>

lemma to_units_widths: "to_units seq n = sum_list (take n (widths seq))"
  by (simp add: to_units_def units_in_pieces_eq widths_def)

text \<open>The number of leading widths needed to cover \<open>u\<close> units.\<close>

fun cover :: "nat list \<Rightarrow> nat \<Rightarrow> nat" where
  "cover [] u = 0"
| "cover (w # ws) u = (if u = 0 then 0 else Suc (cover ws (u - w)))"

lemma cover_0 [simp]: "cover ws 0 = 0"
  by (cases ws) auto

lemma cover_append: "cover (xs @ ys) u = cover xs u + cover ys (u - sum_list xs)"
  by (induction xs arbitrary: u) auto

lemma chars_in_string_eq:
  "chars_in_string cs (left, n)
     = (left - sum_list (map len_utf16 cs), n + cover (map len_utf16 cs) left)"
  by (induction cs arbitrary: left n) auto

lemma chars_in_pieces_eq:
  "snd (chars_in_pieces ps (left, n)) = n + cover (concat (map piece_widths ps)) left"
proof (induction ps arbitrary: left n)
  case (Cons p ps)
  show ?case
  proof (cases "\<exists>s. p = OAny (AString s)")
    case True
    then obtain s where "p = OAny (AString s)" by blast
    with Cons show ?thesis
      by (cases "left = 0") (simp_all add: chars_in_string_eq cover_append)
  next
    case False
    have "chars_in_pieces (p # ps) (left, n) =
        (if left = 0 then (left, n) else chars_in_pieces ps (left - 1, n + 1))"
      using False by (auto split: out.splits any.splits)
    with False Cons show ?thesis by simp
  qed
qed simp

lemma to_chars_widths: "to_chars seq u = cover (widths seq) u"
  by (simp add: to_chars_def chars_in_pieces_eq widths_def)

lemma cover_prefix:
  "\<forall>w \<in> set ws. 0 < w \<Longrightarrow> cover ws (sum_list (take n ws)) = min n (length ws)"
proof (induction ws arbitrary: n)
  case (Cons w ws)
  then show ?case by (cases n) auto
qed simp

lemma cover_reaches: "u \<le> sum_list ws \<Longrightarrow> u \<le> sum_list (take (cover ws u) ws)"
proof (induction ws arbitrary: u)
  case (Cons w ws)
  then have "u - w \<le> sum_list (take (cover ws (u - w)) ws)" by (intro Cons.IH) simp
  then show ?case by (simp; linarith)
qed simp

lemma cover_least: "m < cover ws u \<Longrightarrow> sum_list (take m ws) < u"
proof (induction ws arbitrary: u m)
  case (Cons w ws)
  show ?case
  proof (cases m)
    case (Suc k)
    then have "sum_list (take k ws) < u - w"
      using Cons by (auto split: if_splits)
    with Suc show ?thesis by simp
  qed (use Cons.prems in \<open>auto split: if_splits\<close>)
qed simp

lemma sum_list_take_mono: "m \<le> n \<Longrightarrow> sum_list (take m ws) \<le> sum_list (take n (ws :: nat list))"
  by (metis le_add1 le_add_diff_inverse sum_list_append take_add)


lemma xml_texts_of_append: "xml_texts_of (ps @ qs) = xml_texts_of ps @ xml_texts_of qs"
  by (induction ps rule: xml_texts_of.induct) auto

lemma utf16_count_widths: "utf16_count s = sum_list (piece_widths (OAny (AString s)))"
  by (simp add: utf16_count_def)

lemma embedded_loop_found:
  "embedded_loop (ps @ OYXmlText x # qs) (seen + length (xml_texts_of ps)) seen index
     = Some (index + sum_list (concat (map piece_widths ps)))"
proof (induction ps arbitrary: seen index)
  case (Cons p ps)
  consider s where "p = OAny (AString s)" | t where "p = OYXmlText t"
    | "\<forall>s. p \<noteq> OAny (AString s)" "\<forall>t. p \<noteq> OYXmlText t" by blast
  then show ?case
  proof cases
    case 1
    with Cons show ?thesis by (simp add: utf16_count_def)
  next
    case 2
    with Cons [of "Suc seen"] show ?thesis by simp
  next
    case 3
    then have "xml_texts_of (p # ps) = xml_texts_of ps" by (cases p) auto
    moreover have "embedded_loop (p # rest) n seen index = embedded_loop rest n seen (index + 1)" for rest n
      using 3 by (auto split: out.splits any.splits)
    ultimately show ?thesis using 3 Cons by simp
  qed
qed simp

lemma embedded_loop_missing:
  "seen + length (xml_texts_of ps) \<le> n \<Longrightarrow> embedded_loop ps n seen index = None"
  by (induction ps arbitrary: seen index) (auto split: out.splits any.splits)

lemma xml_texts_of_nth:
  "n < length (xml_texts_of ps) \<Longrightarrow>
    \<exists>pre post. ps = pre @ OYXmlText (xml_texts_of ps ! n) # post \<and> length (xml_texts_of pre) = n"
proof (induction ps arbitrary: n rule: xml_texts_of.induct)
  case (2 x ps)
  show ?case
  proof (cases n)
    case 0
    then show ?thesis by (intro exI [of _ "[]"] exI [of _ ps]) simp
  next
    case (Suc k)
    with 2(2) have "k < length (xml_texts_of ps)" by simp
    from 2(1) [OF this] obtain pre post where "ps = pre @ OYXmlText (xml_texts_of ps ! k) # post"
      "length (xml_texts_of pre) = k" by blast
    with Suc show ?thesis by (intro exI [of _ "OYXmlText x # pre"] exI [of _ post]) auto
  qed
qed (simp_all, (metis append_Cons xml_texts_of.simps)+)

end
