(* ===== verification/DocBlocks.thy ===== *)
theory DocBlocks
  imports SharedIndex DocSync
begin

text \<open>
  Which blocks of a root an update touched (\<open>src/ext/yrby/src/lib.rs\<close>: \<open>Children\<close>,
  \<open>root_positions\<close>, \<open>apply_update_changes\<close>).  Ordinals count the \<open>XmlText\<close> children of the
  root; a delta counts document units.

  The reference is the sequence of \<open>cells\<close> of a root, one per unit, true where a block
  is.  An edit script on cells gives the delta yrs reports, the root before and the root
  after; \<open>root_positions\<close> finds the ordinals of the blocks the script adds and removes.
\<close>

section \<open>A root's children\<close>

type_synonym children = "(nat \<times> bool) list"

text \<open>The length and kind of one piece.\<close>

definition child_of :: "out \<Rightarrow> nat \<times> bool" where
  "child_of piece =
     (case piece of
        OAny (AString s) \<Rightarrow> (utf16_count s, False)
      | OYXmlText _ \<Rightarrow> (1, True)
      | _ \<Rightarrow> (1, False))"

fun children_loop :: "out list \<Rightarrow> nat \<Rightarrow> children" where
  "children_loop [] at = []"
| "children_loop (p # ps) at = (at, snd (child_of p)) # children_loop ps (at + fst (child_of p))"

definition children_of :: "diff \<Rightarrow> children" where
  "children_of seq = children_loop (map fst seq) 0"

definition ordinal :: "children \<Rightarrow> nat \<Rightarrow> nat" where
  "ordinal cs index = length (filter (\<lambda>(at, block). block \<and> at < index) cs)"

definition is_block :: "children \<Rightarrow> nat \<Rightarrow> bool" where
  "is_block cs index = list_ex (\<lambda>(at, block). block \<and> at = index) cs"

definition blocks_in :: "children \<Rightarrow> nat \<Rightarrow> nat \<Rightarrow> nat" where
  "blocks_in cs from to = length (filter (\<lambda>(at, block). block \<and> from \<le> at \<and> at < to) cs)"

section \<open>Events on the root\<close>

datatype change = Retain nat | Added "out list" | Removed nat
datatype delta = DRetain nat | DInserted out | DDeleted nat
datatype root_event = EXmlFragment "change list" | EXmlText "delta list" | EOther

text \<open>The closures \<open>added\<close> and \<open>removed\<close>.\<close>

definition root_added :: "children \<Rightarrow> out \<Rightarrow> nat \<times> nat list \<Rightarrow> nat \<times> nat list" where
  "root_added after item = (\<lambda>(new, hits).
     (new + (case item of OAny (AString s) \<Rightarrow> utf16_count s | _ \<Rightarrow> 1),
      case item of OYXmlText _ \<Rightarrow> hits @ [ordinal after new] | _ \<Rightarrow> hits))"

definition root_removed :: "children \<Rightarrow> nat \<Rightarrow> nat \<Rightarrow> nat list \<Rightarrow> nat list" where
  "root_removed before old n hits =
     (let fst_ordinal = ordinal before old
      in hits @ [fst_ordinal..<fst_ordinal + blocks_in before old (old + n)])"

fun fragment_loop :: "children \<Rightarrow> children \<Rightarrow> change list \<Rightarrow> nat \<Rightarrow> nat \<Rightarrow> nat list \<Rightarrow> nat list" where
  "fragment_loop before after [] old new hits = hits"
| "fragment_loop before after (Retain n # cs) old new hits =
     fragment_loop before after cs (old + n) (new + n) hits"
| "fragment_loop before after (Added items # cs) old new hits =
     (let (new', hits') = fold (root_added after) items (new, hits)
      in fragment_loop before after cs old new' hits')"
| "fragment_loop before after (Removed n # cs) old new hits =
     fragment_loop before after cs (old + n) new (root_removed before old n hits)"

fun text_loop :: "children \<Rightarrow> children \<Rightarrow> delta list \<Rightarrow> nat \<Rightarrow> nat \<Rightarrow> nat list \<Rightarrow> nat list" where
  "text_loop before after [] old new hits = hits"
| "text_loop before after (DRetain n # ds) old new hits =
     text_loop before after ds (old + n) (new + n) hits"
| "text_loop before after (DInserted item # ds) old new hits =
     (let (new', hits') = root_added after item (new, hits)
      in text_loop before after ds old new' hits')"
| "text_loop before after (DDeleted n # ds) old new hits =
     text_loop before after ds (old + n) new (root_removed before old n hits)"

fun root_positions :: "root_event \<Rightarrow> children \<Rightarrow> children \<Rightarrow> nat list \<Rightarrow> nat list" where
  "root_positions (EXmlFragment cs) before after hits = fragment_loop before after cs 0 0 hits"
| "root_positions (EXmlText ds) before after hits = text_loop before after ds 0 0 hits"
| "root_positions EOther before after hits = hits"

text \<open>The observer of \<open>apply_update_changes\<close>: an event carries the first step of its path,
  if any.\<close>

datatype path_segment = PIndex nat | PKey string

definition event_hits ::
  "children \<Rightarrow> children \<Rightarrow> (path_segment option \<times> root_event) list \<Rightarrow> nat list" where
  "event_hits before after events =
     foldl (\<lambda>hits (front, ev).
         case front of
           Some (PIndex i) \<Rightarrow> if is_block after i then hits @ [ordinal after i] else hits
         | Some _ \<Rightarrow> hits
         | None \<Rightarrow> root_positions ev before after hits) [] events"

text \<open>\<open>sort_unstable\<close> and \<open>dedup\<close>.\<close>

definition sorted_dedup :: "nat list \<Rightarrow> nat list" where
  "sorted_dedup hits = remdups_adj (sort hits)"

text \<open>\<open>root_seq\<close> is the content of the named root in a document, \<open>txn_events\<close> the deep events
  yrs reports on it for a transaction, \<open>touch\<close> the creation of the root.  The transaction
  commits whether or not the update applies.\<close>

definition apply_update_changes ::
  "('doc, 'upd, 'sv, 'aw) yrs_sync \<Rightarrow> ('doc \<Rightarrow> 'doc \<Rightarrow> bytes option) \<Rightarrow> ('doc \<Rightarrow> 'doc) \<Rightarrow> ('doc \<Rightarrow> diff)
     \<Rightarrow> ('doc \<Rightarrow> 'doc \<Rightarrow> (path_segment option \<times> root_event) list)
     \<Rightarrow> string option \<Rightarrow> nat \<Rightarrow> 'doc rb_doc \<Rightarrow> bytes \<Rightarrow> (string + nat list) \<times> 'doc rb_doc" where
  "apply_update_changes c txn_update touch root_seq txn_events intr key rb bs =
     (let d0 = touch (ydoc rb);
          before = children_of (root_seq d0);
          parsed = decode_update c bs;
          applied = bind_sum parsed (doc_apply_update c d0);
          d1 = (case applied of Inr d \<Rightarrow> d
                | Inl _ \<Rightarrow> (case parsed of Inr u \<Rightarrow> apply_leaves c d0 u | Inl _ \<Rightarrow> d0));
          rb' = commit_txn txn_update (Some (remote_key key)) rb d1;
          hits = event_hits before (children_of (root_seq d1)) (txn_events d0 d1)
      in (nogvl_try intr (map_sum id (\<lambda>_. sorted_dedup hits) applied), rb'))"

section \<open>Cells\<close>

definition piece_cells :: "out \<Rightarrow> bool list" where
  "piece_cells p = (if snd (child_of p) then [True] else replicate (fst (child_of p)) False)"

definition cells :: "diff \<Rightarrow> bool list" where
  "cells seq = concat (map piece_cells (map fst seq))"

definition trues :: "bool list \<Rightarrow> nat" where
  "trues bs = length (filter id bs)"

lemma trues_simps [simp]:
  "trues [] = 0" "trues (b # bs) = (if b then Suc (trues bs) else trues bs)"
  "trues (xs @ ys) = trues xs + trues ys" "trues (replicate n False) = 0"
  by (simp_all add: trues_def)

lemma child_block: "snd (child_of p) \<Longrightarrow> fst (child_of p) = 1"
  by (auto simp: child_of_def split: out.splits any.splits)

lemma length_piece_cells: "length (piece_cells p) = fst (child_of p)"
  using child_block by (auto simp: piece_cells_def)

lemma child_of_units: "(case p of OAny (AString s) \<Rightarrow> utf16_count s | _ \<Rightarrow> 1) = fst (child_of p)"
  by (auto simp: child_of_def split: out.splits any.splits)

lemma child_of_block: "snd (child_of p) \<longleftrightarrow> (\<exists>t. p = OYXmlText t)"
  by (auto simp: child_of_def split: out.splits any.splits)

lemma children_loop_at: "(a, b) \<in> set (children_loop ps at) \<Longrightarrow> at \<le> a"
  by (induction ps arbitrary: at) fastforce+

lemma ordinal_Cons: "ordinal ((at, b) # cs) i = (if b \<and> at < i then 1 else 0) + ordinal cs i"
  by (simp add: ordinal_def)

lemma ordinal_loop:
  "ordinal (children_loop ps at) (at + i) = trues (take i (concat (map piece_cells ps)))"
proof (induction ps arbitrary: at i)
  case (Cons p ps)
  let ?n = "fst (child_of p)"
  show ?case
  proof (cases "snd (child_of p)")
    case True
    then have n: "?n = 1" "piece_cells p = [True]" using child_block by (simp_all add: piece_cells_def)
    show ?thesis
    proof (cases i)
      case 0
      have "ordinal (children_loop ps (Suc at)) at = 0"
        using children_loop_at [of _ _ ps "Suc at"] by (fastforce simp: ordinal_def filter_empty_conv)
      with 0 n show ?thesis by (simp add: ordinal_Cons)
    next
      case (Suc j)
      with Cons.IH [of "Suc at" j] True n show ?thesis by (simp add: ordinal_Cons)
    qed
  next
    case False
    then have cs: "piece_cells p = replicate ?n False" by (simp add: piece_cells_def)
    show ?thesis
    proof (cases "i \<le> ?n")
      case True
      have "ordinal (children_loop ps (at + ?n)) (at + i) = 0"
        using children_loop_at [of _ _ ps "at + ?n"] True by (fastforce simp: ordinal_def filter_empty_conv)
      with True False cs show ?thesis by (simp add: ordinal_Cons take_replicate min_def)
    next
      case False
      then obtain j where "i = ?n + j" using le_Suc_ex nat_le_linear by blast
      with Cons.IH [of "at + ?n" j] cs \<open>\<not> snd (child_of p)\<close> show ?thesis
        by (simp add: ordinal_Cons add.assoc [symmetric])
    qed
  qed
qed (simp add: ordinal_def)

lemma ordinal_cells: "ordinal (children_of seq) i = trues (take i (cells seq))"
  using ordinal_loop [of "map fst seq" 0 i] by (simp add: children_of_def cells_def)

lemma ordinal_split: "from \<le> to \<Longrightarrow> ordinal cs to = ordinal cs from + blocks_in cs from to"
  by (induction cs) (auto simp: ordinal_def blocks_in_def)

lemma blocks_in_cells:
  "cells seq = pre @ mid @ post \<Longrightarrow> blocks_in (children_of seq) (length pre) (length pre + length mid) = trues mid"
  using ordinal_split [of "length pre" "length pre + length mid" "children_of seq"]
  by (simp add: ordinal_cells)

section \<open>Blocks by number and by unit index\<close>

lemma child_of_widths: "sum_list (piece_widths p) = fst (child_of p)"
  by (auto simp: child_of_def piece_widths_def utf16_count_def split: out.splits any.splits)

lemma trues_blocks: "trues (concat (map piece_cells ps)) = length (xml_texts_of ps)"
  by (induction ps rule: xml_texts_of.induct) (auto simp: piece_cells_def child_of_def split: any.splits)

lemma length_cells_widths:
  "length (concat (map piece_cells ps)) = sum_list (concat (map piece_widths ps))"
  by (induction ps) (simp_all add: length_piece_cells child_of_widths)

lemma is_block_loop:
  "is_block (children_loop (pre @ OYXmlText x # post) at) (at + sum_list (concat (map piece_widths pre)))"
proof (induction pre arbitrary: at)
  case (Cons p pre)
  from Cons [of "at + fst (child_of p)"] show ?case
    by (simp add: is_block_def child_of_widths add.assoc)
qed (simp add: is_block_def child_of_def)

lemma ordinal_after:
  "map fst seq = pre @ post \<Longrightarrow>
    ordinal (children_of seq) (sum_list (concat (map piece_widths pre))) = length (xml_texts_of pre)"
  by (simp add: ordinal_cells cells_def trues_blocks flip: length_cells_widths)

lemma is_block_cells_loop:
  "is_block (children_loop ps at) (at + i) \<longleftrightarrow>
    i < length (concat (map piece_cells ps)) \<and> concat (map piece_cells ps) ! i"
proof (induction ps arbitrary: at i)
  case (Cons p ps)
  let ?n = "fst (child_of p)"
  have step: "is_block (children_loop (p # ps) at) (at + i) \<longleftrightarrow>
      snd (child_of p) \<and> i = 0 \<or> is_block (children_loop ps (at + ?n)) (at + i)"
    by (auto simp: is_block_def)
  show ?case
  proof (cases "i < ?n")
    case True
    have "\<not> is_block (children_loop ps (at + ?n)) (at + i)"
      using True children_loop_at [of _ _ ps "at + ?n"] by (fastforce simp: is_block_def list_ex_iff)
    moreover have "piece_cells p ! i \<longleftrightarrow> snd (child_of p) \<and> i = 0"
      using True child_block [of p] by (auto simp: piece_cells_def)
    ultimately show ?thesis
      using True by (simp only: step) (simp add: nth_append length_piece_cells)
  next
    case False
    then obtain j where j: "i = ?n + j" using le_Suc_ex not_le by blast
    have "\<not> (snd (child_of p) \<and> i = 0)" using False child_block [of p] by auto
    with Cons.IH [of "at + ?n" j] show ?thesis
      unfolding step by (auto simp: j nth_append length_piece_cells add.assoc)
  qed
qed (simp add: is_block_def)

lemma is_block_cells: "is_block (children_of seq) i \<longleftrightarrow> i < length (cells seq) \<and> cells seq ! i"
  using is_block_cells_loop [of "map fst seq" 0 i] by (simp add: children_of_def cells_def)

section \<open>Edit scripts\<close>

datatype edit = Keep "bool list" | Insert "out list" | Delete "bool list"

text \<open>How a script shows as the delta of a fragment and as that of a text, which reports every
  inserted piece by itself.\<close>

fun edit_change :: "edit \<Rightarrow> change" where
  "edit_change (Keep bs) = Retain (length bs)"
| "edit_change (Insert ps) = Added ps"
| "edit_change (Delete bs) = Removed (length bs)"

fun edit_deltas :: "edit \<Rightarrow> delta list" where
  "edit_deltas (Keep bs) = [DRetain (length bs)]"
| "edit_deltas (Insert ps) = map DInserted ps"
| "edit_deltas (Delete bs) = [DDeleted (length bs)]"

fun edit_before :: "edit \<Rightarrow> bool list" where
  "edit_before (Keep bs) = bs"
| "edit_before (Insert ps) = []"
| "edit_before (Delete bs) = bs"

fun edit_after :: "edit \<Rightarrow> bool list" where
  "edit_after (Keep bs) = bs"
| "edit_after (Insert ps) = concat (map piece_cells ps)"
| "edit_after (Delete bs) = []"

text \<open>The ordinals of the blocks a script adds (in the root after it) and removes (in the
  root before it).\<close>

fun added_blocks :: "edit list \<Rightarrow> nat \<Rightarrow> nat list" where
  "added_blocks [] n = []"
| "added_blocks (e # es) n =
     (case e of Insert _ \<Rightarrow> [n..<n + trues (edit_after e)] | _ \<Rightarrow> []) @ added_blocks es (n + trues (edit_after e))"

fun removed_blocks :: "edit list \<Rightarrow> nat \<Rightarrow> nat list" where
  "removed_blocks [] n = []"
| "removed_blocks (e # es) n =
     (case e of Delete _ \<Rightarrow> [n..<n + trues (edit_before e)] | _ \<Rightarrow> []) @ removed_blocks es (n + trues (edit_before e))"

lemma root_added_eq:
  "root_added after p (new, hits) =
     (new + length (piece_cells p), if snd (child_of p) then hits @ [ordinal after new] else hits)"
  unfolding root_added_def prod.case child_of_units length_piece_cells
  by (auto simp: child_of_block split: out.split)

lemma root_added_fold:
  assumes "cells a = pre @ concat (map piece_cells ps) @ post"
  shows "fold (root_added (children_of a)) ps (length pre, hits)
    = (length pre + length (concat (map piece_cells ps)),
       hits @ [trues pre..<trues pre + trues (concat (map piece_cells ps))])"
  using assms
proof (induction ps arbitrary: pre hits)
  case (Cons p ps)
  have "ordinal (children_of a) (length pre) = trues pre" using Cons.prems by (simp add: ordinal_cells)
  moreover have "trues (piece_cells p) = (if snd (child_of p) then 1 else 0)" by (simp add: piece_cells_def)
  moreover note Cons.IH [of "pre @ piece_cells p"]
  ultimately show ?case
    using Cons.prems by (simp add: root_added_eq add.assoc upt_conv_Cons del: fold_append)
qed simp

text \<open>The two deltas are walked alike.\<close>

lemma text_loop_inserted:
  "text_loop before after (map DInserted ps @ ds) old new hits =
     (let (new', hits') = fold (root_added after) ps (new, hits) in text_loop before after ds old new' hits')"
  by (induction ps arbitrary: new hits) (simp_all add: Let_def split: prod.split)

lemma text_loop_fragment_loop:
  "text_loop before after (concat (map edit_deltas es)) old new hits
    = fragment_loop before after (map edit_change es) old new hits"
proof (induction es arbitrary: old new hits)
  case (Cons e es)
  then show ?case by (cases e) (simp_all add: text_loop_inserted Let_def split: prod.split)
qed simp

lemma fragment_loop_script:
  assumes "cells b = pre_b @ concat (map edit_before es)" and "cells a = pre_a @ concat (map edit_after es)"
  shows "set (fragment_loop (children_of b) (children_of a) (map edit_change es) (length pre_b) (length pre_a) hits)
    = set hits \<union> set (added_blocks es (trues pre_a)) \<union> set (removed_blocks es (trues pre_b))"
  using assms
proof (induction es arbitrary: pre_b pre_a hits)
  case (Cons e es)
  show ?case
  proof (cases e)
    case (Keep bs)
    with Cons.prems Cons.IH [of "pre_b @ bs" "pre_a @ bs" hits] show ?thesis by simp
  next
    case (Insert ps)
    let ?new = "concat (map piece_cells ps)"
    have "fold (root_added (children_of a)) ps (length pre_a, hits)
        = (length (pre_a @ ?new), hits @ [trues pre_a..<trues pre_a + trues ?new])"
      using root_added_fold [of a pre_a ps] Cons.prems(2) Insert by simp
    with Insert Cons.prems Cons.IH [of pre_b "pre_a @ ?new"] show ?thesis by (auto simp: Let_def)
  next
    case (Delete bs)
    have "ordinal (children_of b) (length pre_b) = trues pre_b"
      using Cons.prems(1) by (simp add: ordinal_cells)
    moreover have "blocks_in (children_of b) (length pre_b) (length pre_b + length bs) = trues bs"
      using Cons.prems(1) Delete by (intro blocks_in_cells) simp
    ultimately show ?thesis
      using Delete Cons.prems Cons.IH [of "pre_b @ bs" pre_a] by (auto simp: root_removed_def Let_def)
  qed
qed simp

lemma root_positions_script:
  assumes "cells b = concat (map edit_before es)" and "cells a = concat (map edit_after es)"
  shows "set (root_positions (EXmlFragment (map edit_change es)) (children_of b) (children_of a) hits)
      = set hits \<union> set (added_blocks es 0) \<union> set (removed_blocks es 0)"
    "set (root_positions (EXmlText (concat (map edit_deltas es))) (children_of b) (children_of a) hits)
      = set hits \<union> set (added_blocks es 0) \<union> set (removed_blocks es 0)"
  using fragment_loop_script [of b "[]" es a "[]" hits] assms by (simp_all add: text_loop_fragment_loop)

text \<open>The events below the root, and the answer as a set.\<close>

definition touched_blocks :: "bool list \<Rightarrow> path_segment list \<Rightarrow> nat set" where
  "touched_blocks bs fronts = (\<lambda>i. trues (take i bs)) ` {i. i < length bs \<and> bs ! i \<and> PIndex i \<in> set fronts}"

lemma nested_hits:
  "set (foldl (\<lambda>hits (front, ev).
         case front of
           Some (PIndex i) \<Rightarrow> if is_block (children_of a) i then hits @ [ordinal (children_of a) i] else hits
         | Some _ \<Rightarrow> hits
         | None \<Rightarrow> root_positions ev before (children_of a) hits) hits (map (\<lambda>(p, ev). (Some p, ev)) nested))
    = set hits \<union> touched_blocks (cells a) (map fst nested)"
proof (induction nested arbitrary: hits)
  case (Cons x nested)
  obtain p ev where x: "x = (p, ev)" by (cases x)
  show ?case
  proof (cases p)
    case (PIndex i)
    have "touched_blocks (cells a) (PIndex i # map fst nested)
        = (if is_block (children_of a) i then {ordinal (children_of a) i} else {}) \<union> touched_blocks (cells a) (map fst nested)"
      by (auto simp: touched_blocks_def is_block_cells ordinal_cells)
    then show ?thesis using Cons x PIndex by simp
  next
    case (PKey k)
    then show ?thesis using Cons x by (simp add: touched_blocks_def)
  qed
qed (simp add: touched_blocks_def)

lemma distinct_remdups_sorted: "sorted xs \<Longrightarrow> distinct (remdups_adj xs)"
  by (induction xs rule: remdups_adj.induct) (auto simp: less_le)

lemma sorted_dedup_set: "sorted_dedup hits = sorted_list_of_set (set hits)"
  by (rule sorted_distinct_set_unique) (simp_all add: sorted_dedup_def distinct_remdups_sorted)

end
