(* ===== verification/SyncProps.thy ===== *)
theory SyncProps
  imports ClockModel DocBlocks
begin

text \<open>
  What the sync layer guarantees, each with a run on the clock documents of \<open>ClockModel\<close>:
  the two verdicts on an update are exact, the compacted state has no gap, no local write
  is lost on its way to an edit, the blocks reported for an update are those it touched.
\<close>

text \<open>C4. \<open>update_ready?\<close> is exact: for an update that decodes it returns, and says yes exactly
  when every change the update carries can be integrated over what the document has
  integrated, the document's own pending changes not counted.\<close>

theorem ready_decides:
  assumes "crdt_laws c known carries integ" and "decode_update c bs = Inr u"
  shows "update_ready c None rb bs = Inr (ready_over integ (known (ydoc rb)) (carries u))"
  using update_is_ready_exact [OF assms] by (simp add: update_ready_def nogvl_try_def nogvl_def)

definition clock_doc :: "nat list \<Rightarrow> nat list rb_doc" where
  "clock_doc d = \<lparr>ydoc = d, unsent = []\<rparr>"

lemma clock_decode_update [simp]: "decode_update clock_sync bs = Inr bs"
  by (simp add: clock_sync_def)

theorem ready_decides_witness:
  "update_ready clock_sync None (clock_doc [0, 1, 5]) [2, 3]
    = Inr (ready_over clock_integ (set [0, 1, 5]) (set [2, 3]))"
  using ready_decides [OF clock_crdt_laws, of "[2, 3]" "[2, 3]" "clock_doc [0, 1, 5]"] by (simp add: clock_doc_def)



text \<open>C7. In every interleaving of local commits, remote commits, takes (that succeed, fail or
  are interrupted) and put-backs, what local transactions wrote is exactly what the list,
  the takes in flight and the returned updates hold together.\<close>

theorem unsent_never_loses:
  assumes "merge_carries content mu" and "(unsent_step mu)\<^sup>*\<^sup>* unsent_init st"
  shows "held content st = (\<Union>u \<in> set (written st). content u)"
  using unsent_reachable_inv [OF assms] by (simp add: unsent_inv_def)

definition concat_merge :: "bytes list \<Rightarrow> string + bytes" where
  "concat_merge us = Inr (concat us)"

lemma concat_merge_carries: "merge_carries set concat_merge"
  by (auto simp: merge_carries_def concat_merge_def)

theorem unsent_never_loses_witness:
  "held set (unsent_init\<lparr>pool := [[7]], written := [[7]]\<rparr>) = {7}"
proof -
  have "unsent_step concat_merge unsent_init (unsent_init\<lparr>pool := [[7]], written := [[7]]\<rparr>)"
    using unsent_step.commit [of concat_merge unsent_init "Some ORIGIN" "[7]"]
    by (simp add: unsent_init_def on_commit_def)
  from unsent_never_loses [OF concat_merge_carries r_into_rtranclp [of "unsent_step concat_merge", OF this]] show ?thesis
    by (simp add: unsent_init_def)
qed

text \<open>Merging the unsent updates level by level returns when yrs's merge does, and the
  result carries exactly what the updates carry together.\<close>

theorem merge_unsent_carries:
  assumes "merge_carries content mu" and "\<And>c. \<exists>m. mu c = Inr m" and "us \<noteq> []"
  shows "\<exists>m. merge_unsent mu us = Inr m \<and> content m = (\<Union>u \<in> set us. content u)"
  using merge_unsent_total [of mu us] merge_unsent_content [OF assms(1) _ assms(3)] assms(2) by blast

theorem merge_unsent_carries_witness:
  "\<exists>m. merge_unsent concat_merge (map (\<lambda>n. [n]) [0..<40]) = Inr m \<and> set m = {0..<40}"
  using merge_unsent_carries [OF concat_merge_carries, of "map (\<lambda>n. [n]) [0..<40]"]
  by (auto simp: concat_merge_def)

text \<open>Merging calls yrs with between two and \<open>MERGE_FAN_IN\<close> updates at a time, and never
  with one or none: two merges that agree on such lists give the same result.\<close>

theorem merge_fan_in:
  assumes "\<And>c. 2 \<le> length c \<Longrightarrow> length c \<le> MERGE_FAN_IN \<Longrightarrow> mu c = nu c"
  shows "merge_unsent mu us = merge_unsent nu us"
  using assms by (intro merge_unsent_agree) (simp add: agree_on_chunks_def)

theorem merge_fan_in_witness:
  "merge_unsent concat_merge [[1], [2]]
    = merge_unsent (\<lambda>us. if length us \<le> 16 then concat_merge us else Inl ''too many'') [[1], [2]]"
  by (rule merge_fan_in) (simp add: MERGE_FAN_IN_def)

text \<open>C22. The compacted state is gap-free: it carries exactly what the document has
  integrated, and a fresh document that applies it has nothing pending.\<close>

theorem compacted_is_gap_free:
  assumes laws: "crdt_laws c known carries integ"
  shows "\<exists>bs u d. compacted_state_update c None rb = Inr bs \<and> decode_update c bs = Inr u
    \<and> doc_apply_update c (doc_new c) u = Inr d \<and> known d = integ (known (ydoc rb)) \<and> \<not> has_pending c d"
proof -
  obtain bs u where b: "integrated_update c (ydoc rb) (sv_default c) = Inr bs" "decode_update c bs = Inr u"
    "carries u = integ (known (ydoc rb))"
    using integrated_update_carries [OF laws] by blast
  obtain d where d: "doc_apply_update c (doc_new c) u = Inr d" "known d = carries u"
    using crdt_lawsD(5) [OF laws, of "doc_new c" u] crdt_lawsD(4) [OF laws] by auto
  have "\<not> has_pending c d" using d(2) b(3) by (simp add: crdt_lawsD(3,7) [OF laws])
  with b d show ?thesis by (auto simp: compacted_state_update_def nogvl_try_def nogvl_def)
qed

theorem compacted_is_gap_free_witness:
  "\<exists>bs u d. compacted_state_update clock_sync None (clock_doc [0, 1, 5]) = Inr bs \<and> decode_update clock_sync bs = Inr u
    \<and> doc_apply_update clock_sync (doc_new clock_sync) u = Inr d \<and> set d = clock_integ (set [0, 1, 5])
    \<and> \<not> has_pending clock_sync d"
  using compacted_is_gap_free [OF clock_crdt_laws, of "clock_doc [0, 1, 5]"] by (simp add: clock_doc_def)

text \<open>C23. \<open>apply_update_changes\<close> reports exactly the blocks an update touched: in ascending order and
  once each, the ordinals of the blocks added to the root (in the root as it is now), of those
  removed (in the root as it was) and of those with a change inside, whether yrs reports the change
  of the root as a fragment's, as a text's or not at all when there was none.\<close>

theorem changed_blocks_exact:
  assumes "decode_update c bs = Inr u" and "doc_apply_update c (touch (ydoc rb)) u = Inr d"
    and "cells (root_seq (touch (ydoc rb))) = concat (map edit_before script)"
    and "cells (root_seq d) = concat (map edit_after script)"
    and "txn_events (touch (ydoc rb)) d = root_events @ map (\<lambda>(p, ev). (Some p, ev)) nested"
    and "root_events = [(None, EXmlFragment (map edit_change script))]
      \<or> root_events = [(None, EXmlText (concat (map edit_deltas script)))]
      \<or> root_events = [] \<and> (\<exists>all. script = [Keep all])"
  shows "fst (apply_update_changes c tu touch root_seq txn_events None key rb bs)
    = Inr (sorted_list_of_set (set (added_blocks script 0) \<union> set (removed_blocks script 0)
        \<union> touched_blocks (cells (root_seq d)) (map fst nested)))"
proof -
  let ?b = "children_of (root_seq (touch (ydoc rb)))" let ?a = "children_of (root_seq d)"
  have "set (event_hits ?b ?a root_events) = set (added_blocks script 0) \<union> set (removed_blocks script 0)"
    using assms(6) root_positions_script [OF assms(3,4), of "[]"] by (auto simp: event_hits_def)
  then have "set (event_hits ?b ?a (root_events @ map (\<lambda>(p, ev). (Some p, ev)) nested))
      = set (added_blocks script 0) \<union> set (removed_blocks script 0) \<union> touched_blocks (cells (root_seq d)) (map fst nested)"
    using nested_hits [where a = "root_seq d" and before = ?b and hits = "event_hits ?b ?a root_events" and nested = nested] by (simp add: event_hits_def)
  then show ?thesis
    using assms(1,2,5) by (simp add: apply_update_changes_def Let_def nogvl_try_def nogvl_def sorted_dedup_set)
qed

text \<open>A character and three blocks; the first block goes, one comes in its place behind the next one,
  whose text changes.\<close>

definition block_root :: "nat list \<Rightarrow> diff" where
  "block_root d = [(OAny (AString ''x''), None)] @ replicate 3 (OYXmlText (XmlText [] []), None)"

definition block_events :: "nat list \<Rightarrow> nat list \<Rightarrow> (path_segment option \<times> root_event) list" where
  "block_events d d' =
     [(None, EXmlFragment [Retain 1, Removed 1, Retain 1, Added [OYXmlText (XmlText [] [])], Retain 1]), (Some (PIndex 1), EOther)]"

theorem changed_blocks_exact_witness:
  "fst (apply_update_changes clock_sync (\<lambda>_ _. None) id block_root block_events None 0 (clock_doc [0]) [1]) = Inr [0, 1]"
proof -
  let ?b = "OYXmlText (XmlText [] [])"
  let ?e = "[Keep [False], Delete [True], Keep [True], Insert [?b], Keep [True]]"
  have one: "utf16_count ''x'' = 1"
    by (simp add: utf16_count_def len_utf16_def code_point_def)
  have cells: "cells (block_root d) = [False, True, True, True]" for d
    by (simp add: block_root_def cells_def piece_cells_def child_of_def one numeral_3_eq_3)
  have new: "piece_cells ?b = [True]" by (simp add: piece_cells_def child_of_def)
  have "doc_apply_update clock_sync (id (ydoc (clock_doc [0]))) [1] = Inr [0, 1]" by code_simp
  from changed_blocks_exact [where touch = id and c = clock_sync and rb = "clock_doc [0]" and root_seq = block_root
      and script = ?e and txn_events = block_events and nested = "[(PIndex 1, EOther)]"
      and root_events = "[(None, EXmlFragment (map edit_change ?e))]", OF clock_decode_update this, of "\<lambda>_ _. None" 0]
  have "fst (apply_update_changes clock_sync (\<lambda>_ _. None) id block_root block_events None 0 (clock_doc [0]) [1])
      = Inr (sorted_list_of_set (set (added_blocks ?e 0) \<union> set (removed_blocks ?e 0)
        \<union> touched_blocks [False, True, True, True] [PIndex 1]))"
    by (simp add: cells new block_events_def)
  moreover have "touched_blocks [False, True, True, True] [PIndex 1] = {0}"
    by (auto simp: touched_blocks_def)
  moreover have "added_blocks ?e 0 = [1]" "removed_blocks ?e 0 = [0]" by (simp_all add: new)
  moreover have "sorted_list_of_set (set [1] \<union> set [0] \<union> {0 :: nat}) = [0, 1]" by code_simp
  ultimately show ?thesis by (simp only:)
qed

text \<open>A frame with a message that does not decode is refused as a whole: no update is
  extracted from the messages before it.\<close>

lemma collect_updates_error: "Inl e \<in> set ms \<Longrightarrow> \<exists>e'. collect_updates ms = Inl e'"
  by (induction ms rule: collect_updates.induct) auto

theorem broken_frame_rejected:
  assumes "Inl e \<in> set (read_messages c bs)"
  shows "\<exists>e'. update_from_message c None bs = Inl e'"
  using collect_updates_error [OF assms]
  by (auto simp: update_from_message_def merged_doc_update_def nogvl_try_def nogvl_def)

theorem broken_frame_rejected_witness:
  "\<exists>e. update_from_message clock_sync None [0, 2, 1, 7, 9] = Inl e"
proof (rule broken_frame_rejected)
  show "Inl ''malformed'' \<in> set (read_messages clock_sync [0, 2, 1, 7, 9])" by code_simp
qed

text \<open>Applying a peer's update or answering a peer's frame never adds to the unsent
  updates, whether it succeeds, fails or is interrupted; a local write adds the
  update yrs reports for it.\<close>

theorem remote_leaves_unsent:
  "unsent (snd (apply_update c tu intr rb bs)) = unsent rb
   \<and> unsent (snd (handle_sync_message c tu intr rb bs)) = unsent rb
   \<and> unsent (local_write tu rb d) = unsent rb @ (case tu (ydoc rb) d of Some u \<Rightarrow> [u] | None \<Rightarrow> [])"
  using apply_remote_unsent [of c tu rb bs] handle_closure_unsent [of c tu rb bs]
  by (auto simp: apply_update_def handle_sync_message_def local_write_def commit_txn_def on_commit_def
      split: prod.split option.split)

end
