(* ===== verification/SharedValues.thy ===== *)
theory SharedValues
  imports ReadDoc
begin

text \<open>
  How Ruby values cross into yrs and back (\<open>src/ext/yrby/src/shared.rs\<close>, the values
  section).  A Ruby Hash or Array may contain itself, so Ruby values are a codatatype and
  the conversion terminates by its nesting limit alone, as in the source.  \<open>to_s\<close> is the
  Ruby method of that name, an argument.

  The lemmas: what is written nests at most \<open>MAX_NESTING\<close> levels, a value that contains
  itself is refused, and a plain value read out of a document and written back is the same
  value (whole floats come back as integers).
\<close>

codatatype rvalue =
    RNil
  | RTrue
  | RFalse
  | RHash "(rvalue \<times> rvalue) list"
  | RArray "rvalue list"
  | RInteger int
  | RFloat f64
  | RString string
  | RBinary string
  | RSymbol string
  | RObject nat

text \<open>\<open>RString\<close> is a UTF-8 String, \<open>RBinary\<close> a String in the binary encoding, \<open>RObject\<close> any other
  object.  What \<open>RString::to_string\<close> makes of a binary String is also left to \<open>to_s\<close>: the bytes when
  they are UTF-8, an error otherwise.\<close>

datatype value_error = NestingTooDeep nat | NotUtf8 | IntegerRange | ToSFailed

datatype invalue = IAny any | IMap "(string \<times> invalue) list"

definition MAX_NESTING :: nat where "MAX_NESTING = 100"

definition MAX_SAFE_INTEGER :: int where "MAX_SAFE_INTEGER = 2 ^ 53"

datatype in_value = InAny any | InMap "(string \<times> in_value) list"

fun to_in :: "invalue \<Rightarrow> in_value" where
  "to_in (IAny a) = InAny a"
| "to_in (IMap entries) = InMap (hm_collect (map (\<lambda>(k, v). (k, to_in v)) entries))"

definition to_map_prelim :: "(string \<times> invalue) list \<Rightarrow> (string \<times> in_value) list" where
  "to_map_prelim entries = hm_collect (map (\<lambda>(k, v). (k, to_in v)) entries)"

fun invalue_to_any :: "invalue \<Rightarrow> any" where
  "invalue_to_any (IAny a) = a"
| "invalue_to_any (IMap entries) = AMap (hm_collect (map (\<lambda>(k, v). (k, invalue_to_any v)) entries))"

definition key_to_string :: "(rvalue \<Rightarrow> value_error + string) \<Rightarrow> rvalue \<Rightarrow> value_error + string" where
  "key_to_string to_s v =
     (case v of RString s \<Rightarrow> Inr s | _ \<Rightarrow> to_s v)"

definition to_i64 :: "int \<Rightarrow> value_error + int" where
  "to_i64 i = (if i64_min \<le> i \<and> i \<le> i64_max then Inr i else Inl IntegerRange)"

text \<open>\<open>invalue_at\<close>, with the loops over a Hash and over an Array.\<close>

function invalue_at ::
    "(rvalue \<Rightarrow> value_error + string) \<Rightarrow> rvalue \<Rightarrow> nat \<Rightarrow> value_error + invalue"
  and pairs_at ::
    "(rvalue \<Rightarrow> value_error + string) \<Rightarrow> (rvalue \<times> rvalue) list \<Rightarrow> nat
       \<Rightarrow> value_error + (string \<times> invalue) list"
  and items_at ::
    "(rvalue \<Rightarrow> value_error + string) \<Rightarrow> rvalue list \<Rightarrow> nat \<Rightarrow> value_error + any list" where
  "invalue_at to_s v depth =
     (if depth > MAX_NESTING then Inl (NestingTooDeep depth)
      else case v of
          RNil \<Rightarrow> Inr (IAny ANull)
        | RTrue \<Rightarrow> Inr (IAny (ABool True))
        | RFalse \<Rightarrow> Inr (IAny (ABool False))
        | RHash h \<Rightarrow> bind_sum (pairs_at to_s h (depth + 1)) (\<lambda>ps. Inr (IMap ps))
        | RArray a \<Rightarrow> bind_sum (items_at to_s a (depth + 1)) (\<lambda>xs. Inr (IAny (AArray xs)))
        | RInteger i \<Rightarrow> bind_sum (to_i64 i) (\<lambda>n. Inr (IAny (ANumber (NInt n))))
        | RFloat f \<Rightarrow> Inr (IAny (ANumber (NFloat f)))
        | RString s \<Rightarrow> Inr (IAny (AString s))
        | _ \<Rightarrow> bind_sum (key_to_string to_s v) (\<lambda>s. Inr (IAny (AString s))))"
| "pairs_at to_s [] depth = Inr []"
| "pairs_at to_s ((k, v) # kvs) depth =
     bind_sum (key_to_string to_s k) (\<lambda>key.
     bind_sum (invalue_at to_s v depth) (\<lambda>value.
     bind_sum (pairs_at to_s kvs depth) (\<lambda>rest. Inr ((key, value) # rest))))"
| "items_at to_s [] depth = Inr []"
| "items_at to_s (v # vs) depth =
     bind_sum (invalue_at to_s v depth) (\<lambda>value.
     bind_sum (items_at to_s vs depth) (\<lambda>rest. Inr (invalue_to_any value # rest)))"
  by pat_completeness auto
termination
  by (relation "measures
        [\<lambda>x. case x of
            Inl (_, _, d) \<Rightarrow> 2 * (MAX_NESTING + 2 - d)
          | Inr (Inl (_, _, d)) \<Rightarrow> 2 * (MAX_NESTING + 2 - d) + 1
          | Inr (Inr (_, _, d)) \<Rightarrow> 2 * (MAX_NESTING + 2 - d) + 1,
         \<lambda>x. case x of
            Inl _ \<Rightarrow> 0
          | Inr (Inl (_, kvs, _)) \<Rightarrow> length kvs
          | Inr (Inr (_, vs, _)) \<Rightarrow> length vs]") auto

definition hash_pairs ::
  "(rvalue \<Rightarrow> value_error + string) \<Rightarrow> (rvalue \<times> rvalue) list \<Rightarrow> value_error + (string \<times> invalue) list" where
  "hash_pairs to_s h = pairs_at to_s h 0"

definition ruby_to_invalue ::
  "(rvalue \<Rightarrow> value_error + string) \<Rightarrow> rvalue \<Rightarrow> value_error + invalue" where
  "ruby_to_invalue to_s v = invalue_at to_s v 0"

text \<open>The keys of a hash map are distinct, so each \<open>aset\<close> adds an entry.\<close>

fun any_to_ruby :: "any \<Rightarrow> rvalue" where
  "any_to_ruby ANull = RNil"
| "any_to_ruby AUndefined = RNil"
| "any_to_ruby (ABool b) = (if b then RTrue else RFalse)"
| "any_to_ruby (ANumber (NInt i)) = RInteger i"
| "any_to_ruby (ANumber (NFloat n)) =
     (if f64_whole n \<and> f64_abs_le MAX_SAFE_INTEGER n then RInteger (f64_as_i64 n) else RFloat n)"
| "any_to_ruby (AString s) = RString s"
| "any_to_ruby (ABuffer buf) = RBinary (map char_of buf)"
| "any_to_ruby (AArray items) = RArray (map any_to_ruby items)"
| "any_to_ruby (AMap m) = RHash (map (\<lambda>(k, v). (RString k, any_to_ruby v)) m)"

section \<open>Nesting\<close>

fun any_depth :: "any \<Rightarrow> nat" where
  "any_depth (AArray items) = foldr max (map (\<lambda>a. Suc (any_depth a)) items) 0"
| "any_depth (AMap m) = foldr max (map (\<lambda>(k, a). Suc (any_depth a)) m) 0"
| "any_depth _ = 0"

declare invalue_at.simps [simp del]

lemma foldr_max_le_iff: "foldr max xs 0 \<le> n \<longleftrightarrow> (\<forall>x \<in> set xs. x \<le> (n :: nat))"
  by (induction xs) auto

lemma hm_collect_subset_gen: "set (foldl (\<lambda>hm (k, v). AList.update k v hm) hm kvs) \<subseteq> set hm \<union> set kvs"
proof (induction kvs arbitrary: hm)
  case (Cons kv kvs)
  have "set (AList.update (fst kv) (snd kv) hm) \<subseteq> insert kv (set hm)"
    by (induction hm) auto
  with Cons [of "AList.update (fst kv) (snd kv) hm"] show ?case
    by (auto split: prod.splits)
qed simp

lemma hm_collect_subset: "set (hm_collect kvs) \<subseteq> set kvs"
  using hm_collect_subset_gen [of "[]" kvs] by (simp add: hm_collect_def)

lemma any_depth_collect:
  "\<forall>(k, v) \<in> set kvs. Suc (any_depth v) \<le> n \<Longrightarrow> any_depth (AMap (hm_collect kvs)) \<le> n"
  using hm_collect_subset [of kvs] by (fastforce simp: foldr_max_le_iff)

lemma invalue_at_nesting:
  "invalue_at to_s v depth = Inr i \<Longrightarrow> depth + any_depth (invalue_to_any i) \<le> MAX_NESTING"
  "pairs_at to_s kvs depth = Inr ps \<Longrightarrow>
     \<forall>(k, i) \<in> set ps. depth + any_depth (invalue_to_any i) \<le> MAX_NESTING"
  "items_at to_s vs depth = Inr xs \<Longrightarrow> \<forall>a \<in> set xs. depth + any_depth a \<le> MAX_NESTING"
proof (induction to_s v depth and to_s kvs depth and to_s vs depth arbitrary: i and ps and xs
    rule: invalue_at_pairs_at_items_at.induct)
  case (1 to_s v depth)
  have d: "depth \<le> MAX_NESTING"
    using 1(3) by (simp add: invalue_at.simps [of to_s v] split: if_splits)
  show ?case
  proof (cases v)
    case (RHash h)
    with 1(3) d obtain ps where ps: "pairs_at to_s h (depth + 1) = Inr ps" "i = IMap ps"
      by (auto simp: invalue_at.simps [of to_s "RHash h"] bind_sum_Inr_iff)
    have "\<forall>(k, a) \<in> set (map (\<lambda>(k, v). (k, invalue_to_any v)) ps). Suc (any_depth a) \<le> MAX_NESTING - depth"
      using 1(1) [OF _ RHash ps(1)] d by fastforce
    from any_depth_collect [OF this] ps(2) d show ?thesis by simp
  next
    case (RArray a)
    with 1(3) d obtain xs where xs: "items_at to_s a (depth + 1) = Inr xs" "i = IAny (AArray xs)"
      by (auto simp: invalue_at.simps [of to_s "RArray a"] bind_sum_Inr_iff)
    have "any_depth (AArray xs) \<le> MAX_NESTING - depth"
      using 1(2) [OF _ RArray xs(1)] d by (fastforce simp: foldr_max_le_iff)
    with xs(2) d show ?thesis by simp
  qed (use 1(3) d in \<open>auto simp: invalue_at.simps bind_sum_Inr_iff\<close>)
next
  case (3 to_s k v kvs depth)
  then show ?case by (fastforce simp: bind_sum_Inr_iff)
qed (auto simp: bind_sum_Inr_iff)

text \<open>An Array that contains itself.\<close>

primcorec cyclic_array :: "unit \<Rightarrow> rvalue" where
  "cyclic_array u = RArray (map cyclic_array [u])"

lemma cyclic_array_unfold: "cyclic_array u = RArray [cyclic_array u]"
  by (subst cyclic_array.code) simp

lemma cyclic_array_refused:
  "depth \<le> MAX_NESTING + 1 \<Longrightarrow>
    invalue_at to_s (cyclic_array u) depth = Inl (NestingTooDeep (MAX_NESTING + 1))"
proof (induction "MAX_NESTING + 1 - depth" arbitrary: depth)
  case 0
  then show ?case by (simp add: invalue_at.simps)
next
  case (Suc k)
  have "invalue_at to_s (cyclic_array u) (depth + 1) = Inl (NestingTooDeep (MAX_NESTING + 1))"
    using Suc(2) by (intro Suc(1)) simp_all
  with Suc(2,3) show ?case
    by (subst invalue_at.simps, subst cyclic_array_unfold) simp
qed

section \<open>Out of a document and back\<close>

text \<open>What a value reads back as: \<open>Undefined\<close> is nil, a whole float an integer.\<close>

fun any_norm :: "any \<Rightarrow> any" where
  "any_norm AUndefined = ANull"
| "any_norm (ANumber (NFloat n)) =
     (if f64_whole n \<and> f64_abs_le MAX_SAFE_INTEGER n then ANumber (NInt (f64_as_i64 n))
      else ANumber (NFloat n))"
| "any_norm (AArray items) = AArray (map any_norm items)"
| "any_norm (AMap m) = AMap (map (\<lambda>(k, v). (k, any_norm v)) m)"
| "any_norm a = a"

text \<open>The values a document can hold, buffers apart: an integer is an \<open>i64\<close>, the keys of
  a map are distinct.\<close>

fun any_plain :: "any \<Rightarrow> bool" where
  "any_plain (ABuffer _) = False"
| "any_plain (ANumber (NInt i)) = (i64_min \<le> i \<and> i \<le> i64_max)"
| "any_plain (AArray items) = list_all any_plain items"
| "any_plain (AMap m) = (distinct (map fst m) \<and> list_all (\<lambda>(k, v). any_plain v) m)"
| "any_plain _ = True"

text \<open>What is written for a value that was read: a map is a live map, also inside a map; an array, and
  everything in it, is plain.\<close>

fun written_as :: "any \<Rightarrow> in_value" where
  "written_as (AMap m) = InMap (map (\<lambda>(k, v). (k, written_as v)) m)"
| "written_as a = InAny (any_norm a)"

lemma f64_as_i64_range: "i64_min \<le> f64_as_i64 n \<and> f64_as_i64 n \<le> i64_max"
  by (cases n) (simp_all add: f64_as_i64_def i64_min_def i64_max_def clamp_def)

lemma items_at_map:
  assumes "\<And>a. a \<in> set as \<Longrightarrow> \<exists>i. invalue_at to_s (f a) d = Inr i \<and> invalue_to_any i = g a"
  shows "items_at to_s (map f as) d = Inr (map g as)"
  using assms
proof (induction as)
  case (Cons a as)
  obtain i where "invalue_at to_s (f a) d = Inr i" "invalue_to_any i = g a"
    using Cons.prems [of a] by auto
  with Cons show ?case by simp
qed simp

lemma pairs_at_map:
  assumes "\<And>k a. (k, a) \<in> set m \<Longrightarrow> \<exists>i. invalue_at to_s (f a) d = Inr i \<and> invalue_to_any i = g a \<and> to_in i = h a"
  shows "\<exists>ps. pairs_at to_s (map (\<lambda>(k, a). (RString k, f a)) m) d = Inr ps
    \<and> map (\<lambda>(k, v). (k, invalue_to_any v)) ps = map (\<lambda>(k, a). (k, g a)) m
    \<and> map (\<lambda>(k, v). (k, to_in v)) ps = map (\<lambda>(k, a). (k, h a)) m"
  using assms
proof (induction m)
  case (Cons ka m)
  obtain k a where ka: "ka = (k, a)" by force
  obtain i where i: "invalue_at to_s (f a) d = Inr i" "invalue_to_any i = g a" "to_in i = h a"
    using Cons.prems [of k a] ka by auto
  obtain ps where "pairs_at to_s (map (\<lambda>(k, a). (RString k, f a)) m) d = Inr ps"
    "map (\<lambda>(k, v). (k, invalue_to_any v)) ps = map (\<lambda>(k, a). (k, g a)) m"
    "map (\<lambda>(k, v). (k, to_in v)) ps = map (\<lambda>(k, a). (k, h a)) m"
    using Cons by (metis list.set_intros(2))
  with i ka show ?case by (auto simp: key_to_string_def)
qed simp

lemma any_round_trip:
  "any_plain a \<Longrightarrow> d + any_depth a \<le> MAX_NESTING \<Longrightarrow>
    \<exists>i. invalue_at to_s (any_to_ruby a) d = Inr i \<and> invalue_to_any i = any_norm a \<and> to_in i = written_as a"
proof (induction a arbitrary: d rule: any_norm.induct)
  case (2 n)
  then show ?case
    using f64_as_i64_range [of n] by (auto simp: invalue_at.simps to_i64_def)
next
  case (3 items)
  have "\<exists>i. invalue_at to_s (any_to_ruby a) (d + 1) = Inr i \<and> invalue_to_any i = any_norm a"
    if "a \<in> set items" for a
  proof -
    have "any_plain a" using 3(2) that by (simp add: list_all_iff)
    moreover have "Suc (any_depth a) \<le> any_depth (AArray items)"
      using that foldr_max_le_iff [of "map (\<lambda>a. Suc (any_depth a)) items" "any_depth (AArray items)"] by simp
    then have "d + 1 + any_depth a \<le> MAX_NESTING" using 3(3) by linarith
    ultimately show ?thesis using 3(1) [OF that] by blast
  qed
  from items_at_map [of items, OF this] 3(3) show ?case
    by (subst invalue_at.simps) simp
next
  case (4 m)
  have IH: "\<exists>i. invalue_at to_s (any_to_ruby a) (d + 1) = Inr i \<and> invalue_to_any i = any_norm a \<and> to_in i = written_as a"
    if "(k, a) \<in> set m" for k a
  proof (rule 4(1) [OF that refl])
    show "any_plain a" using 4(2) that by (auto simp: list_all_iff)
    have "Suc (any_depth a) \<le> any_depth (AMap m)"
      using that foldr_max_le_iff [of "map (\<lambda>(k, a). Suc (any_depth a)) m" "any_depth (AMap m)"] by force
    then show "d + 1 + any_depth a \<le> MAX_NESTING" using 4(3) by linarith
  qed
  obtain ps
    where ps: "pairs_at to_s (map (\<lambda>(k, a). (RString k, any_to_ruby a)) m) (d + 1) = Inr ps"
      "map (\<lambda>(k, v). (k, invalue_to_any v)) ps = map (\<lambda>(k, a). (k, any_norm a)) m"
      "map (\<lambda>(k, v). (k, to_in v)) ps = map (\<lambda>(k, a). (k, written_as a)) m"
    using pairs_at_map [of m to_s any_to_ruby "d + 1" any_norm written_as] IH by blast
  have "distinct (map fst (map (\<lambda>(k, a). (k, written_as a)) m))"
    using 4(2) by (simp add: comp_def case_prod_unfold)
  moreover have "distinct (map fst (map (\<lambda>(k, a). (k, any_norm a)) m))"
    using 4(2) by (simp add: comp_def case_prod_unfold)
  ultimately show ?case
    using ps 4(3) by (subst invalue_at.simps) (simp add: hm_collect_distinct)
qed (auto simp: invalue_at.simps to_i64_def)

end
