(* ===== verification/HtmlCore.thy ===== *)
theory HtmlCore
  imports YrsData "HOL-Library.AList"
begin

text \<open>
  The crate \<open>html-core\<close> (\<open>src/ext/yrby/crates/html-core/src/lib.rs\<close>): segmented
  output and the emitter that builds it, the rule language and its parser, attribute
  templates, the observed-types map, and the URL scheme reader.

  The emitter's frames are kept innermost first (the source's vector keeps the innermost
  last).  \<open>panicked\<close> records a failed \<open>expect\<close> or \<open>debug_assert\<close> of the source; that no
  use of the emitter in the renderers sets it is a theorem, not an assumption.
\<close>

section \<open>Segments and the emitter\<close>

datatype segment =
    Html string
  | Deferred (node_type: string) (attrs_json: string) (child_types: "string list")
      (content: "segment list")

record emitter =
  frames :: "segment list list"
  panicked :: bool

definition em_new :: emitter where
  "em_new = \<lparr>frames = [[]], panicked = False\<rparr>"

definition frame_push_str :: "segment list \<Rightarrow> string \<Rightarrow> segment list" where
  "frame_push_str frame s =
     (case rev frame of
        Html l # rest \<Rightarrow> rev rest @ [Html (l @ s)]
      | _ \<Rightarrow> frame @ [Html s])"

definition push_str :: "emitter \<Rightarrow> string \<Rightarrow> emitter" where
  "push_str em s =
     (if s = [] then em
      else case frames em of
        [] \<Rightarrow> em\<lparr>panicked := True\<rparr>
      | frame # outer \<Rightarrow> em\<lparr>frames := frame_push_str frame s # outer\<rparr>)"

text \<open>The character is given by its UTF-8 bytes.\<close>

definition em_push :: "emitter \<Rightarrow> string \<Rightarrow> emitter" where
  "em_push em c = push_str em c"

definition begin_frame :: "emitter \<Rightarrow> emitter" where
  "begin_frame em = em\<lparr>frames := [] # frames em\<rparr>"

definition end_frame :: "emitter \<Rightarrow> segment list \<times> emitter" where
  "end_frame em =
     (let em' = em\<lparr>panicked := (panicked em \<or> \<not> 1 < length (frames em))\<rparr>
      in case frames em of
           [] \<Rightarrow> ([], em')
         | frame # outer \<Rightarrow> (frame, em'\<lparr>frames := outer\<rparr>))"

definition push_segment :: "emitter \<Rightarrow> segment \<Rightarrow> emitter" where
  "push_segment em seg =
     (case frames em of
        [] \<Rightarrow> em\<lparr>panicked := True\<rparr>
      | frame # outer \<Rightarrow> em\<lparr>frames := (frame @ [seg]) # outer\<rparr>)"

fun em_append :: "emitter \<Rightarrow> segment list \<Rightarrow> emitter" where
  "em_append em [] = em"
| "em_append em (Html s # segs) = em_append (push_str em s) segs"
| "em_append em (deferred # segs) = em_append (push_segment em deferred) segs"

definition emit_deferred ::
  "emitter \<Rightarrow> string \<Rightarrow> string \<Rightarrow> string list \<Rightarrow> segment list \<Rightarrow> emitter" where
  "emit_deferred em nt aj ct cont = push_segment em (Deferred nt aj ct cont)"

text \<open>The first component says whether the closing \<open>debug_assert\<close> held and nothing had
  panicked before.\<close>

definition into_segments :: "emitter \<Rightarrow> bool \<times> segment list" where
  "into_segments em =
     (\<not> panicked em \<and> length (frames em) = 1,
      case frames em of [] \<Rightarrow> [] | frame # _ \<Rightarrow> frame)"

datatype flattened = FHtml string | FDeferred "segment list"

fun into_html :: "flattened \<Rightarrow> string option" where
  "into_html (FHtml html) = Some html"
| "into_html (FDeferred _) = None"

fun is_deferred :: "segment \<Rightarrow> bool" where
  "is_deferred (Deferred _ _ _ _) = True"
| "is_deferred (Html _) = False"

fun flatten_step :: "string \<Rightarrow> segment \<Rightarrow> string" where
  "flatten_step out (Html s) = (if out = [] then s else out @ s)"
| "flatten_step out (Deferred _ _ _ _) = out"

definition flatten :: "segment list \<Rightarrow> flattened" where
  "flatten segments =
     (if list_ex is_deferred segments then FDeferred segments
      else FHtml (foldl flatten_step [] segments))"

section \<open>Attribute templates\<close>

datatype attr_part = Lit string | Ref string

fun resolve_out :: "attr_part list \<Rightarrow> (string \<Rightarrow> string option) \<Rightarrow> string" where
  "resolve_out [] look = []"
| "resolve_out (Lit s # parts) look = s @ resolve_out parts look"
| "resolve_out (Ref name # parts) look =
     (case look name of Some v \<Rightarrow> v | None \<Rightarrow> []) @ resolve_out parts look"

definition resolve_parts :: "attr_part list \<Rightarrow> (string \<Rightarrow> string option) \<Rightarrow> string option" where
  "resolve_parts parts look =
     (let out = resolve_out parts look in if out = [] then None else Some out)"

fun any_attr_string :: "yrs \<Rightarrow> any \<Rightarrow> string option" where
  "any_attr_string y (AString s) = Some s"
| "any_attr_string y (ANumber (NInt n)) = Some (string_of_int n)"
| "any_attr_string y (ANumber (NFloat n)) =
     Some (if f64_whole n then string_of_int (f64_as_i64 n) else fmt_f64 y n)"
| "any_attr_string y (ABool b) = Some (if b then ''true'' else ''false'')"
| "any_attr_string y _ = None"

definition ref_value :: "yrs \<Rightarrow> out option \<Rightarrow> string option" where
  "ref_value y out = (case out of Some (OAny any) \<Rightarrow> any_attr_string y any | _ \<Rightarrow> None)"

definition xml_ref_attr :: "yrs \<Rightarrow> attr_list \<Rightarrow> string \<Rightarrow> string option" where
  "xml_ref_attr y node name =
     (case ref_value y (get_attribute node name) of
        Some v \<Rightarrow> Some v
      | None \<Rightarrow> ref_value y (get_attribute node (''__'' @ name)))"

text \<open>The state of the loop is the output so far and whether no entry was written yet.\<close>

fun attrs_json_loop :: "yrs \<Rightarrow> attr_list \<Rightarrow> string \<Rightarrow> bool \<Rightarrow> string" where
  "attrs_json_loop y [] out fst_entry = out"
| "attrs_json_loop y ((key, value) # rest) out fst_entry =
     (case value of
        OAny any \<Rightarrow>
          attrs_json_loop y rest
            (out @ (if fst_entry then [] else '','') @ json_string y key @ '':'' @ any_to_json y any)
            False
      | _ \<Rightarrow> attrs_json_loop y rest out fst_entry)"

definition xml_attrs_json :: "yrs \<Rightarrow> attr_list \<Rightarrow> string" where
  "xml_attrs_json y attrs = attrs_json_loop y attrs ''{'' True @ ''}''"

section \<open>Rules\<close>

datatype content_kind = Blocks | Inline | NoContent

type_synonym template = "attr_part list"

datatype node_rule =
    Declarative (rule_tag: string) (rule_void: bool) (rule_attrs: "(string \<times> template) list")
      (rule_text: "template option") (rule_content: content_kind)
  | Callback (rule_content: content_kind)

record mark_rule =
  mark_tag :: string
  mark_attrs :: "(string \<times> template) list"

record rules =
  nodes :: "(string \<times> node_rule) list"
  marks :: "(string \<times> mark_rule) list"

definition rules_empty :: rules where
  "rules_empty = \<lparr>nodes = [], marks = []\<rparr>"

text \<open>\<open>serde_json::Value\<close>; an object is in iteration order.\<close>

datatype json_number = JInt int | JFloat f64

datatype json =
    JNull
  | JBool bool
  | JNumber json_number
  | JString string
  | JArray "json list"
  | JObject "(string \<times> json) list"

fun json_get :: "json \<Rightarrow> string \<Rightarrow> json option" where
  "json_get (JObject kvs) k = map_of kvs k"
| "json_get _ k = None"

fun json_index :: "json \<Rightarrow> nat \<Rightarrow> json option" where
  "json_index (JArray xs) i = (if i < length xs then Some (xs ! i) else None)"
| "json_index _ i = None"

fun as_str :: "json \<Rightarrow> string option" where
  "as_str (JString s) = Some s"
| "as_str _ = None"

fun as_bool :: "json \<Rightarrow> bool option" where
  "as_bool (JBool b) = Some b"
| "as_bool _ = None"

fun as_object :: "json \<Rightarrow> (string \<times> json) list option" where
  "as_object (JObject kvs) = Some kvs"
| "as_object _ = None"

text \<open>The parser's errors, one constructor per message of the source.\<close>

datatype rule_error =
    InvalidRulesJson string
  | UnknownContent string string
  | NeedsTagOrCallback string
  | MarkNeedsTag string
  | TextMustBeTemplate string
  | AttrsMustBePairs string
  | MalformedAttrsEntry string
  | PartMustBeLitOrRef string

definition parse_part :: "string \<Rightarrow> json \<Rightarrow> rule_error + attr_part" where
  "parse_part name part =
     (case Option.bind (json_get part ''lit'') as_str of
        Some lit \<Rightarrow> Inr (Lit lit)
      | None \<Rightarrow>
          (case Option.bind (json_get part ''ref'') as_str of
             Some r \<Rightarrow> Inr (Ref r)
           | None \<Rightarrow> Inl (PartMustBeLitOrRef name)))"

text \<open>\<open>collect\<close> into a \<open>Result\<close>: the first error wins.\<close>

fun parse_parts :: "string \<Rightarrow> json list \<Rightarrow> rule_error + template" where
  "parse_parts name [] = Inr []"
| "parse_parts name (part # parts) =
     (case parse_part name part of
        Inl e \<Rightarrow> Inl e
      | Inr p \<Rightarrow> map_sum id ((#) p) (parse_parts name parts))"

fun parse_attr_entries ::
  "string \<Rightarrow> json list \<Rightarrow> (string \<times> template) list \<Rightarrow> rule_error + (string \<times> template) list" where
  "parse_attr_entries name [] out = Inr out"
| "parse_attr_entries name (entry # entries) out =
     (case (Option.bind (json_index entry 0) as_str, json_index entry 1) of
        (Some attr_name, Some (JArray parts)) \<Rightarrow>
          (case parse_parts name parts of
             Inl e \<Rightarrow> Inl e
           | Inr ps \<Rightarrow> parse_attr_entries name entries (out @ [(attr_name, ps)]))
      | _ \<Rightarrow> Inl (MalformedAttrsEntry name))"

definition parse_attrs ::
  "string \<Rightarrow> json option \<Rightarrow> rule_error + (string \<times> template) list" where
  "parse_attrs name attrs =
     (case attrs of
        None \<Rightarrow> Inr []
      | Some JNull \<Rightarrow> Inr []
      | Some (JArray entries) \<Rightarrow> parse_attr_entries name entries []
      | Some _ \<Rightarrow> Inl (AttrsMustBePairs name))"

definition parse_content :: "string \<Rightarrow> json \<Rightarrow> rule_error + content_kind" where
  "parse_content name spec =
     (case Option.bind (json_get spec ''content'') as_str of
        None \<Rightarrow> Inr Inline
      | Some k \<Rightarrow>
          if k = ''blocks'' then Inr Blocks
          else if k = ''inline'' then Inr Inline
          else if k = ''none'' then Inr NoContent
          else Inl (UnknownContent name k))"

definition parse_text :: "string \<Rightarrow> json option \<Rightarrow> rule_error + template option" where
  "parse_text name text =
     (case text of
        Some (JArray parts) \<Rightarrow> map_sum id Some (parse_parts name parts)
      | Some JNull \<Rightarrow> Inr None
      | None \<Rightarrow> Inr None
      | Some _ \<Rightarrow> Inl (TextMustBeTemplate name))"

definition json_flag :: "json \<Rightarrow> string \<Rightarrow> bool" where
  "json_flag spec k =
     (case Option.bind (json_get spec k) as_bool of Some b \<Rightarrow> b | None \<Rightarrow> False)"

definition parse_node_rule :: "string \<Rightarrow> json \<Rightarrow> rule_error + node_rule" where
  "parse_node_rule name spec =
     (case parse_content name spec of
        Inl e \<Rightarrow> Inl e
      | Inr cont \<Rightarrow>
          if json_flag spec ''callback'' then Inr (Callback cont)
          else (case Option.bind (json_get spec ''tag'') as_str of
             None \<Rightarrow> Inl (NeedsTagOrCallback name)
           | Some t \<Rightarrow>
               (case parse_attrs name (json_get spec ''attrs'') of
                  Inl e \<Rightarrow> Inl e
                | Inr as \<Rightarrow>
                    (case parse_text name (json_get spec ''text'') of
                       Inl e \<Rightarrow> Inl e
                     | Inr tx \<Rightarrow> Inr (Declarative t (json_flag spec ''void'') as tx cont)))))"

definition parse_mark_rule :: "string \<Rightarrow> json \<Rightarrow> rule_error + mark_rule" where
  "parse_mark_rule name spec =
     (case Option.bind (json_get spec ''tag'') as_str of
        None \<Rightarrow> Inl (MarkNeedsTag name)
      | Some t \<Rightarrow>
          (case parse_attrs name (json_get spec ''attrs'') of
             Inl e \<Rightarrow> Inl e
           | Inr as \<Rightarrow> Inr \<lparr>mark_tag = t, mark_attrs = as\<rparr>))"

text \<open>The two loops of \<open>Rules::parse\<close>: insert each parsed rule, stop at the first error.\<close>

fun parse_entries ::
  "(string \<Rightarrow> json \<Rightarrow> rule_error + 'r) \<Rightarrow> (string \<times> json) list \<Rightarrow> (string \<times> 'r) list
     \<Rightarrow> rule_error + (string \<times> 'r) list" where
  "parse_entries parse [] acc = Inr acc"
| "parse_entries parse ((name, spec) # rest) acc =
     (case parse name spec of
        Inl e \<Rightarrow> Inl e
      | Inr r \<Rightarrow> parse_entries parse rest (AList.update name r acc))"

definition object_entries :: "json \<Rightarrow> string \<Rightarrow> (string \<times> json) list" where
  "object_entries root k =
     (case Option.bind (json_get root k) as_object of Some kvs \<Rightarrow> kvs | None \<Rightarrow> [])"

definition rules_of_json :: "json \<Rightarrow> rule_error + rules" where
  "rules_of_json root =
     (case parse_entries parse_node_rule (object_entries root ''nodes'') [] of
        Inl e \<Rightarrow> Inl e
      | Inr ns \<Rightarrow>
          (case parse_entries parse_mark_rule (object_entries root ''marks'') [] of
             Inl e \<Rightarrow> Inl e
           | Inr ms \<Rightarrow> Inr \<lparr>nodes = ns, marks = ms\<rparr>))"

text \<open>\<open>from_str\<close> is serde's parser.\<close>

definition rules_parse ::
  "(string \<Rightarrow> string + json) \<Rightarrow> string \<Rightarrow> rule_error + rules" where
  "rules_parse from_str text =
     (case from_str text of
        Inl e \<Rightarrow> Inl (InvalidRulesJson e)
      | Inr root \<Rightarrow> rules_of_json root)"

section \<open>Observed node types\<close>

record type_info =
  ti_count :: nat
  ti_attrs :: "string list"
  ti_children :: "string list"
  ti_text :: bool

definition type_info_default :: type_info where
  "type_info_default = \<lparr>ti_count = 0, ti_attrs = [], ti_children = [], ti_text = False\<rparr>"

text \<open>A \<open>BTreeMap\<close> is an association list with strictly increasing keys, a \<open>BTreeSet\<close> a
  strictly increasing list.\<close>

type_synonym type_map = "(string \<times> type_info) list"

text \<open>\<open>map.entry(ty).or_default()\<close> followed by an update of the entry.\<close>

fun entry_or_default :: "string \<Rightarrow> (type_info \<Rightarrow> type_info) \<Rightarrow> type_map \<Rightarrow> type_map" where
  "entry_or_default ty f [] = [(ty, f type_info_default)]"
| "entry_or_default ty f ((k, info) # rest) =
     (if ty < k then (ty, f type_info_default) # (k, info) # rest
      else if ty = k then (k, f info) # rest
      else (k, info) # entry_or_default ty f rest)"

definition set_insert :: "string \<Rightarrow> string list \<Rightarrow> string list" where
  "set_insert x xs = insort_insert x xs"

text \<open>The updates of an entry both renderers' walks make.\<close>

definition count_type :: "(string \<Rightarrow> bool) \<Rightarrow> attr_list \<Rightarrow> type_info \<Rightarrow> type_info" where
  "count_type keep attrs info =
     info\<lparr>ti_count := ti_count info + 1,
          ti_attrs := foldl (\<lambda>s (key, _). if keep key then set_insert key s else s)
            (ti_attrs info) attrs\<rparr>"

definition note_text :: "type_info \<Rightarrow> type_info" where
  "note_text info = info\<lparr>ti_text := True\<rparr>"

definition note_child :: "string \<Rightarrow> type_info \<Rightarrow> type_info" where
  "note_child c info = info\<lparr>ti_children := set_insert c (ti_children info)\<rparr>"

definition type_entry_json :: "(string \<Rightarrow> string option) \<Rightarrow> string \<Rightarrow> type_info \<Rightarrow> json" where
  "type_entry_json handled ty info =
     JObject
       (AList.update ''handled'' (case handled ty of Some by \<Rightarrow> JString by | None \<Rightarrow> JNull)
       (AList.update ''text'' (JBool (ti_text info))
       (AList.update ''children'' (JArray (map JString (ti_children info)))
       (AList.update ''attrs'' (JArray (map JString (ti_attrs info)))
       (AList.update ''count'' (JNumber (JInt (int (ti_count info)))) [])))))"

text \<open>The object before \<open>to_string\<close>, whose order is serde's business.\<close>

definition type_map_json :: "type_map \<Rightarrow> (string \<Rightarrow> string option) \<Rightarrow> json" where
  "type_map_json m handled =
     JObject (foldl (\<lambda>root (ty, info). AList.update ty (type_entry_json handled ty info) root) [] m)"

section \<open>URL schemes\<close>

definition char_is :: "(char \<Rightarrow> bool) \<Rightarrow> string \<Rightarrow> bool" where
  "char_is p c = (case c of [b] \<Rightarrow> p b | _ \<Rightarrow> False)"

definition strip_blank :: "string \<Rightarrow> string" where
  "strip_blank url = concat (filter (\<lambda>c. \<not> is_whitespace c \<and> \<not> is_control c) (chars url))"

definition url_scheme :: "string \<Rightarrow> string option" where
  "url_scheme url =
     (case split_once (CHR '':'') (strip_blank url) of
        None \<Rightarrow> None
      | Some (scheme, _) \<Rightarrow>
          let starts_with_letter =
                (case chars scheme of [] \<Rightarrow> False | c # _ \<Rightarrow> char_is is_ascii_alphabetic c);
              valid = list_all
                (\<lambda>c. char_is is_ascii_alphanumeric c \<or> c = ''+'' \<or> c = ''.'' \<or> c = ''-'')
                (tl (chars scheme))
          in if starts_with_letter \<and> valid then Some (to_ascii_lowercase scheme) else None)"

end
