(* ===== verification/Markup.thy ===== *)
theory Markup
  imports HtmlCore
begin

text \<open>
  What the renderers promise about their output, stated on an abstract view of it.
  \<open>seg_items\<close> reads a segment list as a sequence of characters and deferred nodes, so
  that where the emitter cut its strings no longer shows.  \<open>markup\<close> is the grammar of
  well-formed output over a vocabulary of tags, void tags, attribute names and deferred node types.
  \<open>emits em xs em'\<close> says that going from \<open>em\<close> to \<open>em'\<close> wrote exactly \<open>xs\<close> to the
  innermost frame, left the outer frames alone and kept the merge invariant.

  The locale \<open>sink\<close> is the interface of the emitter as its clients use it; it is
  interpreted on the emitter of \<open>HtmlCore\<close>, and the renderers' proofs rest on its facts.
\<close>

named_theorems emit_intros \<open>introduction rules for what an emitter operation writes\<close>

section \<open>Output as a sequence of items\<close>

datatype item = Ch char | Def string string "string list" "item list"

abbreviation chs :: "string \<Rightarrow> item list" where
  "chs s \<equiv> map Ch s"

fun seg_item :: "segment \<Rightarrow> item list" where
  "seg_item (Html s) = chs s"
| "seg_item (Deferred nt aj ct cont) = [Def nt aj ct (concat (map seg_item cont))]"

definition seg_items :: "segment list \<Rightarrow> item list" where
  "seg_items segs = concat (map seg_item segs)"

text \<open>The merge invariant of a frame: no empty and no two adjacent \<open>Html\<close> segments, at
  every depth.\<close>

fun is_html :: "segment \<Rightarrow> bool" where
  "is_html (Html _) = True"
| "is_html (Deferred _ _ _ _) = False"

fun alternating :: "segment list \<Rightarrow> bool" where
  "alternating [] = True"
| "alternating [x] = True"
| "alternating (x # y # zs) = (\<not> (is_html x \<and> is_html y) \<and> alternating (y # zs))"

fun seg_ok :: "segment \<Rightarrow> bool" where
  "seg_ok (Html s) = (s \<noteq> [])"
| "seg_ok (Deferred nt aj ct cont) = (alternating cont \<and> list_all seg_ok cont)"

definition frame_ok :: "segment list \<Rightarrow> bool" where
  "frame_ok f \<longleftrightarrow> alternating f \<and> list_all seg_ok f"

definition em_ok :: "emitter \<Rightarrow> bool" where
  "em_ok em \<longleftrightarrow> \<not> panicked em \<and> frames em \<noteq> [] \<and> list_all frame_ok (frames em)"

definition emits :: "emitter \<Rightarrow> item list \<Rightarrow> emitter \<Rightarrow> bool" where
  "emits em xs em' \<longleftrightarrow> em_ok em' \<and>
     (\<exists>f f' outer. frames em = f # outer \<and> frames em' = f' # outer
        \<and> seg_items f' = seg_items f @ xs)"

section \<open>The grammar of well-formed output\<close>

text \<open>Escaping as a single pass over the characters; the crates' chained replacements are
  proved equal to it.\<close>

definition esc_text_char :: "char \<Rightarrow> string" where
  "esc_text_char c =
     (if c = CHR ''&'' then ''&amp;'' else if c = CHR ''<'' then ''&lt;''
      else if c = CHR ''>'' then ''&gt;'' else [c])"

definition esc_attr_char :: "char \<Rightarrow> string" where
  "esc_attr_char c = (if c = CHR 0x22 then ''&quot;'' else esc_text_char c)"

definition esc_text :: "string \<Rightarrow> string" where
  "esc_text s = concat (map esc_text_char s)"

definition esc_attr :: "string \<Rightarrow> string" where
  "esc_attr s = concat (map esc_attr_char s)"

definition attr_str :: "string \<times> string \<Rightarrow> string" where
  "attr_str nv = '' '' @ fst nv @ ''='' @ [CHR 0x22] @ esc_attr (snd nv) @ [CHR 0x22]"

definition open_tag :: "string \<Rightarrow> (string \<times> string) list \<Rightarrow> string" where
  "open_tag t as = ''<'' @ t @ concat (map attr_str as) @ ''>''"

definition close_tag :: "string \<Rightarrow> string" where
  "close_tag t = ''</'' @ t @ ''>''"

record vocab =
  v_tags :: "string set"
  v_voids :: "string set"
  v_attrs :: "string set"
  v_deferred :: "string set"

inductive markup :: "vocab \<Rightarrow> item list \<Rightarrow> bool" for voc where
  m_empty: "markup voc []"
| m_text: "markup voc (chs (esc_text s))"
| m_void: "t \<in> v_voids voc \<Longrightarrow> fst ` set as \<subseteq> v_attrs voc \<Longrightarrow> markup voc (chs (open_tag t as))"
| m_element: "t \<in> v_tags voc \<Longrightarrow> fst ` set as \<subseteq> v_attrs voc \<Longrightarrow> markup voc xs \<Longrightarrow>
     markup voc (chs (open_tag t as) @ xs @ chs (close_tag t))"
| m_deferred: "nt \<in> v_deferred voc \<Longrightarrow> markup voc xs \<Longrightarrow> markup voc [Def nt aj ct xs]"
| m_append: "markup voc xs \<Longrightarrow> markup voc ys \<Longrightarrow> markup voc (xs @ ys)"

text \<open>\<open>wraps voc a b\<close>: writing \<open>a\<close> before and \<open>b\<close> after well-formed output keeps it
  well-formed.\<close>

definition wraps :: "vocab \<Rightarrow> string \<Rightarrow> string \<Rightarrow> bool" where
  "wraps voc a b \<longleftrightarrow> (\<forall>xs. markup voc xs \<longrightarrow> markup voc (chs a @ xs @ chs b))"

lemma wraps_tag: "t \<in> v_tags voc \<Longrightarrow> fst ` set as \<subseteq> v_attrs voc \<Longrightarrow> wraps voc (open_tag t as) (close_tag t)"
  by (simp add: wraps_def markup.m_element)

lemma wraps_nothing: "wraps voc [] []"
  by (simp add: wraps_def)

lemma wraps_nested: "wraps voc a b \<Longrightarrow> wraps voc c d \<Longrightarrow> wraps voc (a @ c) (d @ b)"
  unfolding wraps_def by (metis append_assoc map_append)

lemma wraps_bare: "t \<in> v_tags voc \<Longrightarrow> wraps voc (''<'' @ t @ ''>'') (''</'' @ t @ ''>'')"
  using wraps_tag [of t voc "[]"] by (simp add: open_tag_def close_tag_def)

section \<open>Escaped strings\<close>

lemma esc_simps [simp]:
  "esc_text [] = []" "esc_text (c # s) = esc_text_char c @ esc_text s"
  "esc_attr [] = []" "esc_attr (c # s) = esc_attr_char c @ esc_attr s"
  by (simp_all add: esc_text_def esc_attr_def)

lemma esc_append:
  "esc_text (s @ t) = esc_text s @ esc_text t"
  "esc_attr (s @ t) = esc_attr s @ esc_attr t"
  by (simp_all add: esc_text_def esc_attr_def)

definition needs_no_escape :: "string \<Rightarrow> bool" where
  "needs_no_escape s \<longleftrightarrow> set s \<inter> set (''&<>'' @ dquote) = {}"

lemma esc_attr_plain: "needs_no_escape s \<Longrightarrow> esc_attr s = s"
  by (induction s) (auto simp: needs_no_escape_def esc_attr_char_def esc_text_char_def)

lemma digit_char_mem: "d < 10 \<Longrightarrow> digit_char d \<in> set ''0123456789''"
proof -
  have "list_all (\<lambda>d. digit_char d \<in> set ''0123456789'') [0..<10]" by code_simp
  then show "d < 10 \<Longrightarrow> digit_char d \<in> set ''0123456789''" by (auto simp: list_all_iff)
qed

lemma set_string_of_nat: "set (string_of_nat n) \<subseteq> set ''0123456789''"
proof (induction n rule: string_of_nat.induct)
  case (1 n)
  then show ?case
    using digit_char_mem [of n] digit_char_mem [of "n mod 10"]
    by (subst string_of_nat.simps) (auto split: if_splits)
qed

lemma string_of_int_plain: "needs_no_escape (string_of_int i)"
  using set_string_of_nat [of "nat i"] set_string_of_nat [of "nat (- i)"]
  by (auto simp: needs_no_escape_def string_of_int_def)

lemma esc_attr_int [simp]: "esc_attr (string_of_int i) = string_of_int i"
  by (rule esc_attr_plain [OF string_of_int_plain])

section \<open>Lemmas on segments and frames\<close>

lemma seg_items_simps [simp]:
  "seg_items [] = []"
  "seg_items (x # xs) = seg_item x @ seg_items xs"
  "seg_items (xs @ ys) = seg_items xs @ seg_items ys"
  by (simp_all add: seg_items_def)

lemma seg_item_Deferred [simp]: "seg_item (Deferred nt aj ct cont) = [Def nt aj ct (seg_items cont)]"
  by (simp add: seg_items_def)

declare seg_item.simps(2) [simp del]

lemma frame_ok_Nil [simp]: "frame_ok []"
  by (simp add: frame_ok_def)

lemma frame_ok_Deferred [simp]: "seg_ok (Deferred nt aj ct cont) \<longleftrightarrow> frame_ok cont"
  by (simp add: frame_ok_def)

declare seg_ok.simps(2) [simp del]

lemma alternating_append:
  "alternating (xs @ ys) \<longleftrightarrow> alternating xs \<and> alternating ys
     \<and> (xs = [] \<or> ys = [] \<or> \<not> (is_html (last xs) \<and> is_html (hd ys)))"
proof (induction xs rule: alternating.induct)
  case (2 x)
  then show ?case by (cases ys) auto
qed auto

lemma frame_ok_append:
  "frame_ok (xs @ ys) \<longleftrightarrow> frame_ok xs \<and> frame_ok ys
     \<and> (xs = [] \<or> ys = [] \<or> \<not> (is_html (last xs) \<and> is_html (hd ys)))"
  by (auto simp: frame_ok_def alternating_append)

lemma frame_ok_single [simp]: "frame_ok [x] \<longleftrightarrow> seg_ok x"
  by (simp add: frame_ok_def)

lemma frame_ok_Cons: "frame_ok (x # xs) \<longleftrightarrow>
    seg_ok x \<and> frame_ok xs \<and> (xs = [] \<or> \<not> (is_html x \<and> is_html (hd xs)))"
  using frame_ok_append [of "[x]" xs] by simp

lemma seg_ok_items_nonempty: "seg_ok x \<Longrightarrow> seg_item x \<noteq> []"
  by (cases x) auto

lemma frame_ok_empty_iff: "frame_ok f \<Longrightarrow> seg_items f = [] \<longleftrightarrow> f = []"
  by (cases f) (auto simp: frame_ok_Cons seg_ok_items_nonempty)

lemma is_html_iff: "is_html x \<longleftrightarrow> (\<exists>s. x = Html s)"
  by (cases x) auto

lemma frame_push_str_html: "frame_push_str (f @ [Html l]) s = f @ [Html (l @ s)]"
  by (simp add: frame_push_str_def)

lemma frame_push_str_other: "f = [] \<or> \<not> is_html (last f) \<Longrightarrow> frame_push_str f s = f @ [Html s]"
  by (cases f rule: rev_cases) (auto simp: frame_push_str_def is_html_iff split: segment.splits)

lemma frame_push_str_ok:
  assumes "frame_ok f" and "s \<noteq> []"
  shows "frame_ok (frame_push_str f s) \<and> seg_items (frame_push_str f s) = seg_items f @ chs s"
proof (cases "f \<noteq> [] \<and> is_html (last f)")
  case True
  then obtain g l where f: "f = g @ [Html l]"
    by (metis append_butlast_last_id is_html_iff)
  with assms show ?thesis
    by (auto simp: frame_push_str_html frame_ok_append)
next
  case False
  with assms show ?thesis
    by (auto simp: frame_push_str_other frame_ok_append)
qed

section \<open>What the emitter's operations write\<close>

lemma em_okD: "em_ok em \<Longrightarrow> \<exists>f outer. frames em = f # outer \<and> frame_ok f \<and> list_all frame_ok outer"
  by (cases "frames em") (auto simp: em_ok_def)

lemma emits_em_ok: "emits em xs em' \<Longrightarrow> em_ok em'"
  by (simp add: emits_def)

lemma emits_refl: "em_ok em \<Longrightarrow> emits em [] em"
  by (auto simp: emits_def dest: em_okD)

lemma emits_trans: "emits em xs em1 \<Longrightarrow> emits em1 ys em2 \<Longrightarrow> emits em (xs @ ys) em2"
  by (fastforce simp: emits_def)

lemma emits_push_str: "em_ok em \<Longrightarrow> emits em (chs s) (push_str em s)"
proof -
  assume ok: "em_ok em"
  then obtain f outer where f: "frames em = f # outer" "frame_ok f" "list_all frame_ok outer"
    using em_okD by blast
  show ?thesis
  proof (cases "s = []")
    case True
    with ok show ?thesis by (simp add: push_str_def emits_refl)
  next
    case False
    with ok f frame_push_str_ok [OF f(2) False] show ?thesis
      by (auto simp: push_str_def emits_def em_ok_def)
  qed
qed

lemma emits_push_segment:
  assumes "em_ok em" and "seg_ok (Deferred nt aj ct c)"
  shows "emits em (seg_item (Deferred nt aj ct c)) (push_segment em (Deferred nt aj ct c))"
proof -
  obtain f outer where f: "frames em = f # outer" "frame_ok f" "list_all frame_ok outer"
    using em_okD [OF assms(1)] by blast
  with assms show ?thesis
    by (auto simp: push_segment_def emits_def em_ok_def frame_ok_append)
qed

lemma emits_deferred:
  "em_ok em \<Longrightarrow> frame_ok c \<Longrightarrow> emits em [Def nt aj ct (seg_items c)] (emit_deferred em nt aj ct c)"
  using emits_push_segment [of em nt aj ct c] by (simp add: emit_deferred_def)

lemma emits_append: "em_ok em \<Longrightarrow> frame_ok c \<Longrightarrow> emits em (seg_items c) (em_append em c)"
proof (induction em c rule: em_append.induct)
  case (1 em)
  then show ?case by (simp add: emits_refl)
next
  case (2 em s segs)
  have s: "emits em (chs s) (push_str em s)" using 2 by (simp add: emits_push_str)
  have "emits (push_str em s) (seg_items segs) (em_append (push_str em s) segs)"
    using 2 s by (simp add: frame_ok_Cons emits_em_ok)
  from emits_trans [OF s this] show ?case by simp
next
  case (3 em nt aj ct cont segs)
  let ?d = "Deferred nt aj ct cont"
  have d: "emits em (seg_item ?d) (push_segment em ?d)"
    using 3 by (intro emits_push_segment) (simp_all add: frame_ok_Cons)
  have "emits (push_segment em ?d) (seg_items segs) (em_append (push_segment em ?d) segs)"
    using 3 d by (simp add: frame_ok_Cons emits_em_ok)
  from emits_trans [OF d this] show ?case by simp
qed

lemma emits_pushes:
  "em_ok em \<Longrightarrow> emits em (chs (concat (map g ps))) (foldl (\<lambda>em p. push_str em (g p)) em ps)"
proof (induction ps arbitrary: em)
  case (Cons p ps)
  from emits_push_str [OF Cons.prems] have p: "emits em (chs (g p)) (push_str em (g p))" .
  from emits_trans [OF p Cons.IH [OF emits_em_ok [OF p]]] show ?case by simp
qed (simp add: emits_refl)

lemma emits_puts: "em_ok em \<Longrightarrow> emits em (chs (concat ss)) (foldl push_str em ss)"
  using emits_pushes [of em id ss] by simp

lemma em_ok_begin_frame: "em_ok em \<Longrightarrow> em_ok (begin_frame em)"
  by (simp add: em_ok_def begin_frame_def)

lemma emits_capture:
  assumes "em_ok em" and "emits (begin_frame em) xs em1"
  shows "\<exists>c. end_frame em1 = (c, em) \<and> seg_items c = xs \<and> frame_ok c"
proof -
  obtain f' where f': "frames em1 = f' # frames em" "seg_items f' = xs"
    using assms(2) by (auto simp: emits_def begin_frame_def)
  have ok: "\<not> panicked em1" "frame_ok f'" "frames em \<noteq> []" "\<not> panicked em"
    using assms f'(1) by (auto simp: emits_def em_ok_def)
  have "end_frame em1 = (f', em)"
    using f'(1) ok by (cases em) (simp add: end_frame_def)
  with f' ok show ?thesis by blast
qed

lemma emits_em_new: "em_ok em_new"
  by (simp add: em_ok_def em_new_def)

lemma into_segments_emits:
  assumes "emits em_new xs em"
  shows "\<exists>segs. into_segments em = (True, segs) \<and> seg_items segs = xs \<and> frame_ok segs"
  using assms by (auto simp: emits_def em_ok_def em_new_def into_segments_def)

section \<open>The emitter's interface\<close>

locale sink =
  fixes ok :: "'e \<Rightarrow> bool"
    and wrote :: "'e \<Rightarrow> item list \<Rightarrow> 'e \<Rightarrow> bool"
    and put :: "'e \<Rightarrow> string \<Rightarrow> 'e"
    and capture :: "'e \<Rightarrow> 'e"
    and release :: "'e \<Rightarrow> 'c \<times> 'e"
    and splice :: "'e \<Rightarrow> 'c \<Rightarrow> 'e"
    and postpone :: "'e \<Rightarrow> string \<Rightarrow> string \<Rightarrow> string list \<Rightarrow> 'c \<Rightarrow> 'e"
    and contents :: "'c \<Rightarrow> item list"
    and good :: "'c \<Rightarrow> bool"
  assumes wrote_ok: "wrote e xs e' \<Longrightarrow> ok e'"
    and wrote_nothing: "ok e \<Longrightarrow> wrote e [] e"
    and wrote_then: "wrote e xs e1 \<Longrightarrow> wrote e1 ys e2 \<Longrightarrow> wrote e (xs @ ys) e2"
    and wrote_put: "ok e \<Longrightarrow> wrote e (chs s) (put e s)"
    and capture_ok: "ok e \<Longrightarrow> ok (capture e)"
    and wrote_release: "ok e \<Longrightarrow> wrote (capture e) xs e1 \<Longrightarrow>
          \<exists>c. release e1 = (c, e) \<and> contents c = xs \<and> good c"
    and wrote_splice: "ok e \<Longrightarrow> good c \<Longrightarrow> wrote e (contents c) (splice e c)"
    and wrote_postpone: "ok e \<Longrightarrow> good c \<Longrightarrow> wrote e [Def nt aj ct (contents c)] (postpone e nt aj ct c)"
begin

definition fine :: "vocab \<Rightarrow> 'e \<Rightarrow> 'e \<Rightarrow> bool" where
  "fine voc e e' \<longleftrightarrow> (\<exists>xs. wrote e xs e' \<and> markup voc xs)"

definition attrs_fine :: "vocab \<Rightarrow> 'e \<Rightarrow> 'e \<Rightarrow> bool" where
  "attrs_fine voc e e' \<longleftrightarrow>
     (\<exists>as. fst ` set as \<subseteq> v_attrs voc \<and> wrote e (chs (concat (map attr_str as))) e')"

lemma fine_ok: "fine voc e e' \<Longrightarrow> ok e'"
  by (auto simp: fine_def wrote_ok)

lemma fine_refl: "ok e \<Longrightarrow> fine voc e e"
  unfolding fine_def by (blast intro: wrote_nothing markup.m_empty)

lemma fine_trans: "fine voc e e1 \<Longrightarrow> fine voc e1 e2 \<Longrightarrow> fine voc e e2"
  unfolding fine_def by (blast intro: wrote_then markup.m_append)

lemma fine_text: "ok e \<Longrightarrow> fine voc e (put e (esc_text s))"
  unfolding fine_def by (blast intro: wrote_put markup.m_text)

lemma fine_markup: "ok e \<Longrightarrow> markup voc (chs s) \<Longrightarrow> fine voc e (put e s)"
  unfolding fine_def by (blast intro: wrote_put)

lemma fine_foldl:
  "ok e \<Longrightarrow> (\<And>e x. ok e \<Longrightarrow> x \<in> set xs \<Longrightarrow> fine voc e (f e x)) \<Longrightarrow> fine voc e (foldl f e xs)"
proof (induction xs arbitrary: e)
  case (Cons x xs)
  then have "fine voc e (f e x)" by simp
  moreover from this have "ok (f e x)" by (rule fine_ok)
  then have "fine voc (f e x) (foldl f (f e x) xs)"
    by (rule Cons.IH) (simp add: Cons.prems(2))
  ultimately show ?case by (auto intro: fine_trans)
qed (simp add: fine_refl)

lemma attrs_fine_ok: "attrs_fine voc e e' \<Longrightarrow> ok e'"
  by (auto simp: attrs_fine_def wrote_ok)

lemma attrs_fine_refl: "ok e \<Longrightarrow> attrs_fine voc e e"
  unfolding attrs_fine_def by (rule exI [of _ "[]"]) (simp add: wrote_nothing)

lemma attrs_fine_trans: "attrs_fine voc e e1 \<Longrightarrow> attrs_fine voc e1 e2 \<Longrightarrow> attrs_fine voc e e2"
proof -
  assume "attrs_fine voc e e1" "attrs_fine voc e1 e2"
  then obtain as bs where "fst ` set as \<subseteq> v_attrs voc" "wrote e (chs (concat (map attr_str as))) e1"
      "fst ` set bs \<subseteq> v_attrs voc" "wrote e1 (chs (concat (map attr_str bs))) e2"
    by (auto simp: attrs_fine_def)
  then show ?thesis
    unfolding attrs_fine_def
    by (intro exI [of _ "as @ bs"]) (auto dest: wrote_then)
qed

lemma wrote_put_put: "wrote e xs e1 \<Longrightarrow> wrote e (xs @ chs s) (put e1 s)"
  by (blast intro: wrote_then wrote_put wrote_ok)

lemma attrs_fine_wrote:
  "n \<in> v_attrs voc \<Longrightarrow> wrote e (chs (attr_str (n, v))) e' \<Longrightarrow> attrs_fine voc e e'"
  unfolding attrs_fine_def by (rule exI [of _ "[(n, v)]"]) simp

lemma attrs_fine_foldl:
  "ok e \<Longrightarrow> (\<And>e x. ok e \<Longrightarrow> x \<in> set xs \<Longrightarrow> attrs_fine voc e (f e x)) \<Longrightarrow>
    attrs_fine voc e (foldl f e xs)"
proof (induction xs arbitrary: e)
  case (Cons x xs)
  then have "attrs_fine voc e (f e x)" by simp
  moreover from this have "ok (f e x)" by (rule attrs_fine_ok)
  then have "attrs_fine voc (f e x) (foldl f (f e x) xs)"
    by (rule Cons.IH) (simp add: Cons.prems(2))
  ultimately show ?case by (auto intro: attrs_fine_trans)
qed (simp add: attrs_fine_refl)

lemma wrote_open:
  assumes "wrote e (chs (''<'' @ t)) e1" and "attrs_fine voc e1 e2" and "e3 = put e2 ''>''"
  shows "\<exists>as. fst ` set as \<subseteq> v_attrs voc \<and> wrote e (chs (open_tag t as)) e3"
proof -
  from assms(2) obtain as where as: "fst ` set as \<subseteq> v_attrs voc"
      "wrote e1 (chs (concat (map attr_str as))) e2"
    by (auto simp: attrs_fine_def)
  from wrote_put_put [OF wrote_then [OF assms(1) as(2)], of "''>''"] as(1) assms(3) show ?thesis
    by (intro exI [of _ as]) (simp add: open_tag_def)
qed

lemma fine_void:
  assumes "t \<in> v_voids voc" and "wrote e (chs (''<'' @ t)) e1" and "attrs_fine voc e1 e2"
  shows "fine voc e (put e2 ''>'')"
  using wrote_open [OF assms(2,3) refl] assms(1) unfolding fine_def by (blast intro: markup.m_void)

lemma fine_element:
  assumes t: "t \<in> v_tags voc"
    and opn: "wrote e (chs (open_tag t as)) e1" and as: "fst ` set as \<subseteq> v_attrs voc"
    and body: "fine voc e1 e2" and cls: "wrote e2 (chs (close_tag t)) e3"
  shows "fine voc e e3"
proof -
  obtain xs where xs: "wrote e1 xs e2" "markup voc xs" using body by (auto simp: fine_def)
  have "wrote e (chs (open_tag t as) @ xs @ chs (close_tag t)) e3"
    using wrote_then [OF opn wrote_then [OF xs(1) cls]] by simp
  then show ?thesis
    unfolding fine_def using markup.m_element [OF t as xs(2)] by blast
qed

lemma fine_wraps:
  assumes "wraps voc a b" and "wrote e (chs a) e1" and "fine voc e1 e2" and "wrote e2 (chs b) e3"
  shows "fine voc e e3"
proof -
  obtain xs where xs: "wrote e1 xs e2" "markup voc xs" using assms(3) by (auto simp: fine_def)
  have "wrote e (chs a @ xs @ chs b) e3"
    using wrote_then [OF assms(2) wrote_then [OF xs(1) assms(4)]] by simp
  with assms(1) xs(2) show ?thesis unfolding fine_def wraps_def by blast
qed

lemma fine_put_wraps:
  assumes "wraps voc a b" and "ok e" and "\<And>e1. ok e1 \<Longrightarrow> fine voc e1 (f e1)"
  shows "fine voc e (put (f (put e a)) b)"
proof -
  have a: "wrote e (chs a) (put e a)" by (rule wrote_put [OF assms(2)])
  have f: "fine voc (put e a) (f (put e a))" by (rule assms(3) [OF wrote_ok [OF a]])
  show ?thesis by (rule fine_wraps [OF assms(1) a f wrote_put [OF fine_ok [OF f]]])
qed

lemma fine_wrapped:
  assumes "t \<in> v_tags voc" and "ok e" and "fine voc (put e (open_tag t [])) e2"
  shows "fine voc e (put e2 (close_tag t))"
  using assms by (intro fine_element [of t voc e "[]" "put e (open_tag t [])" e2])
    (auto intro: wrote_put fine_ok)

lemma fine_captured:
  assumes "ok e" and "fine voc (capture e) e1"
  shows "\<exists>c. release e1 = (c, e) \<and> good c \<and> markup voc (contents c)"
  using assms wrote_release unfolding fine_def by blast

lemma fine_postponed:
  assumes "ok e" and "fine voc (capture e) e1" and "release e1 = (c, e2)" and "nt \<in> v_deferred voc"
  shows "fine voc e (postpone e2 nt aj ct c)"
  using fine_captured [OF assms(1,2)] assms(3) wrote_postpone [OF assms(1)]
  unfolding fine_def by (fastforce intro: markup.m_deferred [OF assms(4)])

lemma fine_spliced: "ok e \<Longrightarrow> good c \<Longrightarrow> markup voc (contents c) \<Longrightarrow> fine voc e (splice e c)"
  unfolding fine_def by (blast intro: wrote_splice)

end

interpretation em: sink em_ok emits push_str begin_frame end_frame em_append emit_deferred
  seg_items frame_ok
  by unfold_locales
    (auto intro: emits_em_ok emits_refl emits_trans emits_push_str em_ok_begin_frame
      emits_capture emits_append emits_deferred)

end
