(* ===== verification/Walker.thy ===== *)
theory Walker
  imports Markup
begin

text \<open>
  The explicit work stack both renderers walk the block tree with (\<open>enum Work\<close> in each
  crate, at the node type of that crate).  The locale \<open>work_loop\<close> is a loop over the
  stack: what it does with the closing items, and what opening a block has to promise for
  the output to stay well-formed.  \<open>block_walker\<close> extends it with the opening of a block
  and shows what the whole loop then writes.  Both are interpreted on the loop of each
  renderer.

  The top of a stack is the head of the list.
\<close>

datatype 'n work =
    Open 'n nat
  | Close string
  | CloseOwned string
  | EndDeferred string string "string list"

definition opens :: "nat \<Rightarrow> 'n list \<Rightarrow> 'n work list" where
  "opens d cs = map (\<lambda>c. Open c d) cs"

fun work_weight :: "('n \<Rightarrow> nat) \<Rightarrow> 'n work \<Rightarrow> nat" where
  "work_weight w (Open n d) = w n"
| "work_weight w _ = 1"

definition stack_weight :: "('n \<Rightarrow> nat) \<Rightarrow> 'n work list \<Rightarrow> nat" where
  "stack_weight w ws = sum_list (map (work_weight w) ws)"

lemma stack_weight_simps [simp]:
  "stack_weight w [] = 0"
  "stack_weight w (x # xs) = work_weight w x + stack_weight w xs"
  "stack_weight w (xs @ ys) = stack_weight w xs + stack_weight w ys"
  by (simp_all add: stack_weight_def)

lemma stack_weight_opens [simp]: "stack_weight w (opens d cs) = sum_list (map w cs)"
  by (induction cs) (simp_all add: opens_def)

lemma work_weight_less: "Open c d \<in> set ws \<Longrightarrow> w c \<le> stack_weight w ws"
  by (induction ws) (auto simp: stack_weight_def)

locale work_loop =
  fixes run :: "emitter \<Rightarrow> 'n work list \<Rightarrow> emitter"
    and voc :: vocab
  assumes run_Nil: "run em [] = em"
    and run_Close: "run em (Close t # st) = run (push_str em t) st"
    and run_CloseOwned: "run em (CloseOwned t # st) = run (push_str em t) st"
    and run_EndDeferred: "run em (EndDeferred nt aj ct # st) =
          (let (c, em') = end_frame em in run (emit_deferred em' nt aj ct c) st)"
begin

text \<open>What opening one block promises to the loop: the children it pushed, and that
  whatever well-formed output they write, what it left below them completes its own.\<close>

definition opened :: "nat \<Rightarrow> emitter \<Rightarrow> emitter \<times> 'n work list \<Rightarrow> bool" where
  "opened d em res \<longleftrightarrow>
     (\<exists>cs tail. snd res = opens (Suc d) cs @ tail \<and> em_ok (fst res)
        \<and> (\<forall>em''. em.fine voc (fst res) em'' \<longrightarrow> em.fine voc em (run em'' tail)))"

lemma openedI:
  assumes "em_ok em'" and "\<And>em''. em.fine voc em' em'' \<Longrightarrow> em.fine voc em (run em'' tail)"
  shows "opened d em (em', opens (Suc d) cs @ tail)"
  unfolding opened_def fst_conv snd_conv using assms by blast

lemma opened_leaf: "em.fine voc em em' \<Longrightarrow> opened d em (em', [])"
  using openedI [of em' em "[]" d "[]"] em.fine_ok em.fine_trans
  by (auto simp: opens_def run_Nil)

lemma opened_tail:
  assumes w: "wraps voc a b" and a: "emits em (chs a) em0" and f: "em.fine voc em0 em'"
    and tail: "tail = [Close b] \<or> tail = [CloseOwned b]"
  shows "opened d em (em', opens (Suc d) cs @ tail)"
proof (rule openedI [OF em.fine_ok [OF f]])
  fix em'' assume "em.fine voc em' em''"
  then have all: "em.fine voc em0 em''" by (rule em.fine_trans [OF f])
  have "run em'' tail = push_str em'' b"
    using tail by (auto simp: run_Close run_CloseOwned run_Nil)
  then show "em.fine voc em (run em'' tail)"
    using em.fine_wraps [OF w a all emits_push_str [OF em.fine_ok [OF all]]] by simp
qed

lemma opened_deferred:
  assumes ok: "em_ok em" and f: "em.fine voc (begin_frame em) em'" and nt: "nt \<in> v_deferred voc"
  shows "opened d em (em', opens (Suc d) cs @ [EndDeferred nt aj ct])"
proof (rule openedI [OF em.fine_ok [OF f]])
  fix em'' assume "em.fine voc em' em''"
  from em.fine_postponed [OF ok em.fine_trans [OF f this] _ nt]
  show "em.fine voc em (run em'' [EndDeferred nt aj ct])"
    by (simp add: run_EndDeferred run_Nil split: prod.split)
qed

end

locale block_walker = work_loop run voc
  for run :: "emitter \<Rightarrow> 'n work list \<Rightarrow> emitter" and voc :: vocab +
  fixes opn :: "'n \<Rightarrow> nat \<Rightarrow> emitter \<Rightarrow> 'n work list \<Rightarrow> emitter \<times> 'n work list"
    and weight :: "'n \<Rightarrow> nat"
  assumes run_Open: "run em (Open n d # st) = (let (em', st') = opn n d em st in run em' st')"
    and opn_stack: "opn n d em st = (let (em', ws) = opn n d em [] in (em', ws @ st))"
    and opn_weight: "opn n d em [] = (em', ws) \<Longrightarrow> stack_weight weight ws < weight n"
    and opn_fine: "em_ok em \<Longrightarrow> opened d em (opn n d em [])"
begin

lemma weight_pos: "0 < weight n"
  using opn_weight [of n 0 em_new] by (cases "opn n 0 em_new []") auto

lemma run_append: "run em (ws @ st) = run (run em ws) st"
proof (induction "stack_weight weight ws" arbitrary: em ws rule: less_induct)
  case less
  show ?case
  proof (cases ws)
    case (Cons w rest)
    show ?thesis
    proof (cases w)
      case (Open n d)
      obtain em' pushed where o: "opn n d em [] = (em', pushed)" by force
      have st: "opn n d em (rest @ st) = (em', (pushed @ rest) @ st)"
           "opn n d em rest = (em', pushed @ rest)"
        using opn_stack [of n d em "rest @ st"] opn_stack [of n d em rest] o by simp_all
      have "stack_weight weight (pushed @ rest) < stack_weight weight ws"
        using opn_weight [OF o] Cons Open by simp
      from less [OF this] show ?thesis
        using Cons Open st by (simp add: run_Open del: append_assoc)
    next
      case (EndDeferred nt aj ct)
      then show ?thesis using Cons less.hyps [of rest]
        by (simp add: run_EndDeferred split: prod.splits)
    qed (use Cons less.hyps [of rest] in \<open>simp_all add: run_Close run_CloseOwned\<close>)
  qed (simp add: run_Nil)
qed

lemma run_one: "run em (w # st) = run (run em [w]) st"
  by (metis append_Cons append_Nil run_append)

lemma run_opens_fine:
  assumes "em_ok em" and "\<And>em c. em_ok em \<Longrightarrow> c \<in> set cs \<Longrightarrow> em.fine voc em (run em [Open c d])"
  shows "em.fine voc em (run em (opens d cs))"
  using assms
proof (induction cs arbitrary: em)
  case (Cons c cs)
  have c: "em.fine voc em (run em [Open c d])" using Cons.prems by simp
  have "em.fine voc (run em [Open c d]) (run (run em [Open c d]) (opens d cs))"
    by (rule Cons.IH [OF em.fine_ok [OF c]]) (simp add: Cons.prems(2))
  with c show ?case
    using run_one [of em "Open c d" "opens d cs"] by (auto simp: opens_def intro: em.fine_trans)
qed (simp add: opens_def run_Nil em.fine_refl)

text \<open>The walk of a whole tree writes well-formed markup, whatever its depth.\<close>

lemma run_fine: "em_ok em \<Longrightarrow> em.fine voc em (run em [Open n d])"
proof (induction "weight n" arbitrary: em n d rule: less_induct)
  case less
  obtain em' ws where o: "opn n d em [] = (em', ws)" by force
  then obtain cs tail where ws: "ws = opens (Suc d) cs @ tail" and ok: "em_ok em'"
    and fin: "\<And>em''. em.fine voc em' em'' \<Longrightarrow> em.fine voc em (run em'' tail)"
    using opn_fine [OF less.prems, of d n] by (auto simp: opened_def)
  have w: "weight c < weight n" if "c \<in> set cs" for c
  proof -
    have "Open c (Suc d) \<in> set ws" using that by (simp add: ws opens_def)
    from work_weight_less [OF this, of weight] opn_weight [OF o] show ?thesis by simp
  qed
  have "em.fine voc em' (run em' (opens (Suc d) cs))"
    by (rule run_opens_fine [OF ok]) (rule less.hyps [OF w])
  from fin [OF this] show ?case
    using o by (simp add: run_Open ws run_append)
qed

end

end
