(* ===== verification/ProseMirror.thy ===== *)
theory ProseMirror
  imports Walker
begin

text \<open>
  The crate \<open>prosemirror-html\<close> (\<open>src/ext/yrby/crates/prosemirror-html/src/lib.rs\<close>): HTML
  for ProseMirror and Tiptap documents.  Every function of the crate is a definition of
  the same name with the prefix \<open>pm_\<close>; a function that writes through \<open>&mut Emitter\<close> or
  \<open>&mut Vec<Work>\<close> takes the emitter or the stack and returns it.  The top of the work
  stack is the head of the list.
\<close>

definition MAX_DEPTH :: nat where "MAX_DEPTH = 1024"

section \<open>Escaping and attribute readers\<close>

definition pm_escape_text :: "string \<Rightarrow> string" where
  "pm_escape_text s =
     replace_char (CHR ''>'') ''&gt;''
       (replace_char (CHR ''<'') ''&lt;'' (replace_char (CHR ''&'') ''&amp;'' s))"

definition pm_escape_attr :: "string \<Rightarrow> string" where
  "pm_escape_attr s = replace_char (CHR 0x22) ''&quot;'' (pm_escape_text s)"

definition pm_str_attr :: "xml_element \<Rightarrow> string \<Rightarrow> string option" where
  "pm_str_attr e name =
     (case get_attribute (el_attrs e) name of Some (OAny (AString s)) \<Rightarrow> Some s | _ \<Rightarrow> None)"

definition pm_num_attr :: "xml_element \<Rightarrow> string \<Rightarrow> int option" where
  "pm_num_attr e name =
     (case get_attribute (el_attrs e) name of
        Some (OAny (ANumber (NInt n))) \<Rightarrow> Some n
      | Some (OAny (ANumber (NFloat n))) \<Rightarrow> Some (f64_as_i64 n)
      | _ \<Rightarrow> None)"

fun xml_elements :: "xml_out list \<Rightarrow> xml_element list" where
  "xml_elements [] = []"
| "xml_elements (XElement e # xs) = e # xml_elements xs"
| "xml_elements (_ # xs) = xml_elements xs"

definition pm_element_children :: "xml_element \<Rightarrow> xml_element list" where
  "pm_element_children e = xml_elements (el_children e)"

definition pm_element_child_types :: "xml_element \<Rightarrow> string list" where
  "pm_element_child_types e = map tag (pm_element_children e)"

fun is_xelement :: "xml_out \<Rightarrow> bool" where
  "is_xelement (XElement _) = True"
| "is_xelement _ = False"

definition pm_has_element_child :: "xml_element \<Rightarrow> bool" where
  "pm_has_element_child e = list_ex is_xelement (el_children e)"

fun diff_strings :: "diff \<Rightarrow> string" where
  "diff_strings [] = []"
| "diff_strings ((OAny (AString run), _) # ds) = run @ diff_strings ds"
| "diff_strings (_ # ds) = diff_strings ds"

fun texts_strings :: "xml_out list \<Rightarrow> string" where
  "texts_strings [] = []"
| "texts_strings (XText t # xs) = diff_strings (tx_diff t) @ texts_strings xs"
| "texts_strings (_ # xs) = texts_strings xs"

definition pm_code_text :: "xml_element \<Rightarrow> string" where
  "pm_code_text e = texts_strings (el_children e)"

section \<open>Marks\<close>

definition pm_has :: "run_attrs \<Rightarrow> string list \<Rightarrow> rules \<Rightarrow> bool" where
  "pm_has ms keys rs = list_ex (\<lambda>k. hm_contains ms k \<and> \<not> hm_contains (marks rs) k) keys"

definition pm_mark_ref_attr :: "yrs \<Rightarrow> any option \<Rightarrow> string \<Rightarrow> string option" where
  "pm_mark_ref_attr y value name =
     (case value of
        Some (AMap m) \<Rightarrow> Option.bind (hm_get m name) (any_attr_string y)
      | _ \<Rightarrow> None)"

definition pm_custom_mark_open :: "yrs \<Rightarrow> mark_rule \<Rightarrow> any option \<Rightarrow> string" where
  "pm_custom_mark_open y rule value =
     foldl (\<lambda>out (attr, parts).
         case resolve_parts parts (pm_mark_ref_attr y value) of
           Some v \<Rightarrow> out @ '' '' @ attr @ ''='' @ dquote @ pm_escape_attr v @ dquote
         | None \<Rightarrow> out)
       (''<'' @ mark_tag rule) (mark_attrs rule) @ ''>''"

definition hex_digit :: "char \<Rightarrow> nat option" where
  "hex_digit c = (let b = byte_val c in
     if 48 \<le> b \<and> b \<le> 57 then Some (b - 48)
     else if 97 \<le> b \<and> b \<le> 102 then Some (b - 87)
     else if 65 \<le> b \<and> b \<le> 70 then Some (b - 55)
     else None)"

fun hex_value :: "nat \<Rightarrow> string \<Rightarrow> nat option" where
  "hex_value acc [] = Some acc"
| "hex_value acc (c # cs) =
     (case hex_digit c of
        None \<Rightarrow> None
      | Some d \<Rightarrow> if 16 * acc + d < 256 then hex_value (16 * acc + d) cs else None)"

text \<open>\<open>u8::from_str_radix(s, 16).ok()\<close>: a leading plus sign is allowed before at least one
  digit, overflow is an error.\<close>

definition u8_from_hex :: "string \<Rightarrow> nat option" where
  "u8_from_hex s =
     (case s of
        [] \<Rightarrow> None
      | c # cs \<Rightarrow> if c = CHR ''+'' \<and> cs \<noteq> [] then hex_value 0 cs else hex_value 0 s)"

definition rgb :: "nat option \<Rightarrow> nat option \<Rightarrow> nat option \<Rightarrow> string option" where
  "rgb r g b =
     Option.bind r (\<lambda>r. Option.bind g (\<lambda>g. Option.bind b (\<lambda>b.
       Some (''rgb('' @ string_of_nat r @ '', '' @ string_of_nat g @ '', '' @ string_of_nat b @ '')''))))"

definition pm_hex_to_rgb :: "string \<Rightarrow> string option" where
  "pm_hex_to_rgb value =
     (case value of
        [] \<Rightarrow> None
      | c # hex \<Rightarrow>
          if c \<noteq> CHR ''#'' then None
          else if \<not> is_ascii_str hex then None
          else if length hex = 3 then
            let d = (\<lambda>i. u8_from_hex [hex ! i, hex ! i]) in rgb (d 0) (d 1) (d 2)
          else if length hex = 6 then
            let d = (\<lambda>i. u8_from_hex [hex ! i, hex ! Suc i]) in rgb (d 0) (d 2) (d 4)
          else None)"

definition kebab :: "string \<Rightarrow> string" where
  "kebab key = concat (map (\<lambda>ch. if is_ascii_uppercase ch then ''-'' @ [ascii_lower ch] else [ch]) key)"

fun string_pairs :: "(string \<times> any) list \<Rightarrow> (string \<times> string) list" where
  "string_pairs [] = []"
| "string_pairs ((k, AString s) # rest) = (k, s) # string_pairs rest"
| "string_pairs (_ # rest) = string_pairs rest"

definition css_step :: "string \<Rightarrow> string \<times> string \<Rightarrow> string" where
  "css_step css kv =
     css @ (if css = [] then [] else '' '') @ kebab (fst kv) @ '': ''
       @ (case pm_hex_to_rgb (snd kv) of Some v \<Rightarrow> v | None \<Rightarrow> snd kv) @ '';''"

definition pm_text_style_css :: "(string \<times> any) list \<Rightarrow> string" where
  "pm_text_style_css style = foldl css_step [] (sort_key fst (string_pairs style))"

definition PM_LINK_SCHEMES :: "string list" where
  "PM_LINK_SCHEMES = [''http'', ''https'', ''ftp'', ''ftps'', ''mailto'', ''tel'', ''callto'',
     ''sms'', ''cid'', ''xmpp'']"

definition pm_unsafe_href :: "string \<Rightarrow> string \<Rightarrow> bool" where
  "pm_unsafe_href key v =
     (key = ''href'' \<and>
      (case url_scheme v of Some scheme \<Rightarrow> scheme \<notin> set PM_LINK_SCHEMES | None \<Rightarrow> False))"

definition pm_link_step :: "(string \<times> any) list \<Rightarrow> string \<Rightarrow> string \<Rightarrow> string" where
  "pm_link_step link out key =
     (case hm_get link key of
        Some (AString v) \<Rightarrow>
          out @ '' '' @ key @ ''='' @ dquote
            @ pm_escape_attr (if pm_unsafe_href key v then [] else v) @ dquote
      | _ \<Rightarrow> out)"

definition pm_link_open :: "(string \<times> any) list \<Rightarrow> string" where
  "pm_link_open link =
     foldl (pm_link_step link) ''<a'' [''target'', ''rel'', ''class'', ''href'', ''title''] @ ''>''"

definition tag_pair :: "string \<Rightarrow> string \<times> string" where
  "tag_pair t = (''<'' @ t @ ''>'', ''</'' @ t @ ''>'')"

text \<open>The formatting marks of a run that does not carry \<open>code\<close>, innermost first.\<close>

definition pm_format_stack :: "run_attrs \<Rightarrow> rules \<Rightarrow> (string \<times> string) list" where
  "pm_format_stack ms rs =
     (if pm_has ms [''subscript'', ''sub''] rs then [tag_pair ''sub'']
      else if pm_has ms [''superscript'', ''sup''] rs then [tag_pair ''sup''] else [])
     @ (if pm_has ms [''highlight''] rs then [tag_pair ''mark''] else [])
     @ (if pm_has ms [''underline'', ''u''] rs then [tag_pair ''u''] else [])
     @ (if pm_has ms [''strike'', ''s''] rs then [tag_pair ''s''] else [])
     @ (if pm_has ms [''italic'', ''em''] rs then [tag_pair ''em''] else [])
     @ (if pm_has ms [''bold'', ''strong''] rs then [tag_pair ''strong''] else [])
     @ (if hm_contains (marks rs) ''textStyle'' then []
        else case hm_get ms ''textStyle'' of
            Some (AMap style) \<Rightarrow>
              let css = pm_text_style_css style in
              if css = [] then []
              else [(''<span style='' @ dquote @ pm_escape_attr css @ dquote @ ''>'', ''</span>'')]
          | _ \<Rightarrow> [])"

text \<open>The registered marks a run carries, in the order they are pushed.\<close>

definition pm_custom_names :: "run_attrs \<Rightarrow> rules \<Rightarrow> string list" where
  "pm_custom_names ms rs =
     sort (filter (\<lambda>name. \<not> hm_contains ms ''code'' \<or> name = ''code'' \<or> name = ''link'')
       (filter (hm_contains ms) (map fst (marks rs))))"

text \<open>\<open>rules.marks[name]\<close> cannot miss: the names are keys of the map.\<close>

definition pm_custom_stack :: "yrs \<Rightarrow> run_attrs \<Rightarrow> rules \<Rightarrow> (string \<times> string) list" where
  "pm_custom_stack y ms rs =
     concat (map (\<lambda>name. case hm_get (marks rs) name of
          Some rule \<Rightarrow>
            [(pm_custom_mark_open y rule (hm_get ms name), ''</'' @ mark_tag rule @ ''>'')]
        | None \<Rightarrow> []) (pm_custom_names ms rs))"

definition pm_run_stack :: "yrs \<Rightarrow> run_attrs option \<Rightarrow> rules \<Rightarrow> (string \<times> string) list" where
  "pm_run_stack y attrs rs =
     (case attrs of
        None \<Rightarrow> []
      | Some ms \<Rightarrow>
          rev ((if pm_has ms [''code''] rs then [tag_pair ''code'']
                else if \<not> hm_contains ms ''code'' then pm_format_stack ms rs else [])
             @ (if hm_contains (marks rs) ''link'' then []
                else case hm_get ms ''link'' of
                    Some (AMap link) \<Rightarrow> [(pm_link_open link, ''</a>'')]
                  | _ \<Rightarrow> [])
             @ pm_custom_stack y ms rs))"

text \<open>The loop of \<open>render_text_runs\<close>; \<open>opn\<close> are the wrappers open before the run.\<close>

definition pm_run_step ::
  "(string \<times> string) list \<Rightarrow> (string \<times> string) list \<Rightarrow> string \<Rightarrow> emitter \<Rightarrow> emitter" where
  "pm_run_step opn stack s em =
     (let shared = length (takeWhile (\<lambda>(a, b). a = b) (zip opn stack));
          em1 = foldl (\<lambda>em p. push_str em (snd p)) em (rev (drop shared opn));
          em2 = foldl (\<lambda>em p. push_str em (fst p)) em1 (drop shared stack)
      in push_str em2 (pm_escape_text s))"

fun pm_text_runs_loop ::
  "yrs \<Rightarrow> rules \<Rightarrow> diff \<Rightarrow> (string \<times> string) list \<Rightarrow> emitter \<Rightarrow> emitter" where
  "pm_text_runs_loop y rs [] opn em = foldl (\<lambda>em p. push_str em (snd p)) em (rev opn)"
| "pm_text_runs_loop y rs ((OAny (AString s), attrs) # ds) opn em =
     (let stack = pm_run_stack y attrs rs
      in pm_text_runs_loop y rs ds stack (pm_run_step opn stack s em))"
| "pm_text_runs_loop y rs (_ # ds) opn em = pm_text_runs_loop y rs ds opn em"

definition pm_render_text_runs :: "yrs \<Rightarrow> xml_text \<Rightarrow> emitter \<Rightarrow> rules \<Rightarrow> emitter" where
  "pm_render_text_runs y t em rs = pm_text_runs_loop y rs (tx_diff t) [] em"

section \<open>Inline content\<close>

definition pm_push_attr :: "emitter \<Rightarrow> string \<Rightarrow> string \<Rightarrow> emitter" where
  "pm_push_attr em name value =
     em_push (push_str (push_str (push_str (em_push em '' '') name) (''='' @ dquote))
       (pm_escape_attr value)) dquote"

definition pm_rule_attrs ::
  "yrs \<Rightarrow> attr_list \<Rightarrow> (string \<times> template) list \<Rightarrow> emitter \<Rightarrow> emitter" where
  "pm_rule_attrs y node attrs em =
     foldl (\<lambda>em (name, parts).
         case resolve_parts parts (xml_ref_attr y node) of
           Some value \<Rightarrow> pm_push_attr em name value
         | None \<Rightarrow> em) em attrs"

text \<open>The opening tag of a declarative rule, up to and including its \<open>>\<close>.\<close>

definition pm_rule_open ::
  "yrs \<Rightarrow> xml_element \<Rightarrow> string \<Rightarrow> (string \<times> template) list \<Rightarrow> emitter \<Rightarrow> emitter" where
  "pm_rule_open y e t attrs em =
     em_push (pm_rule_attrs y (el_attrs e) attrs (push_str (em_push em ''<'') t)) ''>''"

definition pm_rule_text :: "yrs \<Rightarrow> attr_list \<Rightarrow> template option \<Rightarrow> emitter \<Rightarrow> emitter" where
  "pm_rule_text y node txt em =
     (case txt of
        None \<Rightarrow> em
      | Some parts \<Rightarrow>
          (case resolve_parts parts (xml_ref_attr y node) of
             Some value \<Rightarrow> push_str em (pm_escape_text value)
           | None \<Rightarrow> em))"

definition pm_push_close :: "emitter \<Rightarrow> string \<Rightarrow> emitter" where
  "pm_push_close em t = em_push (push_str (push_str em ''</'') t) ''>''"

definition pm_render_image :: "xml_element \<Rightarrow> emitter \<Rightarrow> emitter" where
  "pm_render_image e em =
     em_push
       (foldl (\<lambda>em (attr, html).
            case pm_str_attr e attr of Some v \<Rightarrow> pm_push_attr em html v | None \<Rightarrow> em)
          (push_str em ''<img'')
          [(''src'', ''src''), (''alt'', ''alt''), (''title'', ''title'')])
       ''>''"

function pm_render_inline :: "yrs \<Rightarrow> xml_element \<Rightarrow> nat \<Rightarrow> emitter \<Rightarrow> rules \<Rightarrow> emitter"
  and pm_render_inline_nodes :: "yrs \<Rightarrow> xml_out list \<Rightarrow> nat \<Rightarrow> emitter \<Rightarrow> rules \<Rightarrow> emitter"
  and pm_render_rule_inline ::
    "yrs \<Rightarrow> xml_element \<Rightarrow> node_rule \<Rightarrow> nat \<Rightarrow> emitter \<Rightarrow> rules \<Rightarrow> emitter" where
  "pm_render_inline y (XmlElement t as cs) depth em rs = pm_render_inline_nodes y cs depth em rs"
| "pm_render_inline_nodes y [] depth em rs = em"
| "pm_render_inline_nodes y (XText t # ns) depth em rs =
     pm_render_inline_nodes y ns depth (pm_render_text_runs y t em rs) rs"
| "pm_render_inline_nodes y (XFragment f # ns) depth em rs = pm_render_inline_nodes y ns depth em rs"
| "pm_render_inline_nodes y (XElement child # ns) depth em rs =
     pm_render_inline_nodes y ns depth
       (case hm_get (nodes rs) (tag child) of
          Some rule \<Rightarrow> pm_render_rule_inline y child rule depth em rs
        | None \<Rightarrow>
            if tag child = ''hardBreak'' \<or> tag child = ''hard_break'' then push_str em ''<br>''
            else if tag child = ''image'' then pm_render_image child em
            else if depth < MAX_DEPTH then pm_render_inline y child (depth + 1) em rs
            else em) rs"
| "pm_render_rule_inline y e (Callback cont) depth em rs =
     (let em1 = begin_frame em;
          em2 = (if cont \<noteq> NoContent \<and> depth < MAX_DEPTH
                 then pm_render_inline y e (depth + 1) em1 rs else em1);
          (captured, em3) = end_frame em2
      in emit_deferred em3 (tag e) (xml_attrs_json y (el_attrs e)) (pm_element_child_types e) captured)"
| "pm_render_rule_inline y e (Declarative t void attrs txt cont) depth em rs =
     (let em1 = pm_rule_open y e t attrs em
      in if void then em1
         else let em2 = pm_rule_text y (el_attrs e) txt em1;
                  em3 = (if cont \<noteq> NoContent \<and> depth < MAX_DEPTH
                         then pm_render_inline y e (depth + 1) em2 rs else em2)
              in pm_push_close em3 t)"
  by pat_completeness auto
termination
  by (relation "measure (\<lambda>x. case x of
        Inl (y, e, d, em, rs) \<Rightarrow> 2 * size e
      | Inr (Inl (y, ns, d, em, rs)) \<Rightarrow> 2 * size_list size ns
      | Inr (Inr (y, e, r, d, em, rs)) \<Rightarrow> 2 * size e + 1)") auto

section \<open>Blocks\<close>

fun pm_stray_loop :: "yrs \<Rightarrow> xml_out list \<Rightarrow> emitter \<Rightarrow> rules \<Rightarrow> emitter" where
  "pm_stray_loop y [] em rs = em"
| "pm_stray_loop y (XText t # ns) em rs = pm_stray_loop y ns (pm_render_text_runs y t em rs) rs"
| "pm_stray_loop y (_ # ns) em rs = pm_stray_loop y ns em rs"

definition pm_render_stray_text :: "yrs \<Rightarrow> xml_element \<Rightarrow> emitter \<Rightarrow> rules \<Rightarrow> emitter" where
  "pm_render_stray_text y e em rs = pm_stray_loop y (el_children e) em rs"

text \<open>Pushing the children in reverse, so that the first is on top.\<close>

definition pm_push_opens ::
  "xml_element \<Rightarrow> nat \<Rightarrow> xml_element work list \<Rightarrow> xml_element work list" where
  "pm_push_opens e depth stack =
     foldl (\<lambda>st child. Open child (depth + 1) # st) stack (rev (pm_element_children e))"

definition pm_push_block_children ::
  "yrs \<Rightarrow> xml_element \<Rightarrow> nat \<Rightarrow> string \<Rightarrow> emitter \<Rightarrow> xml_element work list \<Rightarrow> rules
     \<Rightarrow> emitter \<times> xml_element work list" where
  "pm_push_block_children y e depth close em stack rs =
     (let em' = pm_render_stray_text y e em rs; stack' = Close close # stack
      in if depth \<ge> MAX_DEPTH then (em', stack') else (em', pm_push_opens e depth stack'))"

definition pm_open_container ::
  "yrs \<Rightarrow> xml_element \<Rightarrow> nat \<Rightarrow> string \<Rightarrow> string \<Rightarrow> emitter \<Rightarrow> xml_element work list \<Rightarrow> rules
     \<Rightarrow> emitter \<times> xml_element work list" where
  "pm_open_container y e depth opn close em stack rs =
     pm_push_block_children y e depth close (push_str em opn) stack rs"

definition pm_span_attr :: "xml_element \<Rightarrow> string \<Rightarrow> string" where
  "pm_span_attr e name =
     string_of_int (case pm_num_attr e name of Some n \<Rightarrow> n | None \<Rightarrow> 1)"

definition pm_open_cell ::
  "yrs \<Rightarrow> xml_element \<Rightarrow> nat \<Rightarrow> string \<Rightarrow> string \<Rightarrow> emitter \<Rightarrow> xml_element work list \<Rightarrow> rules
     \<Rightarrow> emitter \<times> xml_element work list" where
  "pm_open_cell y e depth t close em stack rs =
     (let em1 = push_str (push_str (em_push em ''<'') t) ('' colspan='' @ dquote);
          em2 = push_str (push_str em1 (pm_span_attr e ''colspan'')) (dquote @ '' rowspan='' @ dquote);
          em3 = push_str (push_str em2 (pm_span_attr e ''rowspan'')) (dquote @ ''>'')
      in pm_push_block_children y e depth close em3 stack rs)"

fun pm_open_rule_block ::
  "yrs \<Rightarrow> xml_element \<Rightarrow> node_rule \<Rightarrow> nat \<Rightarrow> emitter \<Rightarrow> xml_element work list \<Rightarrow> rules
     \<Rightarrow> emitter \<times> xml_element work list" where
  "pm_open_rule_block y e (Callback cont) depth em stack rs =
     (let em1 = begin_frame em;
          stack1 = EndDeferred (tag e) (xml_attrs_json y (el_attrs e)) (pm_element_child_types e) # stack
      in case cont of
           Inline \<Rightarrow> (pm_render_inline y e 0 em1 rs, stack1)
         | Blocks \<Rightarrow> (pm_render_stray_text y e em1 rs,
                      if depth < MAX_DEPTH then pm_push_opens e depth stack1 else stack1)
         | NoContent \<Rightarrow> (em1, stack1))"
| "pm_open_rule_block y e (Declarative t void attrs txt cont) depth em stack rs =
     (let em1 = pm_rule_open y e t attrs em
      in if void then (em1, stack)
         else let em2 = pm_rule_text y (el_attrs e) txt em1
         in case cont of
              Inline \<Rightarrow> (pm_push_close (pm_render_inline y e 0 em2 rs) t, stack)
            | Blocks \<Rightarrow>
                (let stack1 = CloseOwned (''</'' @ t @ ''>'') # stack
                 in (pm_render_stray_text y e em2 rs,
                     if depth < MAX_DEPTH then pm_push_opens e depth stack1 else stack1))
            | NoContent \<Rightarrow> (pm_push_close em2 t, stack))"

definition pm_heading :: "yrs \<Rightarrow> xml_element \<Rightarrow> emitter \<Rightarrow> rules \<Rightarrow> emitter" where
  "pm_heading y e em rs =
     (let level = clamp 1 6 (case pm_num_attr e ''level'' of Some n \<Rightarrow> n | None \<Rightarrow> 1);
          t = [''123456'' ! nat (level - 1)];
          em1 = em_push (em_push (push_str em ''<h'') t) ''>''
      in em_push (em_push (push_str (pm_render_inline y e 0 em1 rs) ''</h'') t) ''>'')"

definition pm_code_block :: "xml_element \<Rightarrow> emitter \<Rightarrow> emitter" where
  "pm_code_block e em =
     (let em1 = push_str em ''<pre><code'';
          em2 = (case pm_str_attr e ''language'' of
                   Some lang \<Rightarrow>
                     if lang = [] then em1
                     else em_push (push_str (push_str em1 ('' class='' @ dquote @ ''language-''))
                            (pm_escape_attr lang)) dquote
                 | None \<Rightarrow> em1)
      in push_str (push_str (em_push em2 ''>'') (pm_escape_text (pm_code_text e))) ''</code></pre>'')"

definition pm_ordered_list_open :: "xml_element \<Rightarrow> emitter \<Rightarrow> emitter" where
  "pm_ordered_list_open e em =
     (case pm_num_attr e ''start'' of
        Some start \<Rightarrow>
          if start \<noteq> 1
          then push_str (push_str (push_str em (''<ol start='' @ dquote)) (string_of_int start))
                 (dquote @ ''>'')
          else push_str em ''<ol>''
      | None \<Rightarrow> push_str em ''<ol>'')"

definition pm_unknown_block ::
  "yrs \<Rightarrow> xml_element \<Rightarrow> nat \<Rightarrow> emitter \<Rightarrow> xml_element work list \<Rightarrow> rules
     \<Rightarrow> emitter \<times> xml_element work list" where
  "pm_unknown_block y e depth em stack rs =
     (if pm_has_element_child e then pm_push_block_children y e depth [] em stack rs
      else let (inline, em1) = end_frame (pm_render_inline y e 0 (begin_frame em) rs)
           in if inline \<noteq> []
              then (push_str (em_append (push_str em1 ''<p>'') inline) ''</p>'', stack)
              else (em1, stack))"

definition pm_open_block ::
  "yrs \<Rightarrow> xml_element \<Rightarrow> nat \<Rightarrow> emitter \<Rightarrow> xml_element work list \<Rightarrow> rules
     \<Rightarrow> emitter \<times> xml_element work list" where
  "pm_open_block y e depth em stack rs =
     (case hm_get (nodes rs) (tag e) of
        Some rule \<Rightarrow> pm_open_rule_block y e rule depth em stack rs
      | None \<Rightarrow>
          let t = tag e in
          if t = ''paragraph'' then
            (push_str (pm_render_inline y e 0 (push_str em ''<p>'') rs) ''</p>'', stack)
          else if t = ''heading'' then (pm_heading y e em rs, stack)
          else if t = ''codeBlock'' \<or> t = ''code_block'' then (pm_code_block e em, stack)
          else if t = ''blockquote'' then
            pm_open_container y e depth ''<blockquote>'' ''</blockquote>'' em stack rs
          else if t = ''bulletList'' \<or> t = ''bullet_list'' then
            pm_open_container y e depth ''<ul>'' ''</ul>'' em stack rs
          else if t = ''orderedList'' \<or> t = ''ordered_list'' then
            pm_push_block_children y e depth ''</ol>'' (pm_ordered_list_open e em) stack rs
          else if t = ''listItem'' \<or> t = ''list_item'' then
            pm_open_container y e depth ''<li>'' ''</li>'' em stack rs
          else if t = ''table'' then
            pm_push_block_children y e depth ''</tbody></table>''
              (push_str em ''<table><tbody>'') stack rs
          else if t = ''tableRow'' \<or> t = ''table_row'' then
            pm_open_container y e depth ''<tr>'' ''</tr>'' em stack rs
          else if t = ''tableHeader'' \<or> t = ''table_header'' then
            pm_open_cell y e depth ''th'' ''</th>'' em stack rs
          else if t = ''tableCell'' \<or> t = ''table_cell'' then
            pm_open_cell y e depth ''td'' ''</td>'' em stack rs
          else if t = ''horizontalRule'' \<or> t = ''horizontal_rule'' then (push_str em ''<hr>'', stack)
          else if t = ''image'' then (pm_render_image e em, stack)
          else if t = ''hardBreak'' \<or> t = ''hard_break'' then (push_str em ''<br>'', stack)
          else pm_unknown_block y e depth em stack rs)"

text \<open>The loop over the work stack ends: opening a block replaces its weight by the
  smaller weight of what it pushes.\<close>

lemma size_xml_elements [termination_simp]:
  "e \<in> set (xml_elements xs) \<Longrightarrow> size e < Suc (n + size_list size xs)"
  by (induction xs rule: xml_elements.induct) auto

fun elem_weight :: "xml_element \<Rightarrow> nat" where
  "elem_weight (XmlElement t as cs) = 2 + sum_list (map elem_weight (xml_elements cs))"

lemma elem_weight_eq: "elem_weight e = 2 + sum_list (map elem_weight (pm_element_children e))"
  by (cases e) (simp add: pm_element_children_def)

lemma pm_push_opens_eq: "pm_push_opens e d st = opens (Suc d) (pm_element_children e) @ st"
  by (simp add: pm_push_opens_def opens_def foldl_push_rev)

definition pm_block_opens :: "xml_element \<Rightarrow> nat \<Rightarrow> xml_element work list" where
  "pm_block_opens e d = (if d < MAX_DEPTH then opens (Suc d) (pm_element_children e) else [])"

lemma pm_push_block_children_eq:
  "pm_push_block_children y e d close em st rs =
     (pm_render_stray_text y e em rs, pm_block_opens e d @ Close close # st)"
  by (simp add: pm_push_block_children_def pm_push_opens_eq pm_block_opens_def Let_def not_less)

lemmas pm_stack_eqs = pm_push_block_children_eq pm_open_container_def pm_open_cell_def
  pm_push_opens_eq pm_unknown_block_def Let_def

lemma pm_open_rule_block_stack:
  "pm_open_rule_block y e r d em st rs =
     (let (em', ws) = pm_open_rule_block y e r d em [] rs in (em', ws @ st))"
  by (cases r) (auto simp: pm_push_opens_eq Let_def split: content_kind.splits)

lemma pm_open_block_stack:
  "pm_open_block y e d em st rs = (let (em', ws) = pm_open_block y e d em [] rs in (em', ws @ st))"
proof (cases "hm_get (nodes rs) (tag e)")
  case None
  then show ?thesis
    by (auto simp: pm_open_block_def pm_stack_eqs split: prod.splits)
next
  case (Some r)
  then show ?thesis
    using pm_open_rule_block_stack [of y e r d em st rs] by (simp add: pm_open_block_def)
qed

lemma pm_block_opens_weight: "stack_weight elem_weight (pm_block_opens e d) + 2 \<le> elem_weight e"
  by (simp add: pm_block_opens_def elem_weight_eq [of e])

lemma pm_open_rule_block_weight:
  "stack_weight elem_weight (snd (pm_open_rule_block y e r d em [] rs)) < elem_weight e"
  using pm_block_opens_weight [of e d]
  by (cases r) (auto simp: pm_push_opens_eq pm_block_opens_def Let_def elem_weight_eq [of e]
      split: content_kind.splits)

lemma pm_open_block_weight:
  "stack_weight elem_weight (snd (pm_open_block y e d em [] rs)) < elem_weight e"
proof (cases "hm_get (nodes rs) (tag e)")
  case None
  have "0 < elem_weight e" "stack_weight elem_weight (pm_block_opens e d) + 1 < elem_weight e"
    using pm_block_opens_weight [of e d] by simp_all
  with None show ?thesis
    by (auto simp: pm_open_block_def pm_stack_eqs split: prod.splits)
next
  case (Some r)
  then show ?thesis
    using pm_open_rule_block_weight by (simp add: pm_open_block_def)
qed

function pm_run :: "yrs \<Rightarrow> rules \<Rightarrow> emitter \<Rightarrow> xml_element work list \<Rightarrow> emitter" where
  "pm_run y rs em [] = em"
| "pm_run y rs em (Close t # stack) = pm_run y rs (push_str em t) stack"
| "pm_run y rs em (CloseOwned t # stack) = pm_run y rs (push_str em t) stack"
| "pm_run y rs em (EndDeferred nt aj ct # stack) =
     (let (content, em') = end_frame em in pm_run y rs (emit_deferred em' nt aj ct content) stack)"
| "pm_run y rs em (Open node depth # stack) =
     (let (em', stack') = pm_open_block y node depth em stack rs in pm_run y rs em' stack')"
  by pat_completeness auto
termination
proof (relation "measure (\<lambda>(y, rs, em, st). stack_weight elem_weight st)", goal_cases)
  case (5 y rs em e d st r em' st')
  then have "snd (pm_open_block y e d em st rs) = snd (pm_open_block y e d em [] rs) @ st"
    by (subst pm_open_block_stack) (simp split: prod.splits)
  with 5 pm_open_block_weight [of y e d em rs] show ?case
    by (metis add_less_mono1 case_prod_conv in_measure snd_conv stack_weight_simps(2,3)
        work_weight.simps(1))
qed auto

definition pm_render_block_tree :: "yrs \<Rightarrow> xml_element \<Rightarrow> emitter \<Rightarrow> rules \<Rightarrow> emitter" where
  "pm_render_block_tree y root em rs = pm_run y rs em [Open root 0]"

section \<open>Documents\<close>

fun pm_is_prosemirror_shaped :: "fragment \<Rightarrow> bool" where
  "pm_is_prosemirror_shaped (XElement e # _) = (get_attribute (el_attrs e) ''__type'' = None)"
| "pm_is_prosemirror_shaped (_ # _) = False"
| "pm_is_prosemirror_shaped [] = True"

fun pm_render_node :: "yrs \<Rightarrow> rules \<Rightarrow> emitter \<Rightarrow> xml_out \<Rightarrow> emitter" where
  "pm_render_node y rs em (XElement e) = pm_render_block_tree y e em rs"
| "pm_render_node y rs em (XText t) = pm_render_text_runs y t em rs"
| "pm_render_node y rs em (XFragment f) = push_str em (pm_escape_text (fragment_string y f))"

text \<open>\<open>None\<close> when the root is not ProseMirror-shaped; otherwise the flag of
  \<open>into_segments\<close> (no panic and balanced frames) and the segments.\<close>

definition pm_render_segments :: "yrs \<Rightarrow> fragment \<Rightarrow> rules \<Rightarrow> (bool \<times> segment list) option" where
  "pm_render_segments y fragment rs =
     (if \<not> pm_is_prosemirror_shaped fragment then None
      else Some (into_segments (foldl (pm_render_node y rs) em_new fragment)))"

text \<open>The inner option is the \<open>expect\<close> of the source: \<open>None\<close> would be a panic.\<close>

definition pm_render :: "yrs \<Rightarrow> fragment \<Rightarrow> string option option" where
  "pm_render y fragment =
     map_option (\<lambda>(fine, segs). if fine then into_html (flatten segs) else None)
       (pm_render_segments y fragment rules_empty)"

definition pm_is_builtin :: "string \<Rightarrow> bool" where
  "pm_is_builtin ty = (ty \<in> set [''paragraph'', ''heading'', ''codeBlock'', ''code_block'',
     ''blockquote'', ''bulletList'', ''bullet_list'', ''orderedList'', ''ordered_list'',
     ''listItem'', ''list_item'', ''table'', ''tableRow'', ''table_row'', ''tableHeader'',
     ''table_header'', ''tableCell'', ''table_cell'', ''horizontalRule'', ''horizontal_rule'',
     ''image'', ''hardBreak'', ''hard_break''])"

text \<open>Recursive observation of an element and of its children.  The entry the source
  fetches with \<open>get_mut(..).expect(..)\<close> was inserted when the element was entered.\<close>

fun pm_observe :: "xml_element \<Rightarrow> type_map \<Rightarrow> nat \<Rightarrow> type_map"
  and pm_observe_children :: "string \<Rightarrow> xml_out list \<Rightarrow> type_map \<Rightarrow> nat \<Rightarrow> type_map" where
  "pm_observe (XmlElement ty attrs cs) m depth =
     (let m' = entry_or_default ty (count_type (\<lambda>_. True) attrs) m
      in if depth \<ge> MAX_DEPTH then m' else pm_observe_children ty cs m' depth)"
| "pm_observe_children ty [] m depth = m"
| "pm_observe_children ty (XText _ # cs) m depth =
     pm_observe_children ty cs (entry_or_default ty note_text m) depth"
| "pm_observe_children ty (XElement el # cs) m depth =
     pm_observe_children ty cs
       (pm_observe el (entry_or_default ty (note_child (tag el)) m) (depth + 1)) depth"
| "pm_observe_children ty (XFragment _ # cs) m depth = pm_observe_children ty cs m depth"

definition pm_collect_node_types :: "fragment \<Rightarrow> type_map option" where
  "pm_collect_node_types fragment =
     (if \<not> pm_is_prosemirror_shaped fragment then None
      else Some (foldl (\<lambda>m node. case node of XElement e \<Rightarrow> pm_observe e m 0 | _ \<Rightarrow> m) [] fragment))"

end
