(* ===== verification/Lexical.thy ===== *)
theory Lexical
  imports Walker "HOL-Library.Word"
begin

text \<open>
  The crate \<open>lexical-html\<close> (\<open>src/ext/yrby/crates/lexical-html/src/lib.rs\<close>): HTML for
  Lexical documents.  Every function of the crate is a definition of the same name with
  the prefix \<open>lx_\<close>; a function that writes through \<open>&mut Emitter\<close> or \<open>&mut Vec<Work>\<close>
  takes the emitter or the stack and returns it.  The format bits of a run are a 32-bit
  word, as in the source.
\<close>

unbundle bit_operations_syntax

section \<open>Constants\<close>

type_synonym u32 = "32 word"

definition FMT_BOLD :: u32 where "FMT_BOLD = 1"
definition FMT_ITALIC :: u32 where "FMT_ITALIC = push_bit 1 1"
definition FMT_STRIKETHROUGH :: u32 where "FMT_STRIKETHROUGH = push_bit 2 1"
definition FMT_UNDERLINE :: u32 where "FMT_UNDERLINE = push_bit 3 1"
definition FMT_CODE :: u32 where "FMT_CODE = push_bit 4 1"
definition FMT_SUBSCRIPT :: u32 where "FMT_SUBSCRIPT = push_bit 5 1"
definition FMT_SUPERSCRIPT :: u32 where "FMT_SUPERSCRIPT = push_bit 6 1"
definition FMT_HIGHLIGHT :: u32 where "FMT_HIGHLIGHT = push_bit 7 1"

lemmas FMT_defs = FMT_BOLD_def FMT_ITALIC_def FMT_STRIKETHROUGH_def FMT_UNDERLINE_def
  FMT_CODE_def FMT_SUBSCRIPT_def FMT_SUPERSCRIPT_def FMT_HIGHLIGHT_def

definition MAX_BLOCK_DEPTH :: nat where "MAX_BLOCK_DEPTH = 1024"
definition MAX_INLINE_DEPTH :: nat where "MAX_INLINE_DEPTH = 1024"

section \<open>Escaping and attribute readers\<close>

definition lx_escape_text :: "string \<Rightarrow> string" where
  "lx_escape_text s =
     replace_char (CHR ''>'') ''&gt;''
       (replace_char (CHR ''<'') ''&lt;'' (replace_char (CHR ''&'') ''&amp;'' s))"

definition lx_escape_attr :: "string \<Rightarrow> string" where
  "lx_escape_attr s = replace_char (CHR 0x22) ''&quot;'' (lx_escape_text s)"

definition lx_node_type :: "xml_text \<Rightarrow> string" where
  "lx_node_type t =
     (case get_attribute (tx_attrs t) ''__type'' of Some (OAny (AString s)) \<Rightarrow> s | _ \<Rightarrow> [])"

definition lx_elem_type :: "xml_element \<Rightarrow> string" where
  "lx_elem_type e =
     (case get_attribute (el_attrs e) ''__type'' of Some (OAny (AString s)) \<Rightarrow> s | _ \<Rightarrow> [])"

definition lx_str_attr :: "xml_text \<Rightarrow> string \<Rightarrow> string option" where
  "lx_str_attr t name =
     (case get_attribute (tx_attrs t) name of Some (OAny (AString s)) \<Rightarrow> Some s | _ \<Rightarrow> None)"

definition lx_is_builtin :: "string \<Rightarrow> bool" where
  "lx_is_builtin ty = (ty \<in> set [''paragraph'', ''heading'', ''quote'', ''code'', ''list'',
     ''listitem'', ''table'', ''tablerow'', ''tablecell'', ''link'', ''autolink'', ''linebreak'',
     ''tab'', ''text'', ''horizontalrule''])"

definition lx_is_inline_type :: "string \<Rightarrow> bool" where
  "lx_is_inline_type ty = (ty \<in> set [''link'', ''autolink''])"

fun diff_texts :: "diff \<Rightarrow> xml_text list" where
  "diff_texts [] = []"
| "diff_texts ((OYXmlText child, _) # ds) = child # diff_texts ds"
| "diff_texts (_ # ds) = diff_texts ds"

definition lx_block_children :: "xml_text \<Rightarrow> xml_text list" where
  "lx_block_children t =
     filter (\<lambda>child. \<not> lx_is_inline_type (lx_node_type child)) (diff_texts (tx_diff t))"

fun diff_child_types :: "diff \<Rightarrow> string list" where
  "diff_child_types [] = []"
| "diff_child_types ((OYXmlText child, _) # ds) = lx_node_type child # diff_child_types ds"
| "diff_child_types ((OYXmlElement child, _) # ds) = lx_elem_type child # diff_child_types ds"
| "diff_child_types (_ # ds) = diff_child_types ds"

definition lx_text_child_types :: "xml_text \<Rightarrow> string list" where
  "lx_text_child_types t = diff_child_types (tx_diff t)"

section \<open>Text runs\<close>

definition lx_format_wrap :: "string \<Rightarrow> string \<Rightarrow> string option \<Rightarrow> string" where
  "lx_format_wrap inner t style =
     (case style of
        Some css \<Rightarrow>
          ''<'' @ t @ '' style='' @ dquote @ lx_escape_attr css @ dquote @ ''>'' @ inner @ ''</'' @ t @ ''>''
      | None \<Rightarrow> ''<'' @ t @ ''>'' @ inner @ ''</'' @ t @ ''>'')"

definition lx_style_step :: "string \<Rightarrow> string \<Rightarrow> string" where
  "lx_style_step css decl =
     (case split_once (CHR '':'') decl of
        None \<Rightarrow> css
      | Some (p, v) \<Rightarrow>
          let prop = trim p; value = trim v in
          if (prop = ''color'' \<or> prop = ''background-color'') \<and> value \<noteq> []
          then css @ prop @ '': '' @ value @ '';'' else css)"

definition lx_lexxy_style :: "string \<Rightarrow> string option" where
  "lx_lexxy_style style =
     (let css = foldl lx_style_step [] (split_char (CHR '';'') style)
      in if css = [] then None else Some css)"

definition has_bit :: "u32 \<Rightarrow> u32 \<Rightarrow> bool" where
  "has_bit format m = (format AND m \<noteq> 0)"

definition lx_outer_tag :: "u32 \<Rightarrow> string option" where
  "lx_outer_tag format =
     (if has_bit format FMT_CODE then Some ''code''
      else if has_bit format FMT_HIGHLIGHT then Some ''mark''
      else if has_bit format FMT_SUBSCRIPT then Some ''sub''
      else if has_bit format FMT_SUPERSCRIPT then Some ''sup''
      else None)"

definition lx_render_run :: "string \<Rightarrow> u32 \<Rightarrow> string \<Rightarrow> string" where
  "lx_render_run s format style =
     (let css = lx_lexxy_style style;
          outer = lx_outer_tag format;
          inner_style = (if outer = None then css else None);
          html0 = lx_escape_text s;
          html1 = (if has_bit format FMT_BOLD then lx_format_wrap html0 ''strong'' inner_style
                   else if has_bit format FMT_ITALIC then lx_format_wrap html0 ''em'' inner_style
                   else html0);
          html2 = (case outer of Some t \<Rightarrow> lx_format_wrap html1 t css | None \<Rightarrow> html1);
          html3 = (if has_bit format FMT_ITALIC \<and> has_bit format FMT_BOLD
                   then lx_format_wrap html2 ''i'' None else html2);
          html4 = (if has_bit format FMT_STRIKETHROUGH then lx_format_wrap html3 ''s'' None else html3)
      in if has_bit format FMT_UNDERLINE then lx_format_wrap html4 ''u'' None else html4)"

definition LX_LINK_SCHEMES :: "string list" where
  "LX_LINK_SCHEMES = [''http'', ''https'', ''mailto'', ''sms'', ''tel'']"

definition lx_safe_href :: "string \<Rightarrow> string" where
  "lx_safe_href url =
     (case url_scheme url of
        Some scheme \<Rightarrow> if scheme \<notin> set LX_LINK_SCHEMES then ''about:blank'' else url
      | None \<Rightarrow> url)"

section \<open>Rules\<close>

definition lx_push_attr :: "emitter \<Rightarrow> string \<Rightarrow> string \<Rightarrow> emitter" where
  "lx_push_attr em name value =
     em_push (push_str (push_str (push_str (em_push em '' '') name) (''='' @ dquote))
       (lx_escape_attr value)) dquote"

text \<open>The opening tag of a declarative rule and its template text, on the attributes of the
  node (a text block, an inline text node or a decorator element).\<close>

definition lx_rule_open ::
  "yrs \<Rightarrow> attr_list \<Rightarrow> string \<Rightarrow> (string \<times> template) list \<Rightarrow> emitter \<Rightarrow> emitter" where
  "lx_rule_open y node t attrs em =
     em_push
       (foldl (\<lambda>em (name, parts).
            case resolve_parts parts (xml_ref_attr y node) of
              Some value \<Rightarrow> lx_push_attr em name value
            | None \<Rightarrow> em)
          (push_str (em_push em ''<'') t) attrs)
       ''>''"

definition lx_rule_text :: "yrs \<Rightarrow> attr_list \<Rightarrow> template option \<Rightarrow> emitter \<Rightarrow> emitter" where
  "lx_rule_text y node txt em =
     (case txt of
        None \<Rightarrow> em
      | Some parts \<Rightarrow>
          (case resolve_parts parts (xml_ref_attr y node) of
             Some value \<Rightarrow> push_str em (lx_escape_text value)
           | None \<Rightarrow> em))"

definition lx_push_close :: "emitter \<Rightarrow> string \<Rightarrow> emitter" where
  "lx_push_close em t = em_push (push_str (push_str em ''</'') t) ''>''"

fun lx_render_rule_element ::
  "yrs \<Rightarrow> xml_element \<Rightarrow> string \<Rightarrow> node_rule \<Rightarrow> emitter \<Rightarrow> emitter" where
  "lx_render_rule_element y e ty (Callback _) em =
     emit_deferred em ty (xml_attrs_json y (el_attrs e)) [] []"
| "lx_render_rule_element y e ty (Declarative t void attrs txt _) em =
     (let em1 = lx_rule_open y (el_attrs e) t attrs em
      in if void then em1
         else lx_push_close (lx_rule_text y (el_attrs e) txt em1) t)"

definition lx_render_decorator :: "yrs \<Rightarrow> xml_element \<Rightarrow> emitter \<Rightarrow> rules \<Rightarrow> emitter" where
  "lx_render_decorator y e em rs =
     (let ty = lx_elem_type e
      in case hm_get (nodes rs) ty of
           Some rule \<Rightarrow> lx_render_rule_element y e ty rule em
         | None \<Rightarrow> if ty = ''horizontalrule'' then push_str em ''<hr>'' else em)"

section \<open>Inline content\<close>

text \<open>The loop variables of \<open>render_inline\<close>.\<close>

record inline_state =
  run_format :: u32
  run_style :: string
  is_tab :: bool

definition inline_start :: inline_state where
  "inline_start = \<lparr>run_format = 0, run_style = [], is_tab = False\<rparr>"

definition lx_map_format :: "(string \<times> out) list \<Rightarrow> u32" where
  "lx_map_format m =
     (case hm_get m ''__format'' of
        Some (OAny (ANumber (NInt n))) \<Rightarrow> word_of_int n
      | Some (OAny (ANumber (NFloat n))) \<Rightarrow> word_of_int (f64_as_u32 n)
      | _ \<Rightarrow> 0)"

definition lx_map_string :: "(string \<times> out) list \<Rightarrow> string \<Rightarrow> string" where
  "lx_map_string m k = (case hm_get m k of Some (OAny (AString s)) \<Rightarrow> s | _ \<Rightarrow> [])"

definition lx_meta_step ::
  "(string \<times> out) list \<Rightarrow> inline_state \<Rightarrow> emitter \<Rightarrow> inline_state \<times> emitter" where
  "lx_meta_step m st em =
     (let ty = lx_map_string m ''__type''
      in if ty = ''linebreak'' then (st, push_str em ''<br>'')
         else if ty = ''tab'' then (st\<lparr>is_tab := True, run_format := 0, run_style := []\<rparr>, em)
         else (st\<lparr>is_tab := False, run_format := lx_map_format m,
                  run_style := lx_map_string m ''__style''\<rparr>, em))"

definition lx_run_step :: "string \<Rightarrow> inline_state \<Rightarrow> emitter \<Rightarrow> inline_state \<times> emitter" where
  "lx_run_step s st em =
     (if is_tab st then (st\<lparr>is_tab := False\<rparr>, push_str em (''<span>'' @ [CHR 0x09] @ ''</span>''))
      else (st, push_str em (lx_render_run s (run_format st) (run_style st))))"

definition lx_link_open :: "xml_text \<Rightarrow> emitter \<Rightarrow> emitter" where
  "lx_link_open t em =
     (let em1 = push_str em ''<a'';
          em2 = (case lx_str_attr t ''__url'' of
                   Some url \<Rightarrow>
                     em_push (push_str (push_str em1 ('' href='' @ dquote))
                       (lx_escape_attr (lx_safe_href url))) dquote
                 | None \<Rightarrow> em1);
          em3 = (case lx_str_attr t ''__title'' of
                   Some title \<Rightarrow>
                     if title = [] then em2
                     else em_push (push_str (push_str em2 ('' title='' @ dquote))
                            (lx_escape_attr title)) dquote
                 | None \<Rightarrow> em2)
      in em_push em3 ''>'')"

function lx_render_inline ::
    "yrs \<Rightarrow> xml_text \<Rightarrow> nat \<Rightarrow> bool \<Rightarrow> emitter \<Rightarrow> rules \<Rightarrow> emitter"
  and lx_inline_loop ::
    "yrs \<Rightarrow> diff \<Rightarrow> nat \<Rightarrow> bool \<Rightarrow> inline_state \<Rightarrow> emitter \<Rightarrow> rules \<Rightarrow> emitter"
  and lx_inline_child :: "yrs \<Rightarrow> xml_text \<Rightarrow> nat \<Rightarrow> bool \<Rightarrow> emitter \<Rightarrow> rules \<Rightarrow> emitter"
  and lx_render_link :: "yrs \<Rightarrow> xml_text \<Rightarrow> nat \<Rightarrow> emitter \<Rightarrow> rules \<Rightarrow> emitter"
  and lx_render_rule_inline ::
    "yrs \<Rightarrow> xml_text \<Rightarrow> node_rule \<Rightarrow> nat \<Rightarrow> emitter \<Rightarrow> rules \<Rightarrow> emitter" where
  "lx_render_inline y (XmlText as ds) depth ruled em rs =
     lx_inline_loop y ds depth ruled inline_start em rs"
| "lx_inline_loop y [] depth ruled st em rs = em"
| "lx_inline_loop y ((v, _) # ds) depth ruled st em rs =
     (case v of
        OYMap m \<Rightarrow> (let (st', em') = lx_meta_step m st em in lx_inline_loop y ds depth ruled st' em' rs)
      | OAny (AString s) \<Rightarrow>
          (let (st', em') = lx_run_step s st em in lx_inline_loop y ds depth ruled st' em' rs)
      | OYXmlText child \<Rightarrow>
          lx_inline_loop y ds depth ruled st (lx_inline_child y child depth ruled em rs) rs
      | OYXmlElement e \<Rightarrow>
          lx_inline_loop y ds depth ruled st (lx_render_decorator y e em rs) rs
      | _ \<Rightarrow> lx_inline_loop y ds depth ruled st em rs)"
| "lx_inline_child y child depth ruled em rs =
     (let ty = lx_node_type child
      in if lx_is_inline_type ty then
           (case hm_get (nodes rs) ty of
              Some rule \<Rightarrow> lx_render_rule_inline y child rule depth em rs
            | None \<Rightarrow> lx_render_link y child depth em rs)
         else if ruled \<and> \<not> lx_is_builtin ty then
           (case hm_get (nodes rs) ty of
              Some rule \<Rightarrow> lx_render_rule_inline y child rule depth em rs
            | None \<Rightarrow>
                if depth < MAX_INLINE_DEPTH then lx_render_inline y child (depth + 1) ruled em rs
                else em)
         else em)"
| "lx_render_link y t depth em rs =
     (let em1 = lx_link_open t em;
          em2 = (if depth < MAX_INLINE_DEPTH then lx_render_inline y t (depth + 1) True em1 rs
                 else push_str em1 (lx_escape_text (text_string y t)))
      in push_str em2 ''</a>'')"
| "lx_render_rule_inline y t (Callback cont) depth em rs =
     (let em1 = begin_frame em;
          em2 = (if cont \<noteq> NoContent \<and> depth < MAX_INLINE_DEPTH
                 then lx_render_inline y t (depth + 1) True em1 rs else em1);
          (captured, em3) = end_frame em2
      in emit_deferred em3 (lx_node_type t) (xml_attrs_json y (tx_attrs t)) (lx_text_child_types t)
           captured)"
| "lx_render_rule_inline y t (Declarative tg void attrs txt cont) depth em rs =
     (let em1 = lx_rule_open y (tx_attrs t) tg attrs em
      in if void then em1
         else let em2 = lx_rule_text y (tx_attrs t) txt em1;
                  em3 = (if cont \<noteq> NoContent \<and> depth < MAX_INLINE_DEPTH
                         then lx_render_inline y t (depth + 1) True em2 rs else em2)
              in lx_push_close em3 tg)"
  by pat_completeness auto
termination
  by (relation "measure (\<lambda>x. case x of
        Inl (Inl (y, t, d, r, em, rs)) \<Rightarrow> 3 * size t
      | Inl (Inr (y, ds, d, r, st, em, rs)) \<Rightarrow> 3 * size_list (size_prod size (\<lambda>_. 0)) ds
      | Inr (Inl (y, t, d, r, em, rs)) \<Rightarrow> 3 * size t + 2
      | Inr (Inr (Inl (y, t, d, em, rs))) \<Rightarrow> 3 * size t + 1
      | Inr (Inr (Inr (y, t, rl, d, em, rs))) \<Rightarrow> 3 * size t + 1)") auto

section \<open>Blocks\<close>

definition lx_push_opens ::
  "xml_text list \<Rightarrow> nat \<Rightarrow> xml_text work list \<Rightarrow> xml_text work list" where
  "lx_push_opens cs depth stack = foldl (\<lambda>st child. Open child (depth + 1) # st) stack (rev cs)"

definition lx_push_block_children ::
  "xml_text \<Rightarrow> nat \<Rightarrow> string \<Rightarrow> bool \<Rightarrow> xml_text work list \<Rightarrow> xml_text work list" where
  "lx_push_block_children t depth close only_lists stack =
     (let stack' = Close close # stack
      in if depth \<ge> MAX_BLOCK_DEPTH then stack'
         else foldl (\<lambda>st child.
                if only_lists \<and> lx_node_type child \<noteq> ''list'' then st
                else Open child (depth + 1) # st) stack' (rev (lx_block_children t)))"

fun lx_open_rule_block ::
  "yrs \<Rightarrow> xml_text \<Rightarrow> node_rule \<Rightarrow> nat \<Rightarrow> emitter \<Rightarrow> xml_text work list \<Rightarrow> rules
     \<Rightarrow> emitter \<times> xml_text work list" where
  "lx_open_rule_block y t (Callback cont) depth em stack rs =
     (let em1 = begin_frame em;
          stack1 = EndDeferred (lx_node_type t) (xml_attrs_json y (tx_attrs t))
            (lx_text_child_types t) # stack
      in case cont of
           Inline \<Rightarrow> (lx_render_inline y t 0 True em1 rs, stack1)
         | Blocks \<Rightarrow> (lx_render_inline y t 0 False em1 rs,
                      foldl (\<lambda>st child. if depth < MAX_BLOCK_DEPTH then Open child (depth + 1) # st else st)
                        stack1 (rev (lx_block_children t)))
         | NoContent \<Rightarrow> (em1, stack1))"
| "lx_open_rule_block y t (Declarative tg void attrs txt cont) depth em stack rs =
     (let em1 = lx_rule_open y (tx_attrs t) tg attrs em
      in if void then (em1, stack)
         else let em2 = lx_rule_text y (tx_attrs t) txt em1
         in case cont of
              Inline \<Rightarrow> (lx_push_close (lx_render_inline y t 0 True em2 rs) tg, stack)
            | Blocks \<Rightarrow>
                (let stack1 = CloseOwned (''</'' @ tg @ ''>'') # stack
                 in (lx_render_inline y t 0 False em2 rs,
                     if depth < MAX_BLOCK_DEPTH
                     then lx_push_opens (lx_block_children t) depth stack1 else stack1))
            | NoContent \<Rightarrow> (lx_push_close em2 tg, stack))"

definition lx_open_listitem ::
  "yrs \<Rightarrow> xml_text \<Rightarrow> nat \<Rightarrow> emitter \<Rightarrow> xml_text work list \<Rightarrow> rules \<Rightarrow> emitter \<times> xml_text work list" where
  "lx_open_listitem y t depth em stack rs =
     (let value = (case get_attribute (tx_attrs t) ''__value'' of
             Some (OAny (ANumber (NInt n))) \<Rightarrow> n
           | Some (OAny (ANumber (NFloat n))) \<Rightarrow> f64_as_i64 n
           | _ \<Rightarrow> 1);
          checked = (case get_attribute (tx_attrs t) ''__checked'' of
             Some (OAny (ABool b)) \<Rightarrow> Some b | _ \<Rightarrow> None);
          em1 = push_str em ''<li'';
          em2 = (case checked of
             Some c \<Rightarrow>
               em_push (push_str (push_str em1 ('' aria-checked='' @ dquote))
                 (if c then ''true'' else ''false'')) dquote
           | None \<Rightarrow> em1);
          em3 = em_push (push_str (push_str em2 ('' value='' @ dquote)) (string_of_int value)) dquote;
          em4 = em_push em3 ''>''
      in (lx_render_inline y t 0 True em4 rs, lx_push_block_children t depth ''</li>'' True stack))"

text \<open>A container: its opening tag, its own inline content, its children on the stack.\<close>

definition lx_container ::
  "yrs \<Rightarrow> xml_text \<Rightarrow> nat \<Rightarrow> string \<Rightarrow> emitter \<Rightarrow> xml_text work list \<Rightarrow> rules
     \<Rightarrow> emitter \<times> xml_text work list" where
  "lx_container y t depth close em stack rs =
     (lx_render_inline y t 0 False em rs, lx_push_block_children t depth close False stack)"

definition lx_paragraph :: "yrs \<Rightarrow> xml_text \<Rightarrow> emitter \<Rightarrow> rules \<Rightarrow> emitter" where
  "lx_paragraph y t em rs =
     (let (inline, em1) = end_frame (lx_render_inline y t 0 True (begin_frame em) rs)
      in if inline = [] then push_str em1 ''<p><br></p>''
         else push_str (em_append (push_str em1 ''<p>'') inline) ''</p>'')"

definition lx_heading :: "yrs \<Rightarrow> xml_text \<Rightarrow> emitter \<Rightarrow> rules \<Rightarrow> emitter" where
  "lx_heading y t em rs =
     (let tg = (case lx_str_attr t ''__tag'' of
            Some tg \<Rightarrow> if tg \<in> set [''h1'', ''h2'', ''h3'', ''h4'', ''h5'', ''h6''] then tg else ''h1''
          | None \<Rightarrow> ''h1'');
          em1 = em_push (push_str (em_push em ''<'') tg) ''>''
      in em_push (push_str (push_str (lx_render_inline y t 0 True em1 rs) ''</'') tg) ''>'')"

definition lx_code :: "yrs \<Rightarrow> xml_text \<Rightarrow> emitter \<Rightarrow> rules \<Rightarrow> emitter" where
  "lx_code y t em rs =
     (let em1 = push_str em ''<pre'';
          em2 = (case lx_str_attr t ''__language'' of
                   Some lang \<Rightarrow>
                     if lang = [] then em1
                     else em_push (push_str (push_str em1 ('' data-language='' @ dquote))
                            (lx_escape_attr lang)) dquote
                 | None \<Rightarrow> em1)
      in push_str (lx_render_inline y t 0 True (em_push em2 ''>'') rs) ''</pre>'')"

definition lx_header_cell :: "xml_text \<Rightarrow> bool" where
  "lx_header_cell t =
     (case get_attribute (tx_attrs t) ''__headerState'' of
        Some (OAny (ANumber (NInt n))) \<Rightarrow> n > 0
      | Some (OAny (ANumber (NFloat n))) \<Rightarrow> f64_positive n
      | _ \<Rightarrow> False)"

definition lx_unknown_block ::
  "yrs \<Rightarrow> xml_text \<Rightarrow> nat \<Rightarrow> emitter \<Rightarrow> xml_text work list \<Rightarrow> rules \<Rightarrow> emitter \<times> xml_text work list" where
  "lx_unknown_block y t depth em stack rs =
     (if lx_block_children t \<noteq> [] then lx_container y t depth [] em stack rs
      else let (inline, em1) = end_frame (lx_render_inline y t 0 True (begin_frame em) rs)
           in if inline \<noteq> []
              then (push_str (em_append (push_str em1 ''<p>'') inline) ''</p>'', stack)
              else (em1, stack))"

definition lx_open_block ::
  "yrs \<Rightarrow> xml_text \<Rightarrow> nat \<Rightarrow> emitter \<Rightarrow> xml_text work list \<Rightarrow> rules \<Rightarrow> emitter \<times> xml_text work list" where
  "lx_open_block y t depth em stack rs =
     (let ty = lx_node_type t
      in case hm_get (nodes rs) ty of
        Some rule \<Rightarrow> lx_open_rule_block y t rule depth em stack rs
      | None \<Rightarrow>
          if ty = ''paragraph'' then (lx_paragraph y t em rs, stack)
          else if ty = ''heading'' then (lx_heading y t em rs, stack)
          else if ty = ''quote'' then
            (push_str (lx_render_inline y t 0 True (push_str em ''<blockquote>'') rs) ''</blockquote>'', stack)
          else if ty = ''code'' then (lx_code y t em rs, stack)
          else if ty = ''list'' then
            (let tg = (if lx_str_attr t ''__tag'' = Some ''ol'' then ''ol'' else ''ul'');
                 em1 = em_push (push_str (em_push em ''<'') tg) ''>''
             in lx_container y t depth (if tg = ''ol'' then ''</ol>'' else ''</ul>'') em1 stack rs)
          else if ty = ''listitem'' then lx_open_listitem y t depth em stack rs
          else if ty = ''table'' then
            lx_container y t depth ''</tbody></table>'' (push_str em ''<table><tbody>'') stack rs
          else if ty = ''tablerow'' then lx_container y t depth ''</tr>'' (push_str em ''<tr>'') stack rs
          else if ty = ''tablecell'' then
            (if lx_header_cell t then lx_container y t depth ''</th>'' (push_str em ''<th>'') stack rs
             else lx_container y t depth ''</td>'' (push_str em ''<td>'') stack rs)
          else lx_unknown_block y t depth em stack rs)"

text \<open>The loop over the work stack ends, as for ProseMirror.\<close>

lemma size_diff_texts [termination_simp]:
  "t \<in> set (diff_texts ds) \<Longrightarrow> size t < Suc (n + size_list (\<lambda>x. Suc (size (fst x))) ds)"
  by (induction ds rule: diff_texts.induct) auto

fun lx_weight :: "xml_text \<Rightarrow> nat" where
  "lx_weight (XmlText as ds) = 2 + sum_list (map lx_weight (diff_texts ds))"

lemma lx_weight_eq: "lx_weight t = 2 + sum_list (map lx_weight (diff_texts (tx_diff t)))"
  by (cases t) simp

lemma sum_list_filter_le: "sum_list (map f (filter P xs)) \<le> sum_list (map (f :: _ \<Rightarrow> nat) xs)"
  by (induction xs) auto

text \<open>The blocks a container pushes: all its block children, or the nested lists only.\<close>

definition lx_block_opens :: "xml_text \<Rightarrow> nat \<Rightarrow> bool \<Rightarrow> xml_text work list" where
  "lx_block_opens t d only_lists =
     (if d < MAX_BLOCK_DEPTH
      then opens (Suc d) (filter (\<lambda>c. only_lists \<longrightarrow> lx_node_type c = ''list'') (lx_block_children t))
      else [])"

lemma foldl_push_filter:
  "foldl (\<lambda>st c. if P c then st else f c # st) st (rev cs) = map f (filter (\<lambda>c. \<not> P c) cs) @ st"
  by (induction cs) auto

lemma foldl_id [simp]: "foldl (\<lambda>s x. s) s xs = s"
  by (induction xs) auto

lemma lx_push_block_children_eq:
  "lx_push_block_children t d close ol st = lx_block_opens t d ol @ Close close # st"
  by (simp add: lx_push_block_children_def lx_block_opens_def opens_def Let_def not_less
      foldl_push_filter)

lemma lx_push_opens_eq: "lx_push_opens cs d st = opens (Suc d) cs @ st"
  by (simp add: lx_push_opens_def opens_def foldl_push_rev)

lemma lx_push_rule_opens_eq:
  "foldl (\<lambda>st c. if d < MAX_BLOCK_DEPTH then Open c (d + 1) # st else st) st (rev (lx_block_children t))
     = lx_block_opens t d False @ st"
  by (simp add: lx_block_opens_def opens_def foldl_push_rev)

lemma lx_opens_blocks: "d < MAX_BLOCK_DEPTH \<Longrightarrow> opens (Suc d) (lx_block_children t) = lx_block_opens t d False"
  by (simp add: lx_block_opens_def)

lemma lx_no_opens: "\<not> d < MAX_BLOCK_DEPTH \<Longrightarrow> lx_block_opens t d l = []"
  by (simp add: lx_block_opens_def)

lemmas lx_stack_eqs = lx_push_block_children_eq lx_push_opens_eq lx_push_rule_opens_eq
  lx_container_def lx_open_listitem_def lx_unknown_block_def Let_def

lemma lx_open_rule_block_stack:
  "lx_open_rule_block y t r d em st rs =
     (let (em', ws) = lx_open_rule_block y t r d em [] rs in (em', ws @ st))"
  by (cases r) (auto simp: lx_stack_eqs split: content_kind.splits)

lemma lx_open_block_stack:
  "lx_open_block y t d em st rs = (let (em', ws) = lx_open_block y t d em [] rs in (em', ws @ st))"
proof (cases "hm_get (nodes rs) (lx_node_type t)")
  case None
  then show ?thesis
    by (auto simp: lx_open_block_def lx_stack_eqs split: prod.splits)
next
  case (Some r)
  then show ?thesis
    using lx_open_rule_block_stack [of y t r d em st rs] by (simp add: lx_open_block_def)
qed

lemma lx_block_opens_weight: "stack_weight lx_weight (lx_block_opens t d l) + 2 \<le> lx_weight t"
proof -
  have "sum_list (map lx_weight (filter P (lx_block_children t))) + 2 \<le> lx_weight t" for P
    unfolding lx_block_children_def lx_weight_eq [of t] filter_filter
    using sum_list_filter_le by (simp add: add.commute)
  then show ?thesis
    by (simp add: lx_block_opens_def lx_weight_eq [of t])
qed

lemma lx_open_rule_block_weight:
  "stack_weight lx_weight (snd (lx_open_rule_block y t r d em [] rs)) < lx_weight t"
  using lx_block_opens_weight [of t d False]
  by (cases r) (auto simp: lx_stack_eqs lx_opens_blocks lx_no_opens split: content_kind.splits)

lemma lx_open_block_weight:
  "stack_weight lx_weight (snd (lx_open_block y t d em [] rs)) < lx_weight t"
proof (cases "hm_get (nodes rs) (lx_node_type t)")
  case None
  have "0 < lx_weight t" "stack_weight lx_weight (lx_block_opens t d l) + 1 < lx_weight t" for l
    using lx_block_opens_weight [of t d l] by simp_all
  with None show ?thesis
    by (auto simp: lx_open_block_def lx_stack_eqs split: prod.splits)
next
  case (Some r)
  then show ?thesis
    using lx_open_rule_block_weight by (simp add: lx_open_block_def)
qed

function lx_run :: "yrs \<Rightarrow> rules \<Rightarrow> emitter \<Rightarrow> xml_text work list \<Rightarrow> emitter" where
  "lx_run y rs em [] = em"
| "lx_run y rs em (Close t # stack) = lx_run y rs (push_str em t) stack"
| "lx_run y rs em (CloseOwned t # stack) = lx_run y rs (push_str em t) stack"
| "lx_run y rs em (EndDeferred nt aj ct # stack) =
     (let (content, em') = end_frame em in lx_run y rs (emit_deferred em' nt aj ct content) stack)"
| "lx_run y rs em (Open node depth # stack) =
     (let (em', stack') = lx_open_block y node depth em stack rs in lx_run y rs em' stack')"
  by pat_completeness auto
termination
proof (relation "measure (\<lambda>(y, rs, em, st). stack_weight lx_weight st)", goal_cases)
  case (5 y rs em t d st r em' st')
  then have "snd (lx_open_block y t d em st rs) = snd (lx_open_block y t d em [] rs) @ st"
    by (subst lx_open_block_stack) (simp split: prod.splits)
  with 5 lx_open_block_weight [of y t d em rs] show ?case
    by (metis add_less_mono1 case_prod_conv in_measure snd_conv stack_weight_simps(2,3)
        work_weight.simps(1))
qed auto

definition lx_render_block_tree :: "yrs \<Rightarrow> xml_text \<Rightarrow> emitter \<Rightarrow> rules \<Rightarrow> emitter" where
  "lx_render_block_tree y root em rs = lx_run y rs em [Open root 0]"

section \<open>Documents\<close>

fun lx_typed :: "xml_out \<Rightarrow> bool" where
  "lx_typed (XText t) = (get_attribute (tx_attrs t) ''__type'' \<noteq> None)"
| "lx_typed (XElement e) = (get_attribute (el_attrs e) ''__type'' \<noteq> None)"
| "lx_typed (XFragment f) = False"

definition lx_is_lexical_shaped :: "fragment \<Rightarrow> bool" where
  "lx_is_lexical_shaped fragment = (list_ex lx_typed fragment \<or> fragment = [])"

fun lx_render_node :: "yrs \<Rightarrow> rules \<Rightarrow> emitter \<Rightarrow> xml_out \<Rightarrow> emitter" where
  "lx_render_node y rs em (XText t) = lx_render_block_tree y t em rs"
| "lx_render_node y rs em (XElement e) = lx_render_decorator y e em rs"
| "lx_render_node y rs em (XFragment f) = push_str em (lx_escape_text (fragment_string y f))"

text \<open>\<open>None\<close> when the root is not Lexical-shaped; otherwise the flag of \<open>into_segments\<close>
  (no panic and balanced frames) and the segments.\<close>

definition lx_render_segments :: "yrs \<Rightarrow> fragment \<Rightarrow> rules \<Rightarrow> (bool \<times> segment list) option" where
  "lx_render_segments y fragment rs =
     (if \<not> lx_is_lexical_shaped fragment then None
      else Some (into_segments (foldl (lx_render_node y rs) em_new fragment)))"

text \<open>The inner option is the \<open>expect\<close> of the source: \<open>None\<close> would be a panic.\<close>

definition lx_render :: "yrs \<Rightarrow> fragment \<Rightarrow> string option option" where
  "lx_render y fragment =
     map_option (\<lambda>(fine, segs). if fine then into_html (flatten segs) else None)
       (lx_render_segments y fragment rules_empty)"

section \<open>Observed node types\<close>

definition lx_observe_element :: "xml_element \<Rightarrow> type_map \<Rightarrow> type_map" where
  "lx_observe_element e m =
     entry_or_default (lx_elem_type e) (count_type (\<lambda>key. key \<noteq> ''__type'') (el_attrs e)) m"

text \<open>The first loop over the runs of a block: it notes text and child types and observes
  the decorators; the text children follow in a second loop.\<close>

fun lx_observe_runs :: "string \<Rightarrow> diff \<Rightarrow> type_map \<Rightarrow> type_map" where
  "lx_observe_runs ty [] m = m"
| "lx_observe_runs ty ((OAny (AString _), _) # ds) m =
     lx_observe_runs ty ds (entry_or_default ty note_text m)"
| "lx_observe_runs ty ((OYXmlText child, _) # ds) m =
     lx_observe_runs ty ds (entry_or_default ty (note_child (lx_node_type child)) m)"
| "lx_observe_runs ty ((OYXmlElement child, _) # ds) m =
     lx_observe_runs ty ds
       (lx_observe_element child (entry_or_default ty (note_child (lx_elem_type child)) m))"
| "lx_observe_runs ty (_ # ds) m = lx_observe_runs ty ds m"

function lx_observe_text_node :: "xml_text \<Rightarrow> type_map \<Rightarrow> nat \<Rightarrow> type_map" where
  "lx_observe_text_node t m depth =
     (let ty = lx_node_type t;
          m1 = entry_or_default ty (count_type (\<lambda>key. key \<noteq> ''__type'') (tx_attrs t)) m
      in if depth \<ge> MAX_BLOCK_DEPTH then m1
         else fold (\<lambda>child m. lx_observe_text_node child m (depth + 1)) (diff_texts (tx_diff t))
                (lx_observe_runs ty (tx_diff t) m1))"
  by pat_completeness auto
termination
proof (relation "measure (\<lambda>(t, m, d). size t)", goal_cases)
  case (2 t m d ty m1 child m')
  have "size_prod size (\<lambda>_. 0) = (\<lambda>x :: out \<times> run_attrs option. Suc (size (fst x)))"
    by (auto simp: fun_eq_iff)
  with 2 size_diff_texts [of child "tx_diff t"] show ?case by (cases t) auto
qed auto

definition lx_collect_node_types :: "fragment \<Rightarrow> type_map option" where
  "lx_collect_node_types fragment =
     (if \<not> lx_is_lexical_shaped fragment then None
      else Some (foldl (\<lambda>m node. case node of
            XText t \<Rightarrow> lx_observe_text_node t m 0
          | XElement e \<Rightarrow> lx_observe_element e m
          | XFragment _ \<Rightarrow> m) [] fragment))"

end
