(* ===== verification/RubyBindings.thy ===== *)
theory RubyBindings
  imports SharedValues ProseMirror Lexical
begin

text \<open>
  The parts of \<open>src/ext/yrby/src/lib.rs\<close> and \<open>src/ext/yrby/src/shared.rs\<close> between the
  renderers and Ruby: a render's result as a Ruby value, the native renderer classes, the
  relative positions editors carry in awareness, and JSON values.  \<open>try_string\<close> is
  magnus's conversion of an argument to a String.
\<close>

datatype bind_error =
  ArgumentCount nat | Conversion | BadRules rule_error | MissingField string | Interrupted string

section \<open>Rendered segments\<close>

fun segment_to_ruby :: "segment \<Rightarrow> rvalue" where
  "segment_to_ruby (Html s) = RString s"
| "segment_to_ruby (Deferred nt aj ct cont) =
     RArray [RString nt, RString aj, RArray (map segment_to_ruby cont), RArray (map RString ct)]"

definition segments_to_ruby :: "segment list \<Rightarrow> rvalue" where
  "segments_to_ruby segs = RArray (map segment_to_ruby segs)"

definition segments_result :: "segment list option \<Rightarrow> rvalue" where
  "segments_result segments =
     (case segments of
        None \<Rightarrow> RNil
      | Some segs \<Rightarrow>
          (case flatten segs of FHtml html \<Rightarrow> RString html | FDeferred segs' \<Rightarrow> segments_to_ruby segs'))"

definition root_name_arg ::
  "(rvalue \<Rightarrow> string option) \<Rightarrow> rvalue list \<Rightarrow> string \<Rightarrow> bind_error + string" where
  "root_name_arg try_string args dflt =
     (if length args > 1 then Inl (ArgumentCount (length args))
      else case args of
          arg # _ \<Rightarrow> (case try_string arg of Some s \<Rightarrow> Inr s | None \<Rightarrow> Inl Conversion)
        | [] \<Rightarrow> Inr dflt)"

definition parse_rules :: "(string \<Rightarrow> string + json) \<Rightarrow> string \<Rightarrow> bind_error + rules" where
  "parse_rules from_str js = map_sum BadRules id (rules_parse from_str js)"

text \<open>\<open>root\<close> looks a fragment up in the document.  A render that panicked would raise; that
  it does not is the renderers' theorem.\<close>

definition lexical_to_html ::
  "yrs \<Rightarrow> (rvalue \<Rightarrow> string option) \<Rightarrow> (string \<Rightarrow> fragment option) \<Rightarrow> rules
     \<Rightarrow> string option \<Rightarrow> rvalue list \<Rightarrow> bind_error + rvalue" where
  "lexical_to_html y try_string root rs intr args =
     bind_sum (root_name_arg try_string args ''root'') (\<lambda>name.
     bind_sum (map_sum Interrupted id (nogvl intr
         (Option.bind (root name) (\<lambda>fragment. map_option snd (lx_render_segments y fragment rs))))) (\<lambda>segments.
       Inr (segments_result segments)))"

definition prosemirror_to_html ::
  "yrs \<Rightarrow> (rvalue \<Rightarrow> string option) \<Rightarrow> (string \<Rightarrow> fragment option) \<Rightarrow> rules
     \<Rightarrow> string option \<Rightarrow> rvalue list \<Rightarrow> bind_error + rvalue" where
  "prosemirror_to_html y try_string root rs intr args =
     bind_sum (root_name_arg try_string args ''default'') (\<lambda>name.
     bind_sum (map_sum Interrupted id (nogvl intr
         (Option.bind (root name) (\<lambda>fragment. map_option snd (pm_render_segments y fragment rs))))) (\<lambda>segments.
       Inr (segments_result segments)))"

text \<open>How a node type is handled: by a rule, by the built-in arms, or not.\<close>

definition lexical_handled :: "rules \<Rightarrow> string \<Rightarrow> string option" where
  "lexical_handled rs ty =
     (if hm_contains (nodes rs) ty then Some ''rule''
      else if lx_is_builtin ty then Some ''builtin'' else None)"

definition prosemirror_handled :: "rules \<Rightarrow> string \<Rightarrow> string option" where
  "prosemirror_handled rs ty =
     (if hm_contains (nodes rs) ty then Some ''rule''
      else if pm_is_builtin ty then Some ''builtin'' else None)"

definition lexical_node_types ::
  "(rvalue \<Rightarrow> string option) \<Rightarrow> (string \<Rightarrow> fragment option) \<Rightarrow> rules
     \<Rightarrow> string option \<Rightarrow> rvalue list \<Rightarrow> bind_error + json option" where
  "lexical_node_types try_string root rs intr args =
     bind_sum (root_name_arg try_string args ''root'') (\<lambda>name.
     bind_sum (map_sum Interrupted id (nogvl intr (Option.bind (root name) lx_collect_node_types))) (\<lambda>m.
       Inr (map_option (\<lambda>m. type_map_json m (lexical_handled rs)) m)))"

definition prosemirror_node_types ::
  "(rvalue \<Rightarrow> string option) \<Rightarrow> (string \<Rightarrow> fragment option) \<Rightarrow> rules
     \<Rightarrow> string option \<Rightarrow> rvalue list \<Rightarrow> bind_error + json option" where
  "prosemirror_node_types try_string root rs intr args =
     bind_sum (root_name_arg try_string args ''default'') (\<lambda>name.
     bind_sum (map_sum Interrupted id (nogvl intr (Option.bind (root name) pm_collect_node_types))) (\<lambda>m.
       Inr (map_option (\<lambda>m. type_map_json m (prosemirror_handled rs)) m)))"

section \<open>Positions\<close>

record block_id =
  id_client :: nat
  id_clock :: nat

datatype index_scope = Relative block_id | Nested block_id | Root string

text \<open>\<open>Before\<close> is \<open>-1\<close> and \<open>After\<close> is \<open>0\<close> in yrs.\<close>

datatype assoc = Before | After

record position =
  pos_scope :: index_scope
  pos_assoc :: assoc

fun assoc_int :: "assoc \<Rightarrow> int" where
  "assoc_int Before = -1"
| "assoc_int After = 0"

type_synonym rhash = "(rvalue \<times> rvalue) list"

definition aset :: "string \<Rightarrow> rvalue \<Rightarrow> rhash \<Rightarrow> rhash" where
  "aset k v h = AList.update (RString k) v h"

definition id_to_ruby :: "block_id \<Rightarrow> rvalue" where
  "id_to_ruby i = RHash (aset ''clock'' (RInteger (int (id_clock i)))
     (aset ''client'' (RInteger (int (id_client i))) []))"

definition position_to_ruby :: "position \<Rightarrow> rhash" where
  "position_to_ruby p =
     (let h = aset ''item'' RNil (aset ''tname'' RNil (aset ''type'' RNil []));
          h' = (case pos_scope p of
                  Relative item \<Rightarrow> aset ''item'' (id_to_ruby item) h
                | Nested ty \<Rightarrow> aset ''type'' (id_to_ruby ty) h
                | Root name \<Rightarrow> aset ''tname'' (RString name) h)
      in aset ''assoc'' (RInteger (assoc_int (pos_assoc p))) h')"

definition hash_get :: "rhash \<Rightarrow> string \<Rightarrow> rvalue option" where
  "hash_get h key =
     (case (case map_of h (RSymbol key) of Some v \<Rightarrow> Some v | None \<Rightarrow> map_of h (RString key)) of
        Some RNil \<Rightarrow> None
      | r \<Rightarrow> r)"

text \<open>\<open>TryConvert\<close> to an integer type with the given bounds; \<open>to_int\<close> is Ruby's implicit conversion of
  an object that is not an Integer.\<close>

definition try_int :: "(rvalue \<Rightarrow> int option) \<Rightarrow> int \<Rightarrow> int \<Rightarrow> rvalue \<Rightarrow> bind_error + int" where
  "try_int to_int lo hi v =
     (case (case v of RInteger i \<Rightarrow> Some i | _ \<Rightarrow> to_int v) of
        Some i \<Rightarrow> if lo \<le> i \<and> i \<le> hi then Inr i else Inl Conversion
      | None \<Rightarrow> Inl Conversion)"

definition ok_or :: "'e \<Rightarrow> 'a option \<Rightarrow> 'e + 'a" where
  "ok_or e r = (case r of Some x \<Rightarrow> Inr x | None \<Rightarrow> Inl e)"

text \<open>The closure \<open>id_of\<close> of \<open>sticky_from_ruby\<close>.\<close>

definition id_of :: "(rvalue \<Rightarrow> int option) \<Rightarrow> rhash \<Rightarrow> string \<Rightarrow> bind_error + block_id option" where
  "id_of to_int position key =
     (case hash_get position key of
        None \<Rightarrow> Inr None
      | Some v \<Rightarrow>
          bind_sum (case v of RHash h \<Rightarrow> Inr h | _ \<Rightarrow> Inl (MissingField key)) (\<lambda>h.
          bind_sum (ok_or (MissingField ''client'') (hash_get h ''client'')) (\<lambda>cv.
          bind_sum (try_int to_int 0 (2 ^ 64 - 1) cv) (\<lambda>client.
          bind_sum (ok_or (MissingField ''clock'') (hash_get h ''clock'')) (\<lambda>kv.
          bind_sum (try_int to_int 0 u32_max kv) (\<lambda>clock.
            Inr (Some \<lparr>id_client = nat client, id_clock = nat clock\<rparr>)))))))"

definition sticky_from_ruby ::
  "(rvalue \<Rightarrow> int option) \<Rightarrow> (rvalue \<Rightarrow> string option) \<Rightarrow> rhash \<Rightarrow> bind_error + position" where
  "sticky_from_ruby to_int try_string position =
     bind_sum (case hash_get position ''assoc'' of
         Some v \<Rightarrow> map_sum id (\<lambda>n. if n < 0 then Before else After) (try_int to_int i64_min i64_max v)
       | None \<Rightarrow> Inr After) (\<lambda>assoc.
     bind_sum (id_of to_int position ''item'') (\<lambda>item.
       case item of
         Some i \<Rightarrow> Inr \<lparr>pos_scope = Relative i, pos_assoc = assoc\<rparr>
       | None \<Rightarrow>
           bind_sum (id_of to_int position ''type'') (\<lambda>ty.
             case ty of
               Some i \<Rightarrow> Inr \<lparr>pos_scope = Nested i, pos_assoc = assoc\<rparr>
             | None \<Rightarrow>
                 (case hash_get position ''tname'' of
                    Some v \<Rightarrow>
                      bind_sum (ok_or Conversion (try_string v)) (\<lambda>name.
                        Inr \<lparr>pos_scope = Root name, pos_assoc = assoc\<rparr>)
                  | None \<Rightarrow> Inl (MissingField ''item, type, or tname'')))))"

section \<open>JSON\<close>

text \<open>An integer of \<open>serde_json\<close> is in the range of an \<open>i64\<close> or a \<open>u64\<close>.\<close>

fun json_to_ruby :: "json \<Rightarrow> rvalue" where
  "json_to_ruby JNull = RNil"
| "json_to_ruby (JBool b) = (if b then RTrue else RFalse)"
| "json_to_ruby (JNumber (JInt i)) = RInteger i"
| "json_to_ruby (JNumber (JFloat f)) = RFloat f"
| "json_to_ruby (JString s) = RString s"
| "json_to_ruby (JArray xs) = RArray (map json_to_ruby xs)"
| "json_to_ruby (JObject kvs) = RHash (map (\<lambda>(k, v). (RString k, json_to_ruby v)) kvs)"

section \<open>Round trip of positions\<close>

definition id_fits :: "block_id \<Rightarrow> bool" where
  "id_fits i \<longleftrightarrow> int (id_client i) < 2 ^ 64 \<and> int (id_clock i) \<le> u32_max"

definition scope_fits :: "index_scope \<Rightarrow> bool" where
  "scope_fits s = (case s of Relative i \<Rightarrow> id_fits i | Nested i \<Rightarrow> id_fits i | Root _ \<Rightarrow> True)"

lemma hash_get_id:
  "hash_get (aset ''clock'' (RInteger k) (aset ''client'' (RInteger c) [])) ''client'' = Some (RInteger c)"
  "hash_get (aset ''clock'' (RInteger k) (aset ''client'' (RInteger c) [])) ''clock'' = Some (RInteger k)"
  by (simp_all add: hash_get_def aset_def)

lemma id_of_ruby:
  "hash_get h key = Some (id_to_ruby i) \<Longrightarrow> id_fits i \<Longrightarrow> id_of to_int h key = Inr (Some i)"
  by (simp add: id_of_def id_to_ruby_def hash_get_id ok_or_def try_int_def id_fits_def)

lemma id_to_ruby_not_nil: "id_to_ruby i \<noteq> RNil"
  by (simp add: id_to_ruby_def)

lemma hash_get_position:
  "hash_get (position_to_ruby p) ''assoc'' = Some (RInteger (assoc_int (pos_assoc p)))"
  "hash_get (position_to_ruby p) ''item'' = (case pos_scope p of Relative i \<Rightarrow> Some (id_to_ruby i) | _ \<Rightarrow> None)"
  "hash_get (position_to_ruby p) ''type'' = (case pos_scope p of Nested i \<Rightarrow> Some (id_to_ruby i) | _ \<Rightarrow> None)"
  "hash_get (position_to_ruby p) ''tname'' = (case pos_scope p of Root n \<Rightarrow> Some (RString n) | _ \<Rightarrow> None)"
  by (cases "pos_scope p"; simp add: hash_get_def aset_def position_to_ruby_def id_to_ruby_def)+

lemma position_round_trip:
  assumes "scope_fits (pos_scope p)" and "\<And>s. try_string (RString s) = Some s"
  shows "sticky_from_ruby to_int try_string (position_to_ruby p) = Inr p"
proof -
  let ?h = "position_to_ruby p"
  have none: "hash_get ?h k = None \<Longrightarrow> id_of to_int ?h k = Inr None" for k
    by (simp add: id_of_def)
  have assoc: "map_sum id (\<lambda>n. if n < 0 then Before else After)
      (try_int to_int i64_min i64_max (RInteger (assoc_int (pos_assoc p)))) = Inr (pos_assoc p)"
    by (cases "pos_assoc p") (simp_all add: try_int_def i64_min_def i64_max_def)
  have "id_of to_int ?h ''item'' = Inr (case pos_scope p of Relative i \<Rightarrow> Some i | _ \<Rightarrow> None)"
    "id_of to_int ?h ''type'' = Inr (case pos_scope p of Nested i \<Rightarrow> Some i | _ \<Rightarrow> None)"
    using assms(1) by (cases "pos_scope p"; simp add: id_of_ruby none hash_get_position scope_fits_def)+
  then show ?thesis
    using assms(2) assoc
    by (cases "pos_scope p"; cases p) (simp_all add: sticky_from_ruby_def hash_get_position ok_or_def)
qed

end
