(* ===== verification/ValueProps.thy ===== *)
theory ValueProps
  imports SharedIndex RubyBindings
begin

text \<open>
  What reading and writing values guarantees: JSON that depends on nothing but the content,
  the lines of a root's text, the translation of character indexes, values crossing between
  Ruby and a document, and positions coming back from Ruby.
\<close>

text \<open>C33. The JSON of a map root does not depend on the order in which hash maps iterate: two maps
  with the same keys and, key by key, values that differ only in that order, through maps and arrays
  nested to any depth, have the same JSON.  Text and XML values enter as the strings yrs renders for
  them, and count as the same when those are.\<close>

theorem map_json_order_free:
  assumes "distinct (map fst m)" and "distinct (map fst n)" and "fst ` set m = fst ` set n"
    and "\<And>k a b. (k, a) \<in> set m \<Longrightarrow> (k, b) \<in> set n \<Longrightarrow> same_out y a b"
  shows "rd_map_json y m = rd_map_json y n"
  unfolding rd_map_json_def
  by (rule rd_any_to_json_same [OF same_any_entries [OF assms(1-3)]])
    (use assms(4) rd_out_to_any_same in blast)

theorem map_json_order_free_witness:
  "rd_map_json plain_yrs [(''b'', OYMap [(''x'', OOther), (''a'', OYText [])]), (''a'', OYArray [OYMap [(''k'', OOther), (''j'', OOther)]])]
    = rd_map_json plain_yrs [(''a'', OYArray [OYMap [(''j'', OOther), (''k'', OOther)]]), (''b'', OYMap [(''a'', OYText []), (''x'', OOther)])]"
proof (rule map_json_order_free)
  show "same_out plain_yrs v w"
    if "(k, v) \<in> set [(''b'', OYMap [(''x'', OOther), (''a'', OYText [])]), (''a'', OYArray [OYMap [(''k'', OOther), (''j'', OOther)]])]"
      "(k, w) \<in> set [(''a'', OYArray [OYMap [(''j'', OOther), (''k'', OOther)]]), (''b'', OYMap [(''a'', OYText []), (''x'', OOther)])]" for k v w
    using that by (auto intro!: same_out.same same_out.ymap same_out.yarray)
qed auto

text \<open>That is as far as it goes: the JSON of an XML value is the string yrs renders, so where yrs renders
  an element's attributes in the order of their hash map, the JSON follows that order.\<close>

lemma map_json_follows_rendering:
  assumes "inj (\<lambda>s. any_to_json y (AString s))"
  shows "rd_map_json y [(k, OYXmlElement e)] = rd_map_json y [(k, OYXmlElement f)] \<longleftrightarrow> element_string y e = element_string y f"
proof -
  have "(any_to_json y (AString s) = any_to_json y (AString t)) = (s = t)" for s t
    using inj_eq [OF assms, of s t] .
  then show ?thesis by (simp add: rd_map_json_def hm_collect_def rd_scalar_json_def)
qed

text \<open>C34. The text of an XML root is one line per leaf block: for each child of the root, the non-empty
  runs between block boundaries of an independent layout - text, the caption of a decorator outside
  inline nodes, a character for a line break or tab - in document order, and nothing of a layout is
  lost or added.  A decorator inside a link, mark or other inline node shows nothing, one at the root
  its caption, and an element that is no Lexical node what yrs renders for it.\<close>

theorem block_lines_exact:
  "rd_xml_blocks_text y fragment = join [CHR 0x0A] (concat (map (root_lines y) fragment))
   \<and> rd_walk_lexical_block t out = out @ filter (\<lambda>l. l \<noteq> []) (rd_groups [] (laid_out False t))
   \<and> concat (rd_walk_lexical_block t []) = concat (map (case_option [] id) (laid_out False t))"
  by (simp add: rd_xml_blocks_text_def rd_xml_lines rd_walk_groups concat_nonempty rd_groups_concat)

text \<open>C35. A character index in range survives the translation to document units and back, and
  translates to the units of the characters before it.\<close>

theorem char_unit_round_trip:
  assumes "n \<le> char_len seq"
  shows "to_chars seq (to_units seq n) = n \<and> to_units seq n = sum_list (take n (widths seq))"
  using assms cover_prefix [of "widths seq" n] widths_pos
  by (simp add: to_chars_widths to_units_widths char_len_widths min_def)

definition accented :: diff where
  "accented = [(OAny (AString [CHR ''a'', CHR 0xF0, CHR 0x9F, CHR 0x98, CHR 0x80]), None), (OOther, None)]"

lemma accented_widths: "widths accented = [1, 2, 1]"
  by (simp add: accented_def widths_def pieces_def is_cont_byte_def len_utf16_def code_point_def)

theorem char_unit_round_trip_witness:
  "to_chars accented (to_units accented 2) = 2 \<and> to_units accented 2 = 3"
proof -
  have "to_units accented 2 = 3" by (simp add: to_units_widths accented_widths numeral_2_eq_2)
  with char_unit_round_trip [of 2 accented] show ?thesis by (simp add: char_len_widths accented_widths)
qed

text \<open>A unit index translates to the least character index that covers it: an index in
  the middle of a surrogate pair rounds up to the end of its character.\<close>

theorem units_to_chars_least:
  assumes "u \<le> to_units seq (char_len seq)"
  shows "u \<le> to_units seq (to_chars seq u) \<and> (\<forall>m. u \<le> to_units seq m \<longrightarrow> to_chars seq u \<le> m)"
  using assms cover_reaches [of u "widths seq"] cover_least [of _ "widths seq" u]
  by (simp add: to_chars_widths to_units_widths char_len_widths) (meson not_le)

theorem units_to_chars_least_witness:
  "2 \<le> to_units accented (to_chars accented 2) \<and> to_chars accented 2 \<le> 2"
proof -
  have "to_units accented 2 = 3" "to_units accented (char_len accented) = 4"
    by (simp_all add: to_units_widths char_len_widths accented_widths numeral_2_eq_2)
  with units_to_chars_least [of 2 accented] show ?thesis by auto
qed

text \<open>The shortcut for the index -1 changes nothing: when yrs's length of the sequence is
  the number of its units, inserting at -1 is inserting after the last character, and every
  index translates to a unit index within the sequence.\<close>

theorem append_is_end:
  assumes "seq_len seq = sum_list (widths seq)"
  shows "end_or_units seq_len seq index = to_units seq (insert_index index (char_len seq))
    \<and> end_or_units seq_len seq index \<le> seq_len seq"
proof -
  have "insert_index (-1) (char_len seq) = char_len seq"
    by (simp add: insert_index_def Let_def clamp_def)
  moreover have "to_units seq n \<le> sum_list (widths seq)" for n
    using sum_list_take_mono [of n "max n (length (widths seq))" "widths seq"] by (simp add: to_units_widths)
  ultimately show ?thesis
    using assms by (simp add: end_or_units_def to_units_widths char_len_widths)
qed

theorem append_is_end_witness:
  "end_or_units (\<lambda>s. sum_list (widths s)) accented (-2) = to_units accented 2
    \<and> end_or_units (\<lambda>s. sum_list (widths s)) accented (-2) \<le> 4"
proof -
  have "insert_index (-2) (char_len accented) = 2"
    by (simp add: char_len_widths accented_widths insert_index_def clamp_def)
  with append_is_end [of "\<lambda>s. sum_list (widths s)" accented "-2"] show ?thesis
    by (simp add: accented_widths)
qed

text \<open>\<open>embedded_xml_text_index\<close> finds block \<open>n\<close> of a block exactly when there is one:
  the index is the units before that block, and a number past the last block gives none.\<close>

theorem embedded_found:
  assumes "n < length (embedded_xml_texts parent)"
  shows "(\<exists>pre post. pieces (tx_diff parent) = pre @ OYXmlText (embedded_xml_texts parent ! n) # post
      \<and> length (xml_texts_of pre) = n
      \<and> embedded_xml_text_index parent n = Some (sum_list (concat (map piece_widths pre))))
    \<and> embedded_xml_text_index parent (length (embedded_xml_texts parent) + k) = None"
proof -
  obtain pre post where p: "pieces (tx_diff parent) = pre @ OYXmlText (embedded_xml_texts parent ! n) # post"
    "length (xml_texts_of pre) = n"
    using xml_texts_of_nth [of n "pieces (tx_diff parent)"] assms unfolding embedded_xml_texts_def by blast
  have "embedded_xml_text_index parent n = Some (sum_list (concat (map piece_widths pre)))"
    unfolding embedded_xml_text_index_def p(1)
    using embedded_loop_found [of pre "embedded_xml_texts parent ! n" post 0 0] p(2) by simp
  moreover have "embedded_xml_text_index parent (length (embedded_xml_texts parent) + k) = None"
    unfolding embedded_xml_text_index_def embedded_xml_texts_def by (rule embedded_loop_missing) simp
  ultimately show ?thesis using p by blast
qed

theorem embedded_found_witness:
  "embedded_xml_text_index (XmlText [] (accented @ [(OYXmlText (XmlText [] []), None)])) 1 = None"
  using embedded_found [of 0 "XmlText [] (accented @ [(OYXmlText (XmlText [] []), None)])" 0]
  by (simp add: embedded_xml_texts_def pieces_def accented_def)

text \<open>What \<open>ruby_to_invalue\<close> accepts nests at most \<open>MAX_NESTING\<close> levels, and a Ruby value
  it is given is always answered: the conversion ends on every value, cyclic ones included.\<close>

theorem nesting_bounded:
  assumes "ruby_to_invalue to_s v = Inr i"
  shows "any_depth (invalue_to_any i) \<le> MAX_NESTING"
  using invalue_at_nesting(1) [of to_s v 0 i] assms by (simp add: ruby_to_invalue_def)

theorem nesting_bounded_witness:
  "any_depth (AMap [(''a'', AArray [ABool True])]) \<le> MAX_NESTING"
proof -
  have "ruby_to_invalue (\<lambda>_. Inl ToSFailed) (RHash [(RString ''a'', RArray [RTrue])])
      = Inr (IMap [(''a'', IAny (AArray [ABool True]))])"
    by (simp add: ruby_to_invalue_def invalue_at.simps key_to_string_def MAX_NESTING_def)
  from nesting_bounded [OF this] show ?thesis by (simp add: hm_collect_def)
qed

text \<open>A Ruby Array that contains itself is refused with the nesting error, at the first
  level past the limit.\<close>

theorem self_containing_refused:
  "ruby_to_invalue to_s (cyclic_array u) = Inl (NestingTooDeep (MAX_NESTING + 1))
   \<and> cyclic_array u = RArray [cyclic_array u]"
  using cyclic_array_refused [of 0 to_s u] cyclic_array_unfold by (simp add: ruby_to_invalue_def)

text \<open>\<open>delete_span\<close> slices as Ruby's \<open>Array#slice!\<close>: a start in range (negative ones from
  the end, the length itself included) gives the elements from it, at most \<open>count\<close> of them
  and none past the end; a start out of range gives none.\<close>

theorem delete_span_slices:
  "(case delete_span index count (length xs) of
      Some (a, b) \<Rightarrow> 0 \<le> (if index < 0 then int (length xs) + index else index)
        \<and> take (b - a) (drop a xs)
          = take (nat count) (drop (nat (if index < 0 then int (length xs) + index else index)) xs)
        \<and> a \<le> b \<and> b \<le> length xs
    | None \<Rightarrow> (if index < 0 then int (length xs) + index < 0 else int (length xs) < index))"
proof -
  define st where "st = (if index < 0 then int (length xs) + index else index)"
  have span: "delete_span index count (length xs) =
      (if st < 0 \<or> st > int (length xs) then None
       else Some (nat st, nat (st + clamp 0 (int (length xs) - st) count)))"
    by (simp add: delete_span_def Let_def st_def)
  have none: "(if index < 0 then int (length xs) + index < 0 else int (length xs) < index)
      \<longleftrightarrow> st < 0 \<or> st > int (length xs)"
    by (auto simp: st_def)
  show ?thesis
  proof (cases "st < 0 \<or> st > int (length xs)")
    case True
    then show ?thesis unfolding span none by simp
  next
    case False
    then obtain s where s: "st = int s" "s \<le> length xs"
      by (metis nonneg_int_cases not_less of_nat_le_iff)
    have "clamp 0 (int (length xs) - st) count = int (min (length xs - s) (nat count))"
      using s(2) unfolding s(1) by (auto simp: clamp_def)
    with False s show ?thesis
      unfolding span st_def [symmetric] by (simp add: nat_add_distrib min_def; linarith)
  qed
qed

end
