(* ===== verification/RubySeq.thy ===== *)
theory RubySeq
  imports SharedIndex
begin

text \<open>
  Ruby's indexes into a sequence, as its Array and String read them and without arithmetic on the
  length: an index from 0 counts from the front, a negative one from the back.  Every operation cuts
  the sequence in two there; \<open>None\<close> is out of range, where Ruby raises an \<open>IndexError\<close>, returns nil
  or (an Array written past its end) pads with nil.

  The lemmas connect the index functions of \<open>src/ext/yrby/src/shared.rs\<close> with these operations.
\<close>

section \<open>Cutting a sequence\<close>

fun front_cut :: "nat \<Rightarrow> 'a list \<Rightarrow> ('a list \<times> 'a list) option" where
  "front_cut 0 xs = Some ([], xs)"
| "front_cut (Suc n) [] = None"
| "front_cut (Suc n) (x # xs) = map_option (apfst (Cons x)) (front_cut n xs)"

definition back_cut :: "nat \<Rightarrow> 'a list \<Rightarrow> ('a list \<times> 'a list) option" where
  "back_cut n xs = map_option (\<lambda>(back, front). (rev front, rev back)) (front_cut n (rev xs))"

text \<open>Before the element \<open>index\<close> names (-1 is the last), and at the gap \<open>insert\<close> means (-1 is the
  end).\<close>

definition ruby_cut :: "int \<Rightarrow> 'a list \<Rightarrow> ('a list \<times> 'a list) option" where
  "ruby_cut index xs = (if 0 \<le> index then front_cut (nat index) xs else back_cut (nat (- index)) xs)"

definition ruby_gap :: "int \<Rightarrow> 'a list \<Rightarrow> ('a list \<times> 'a list) option" where
  "ruby_gap index xs = (if 0 \<le> index then front_cut (nat index) xs else back_cut (nat (- index - 1)) xs)"

section \<open>Ruby's operations\<close>

definition ruby_at :: "int \<Rightarrow> 'a list \<Rightarrow> 'a option" where
  "ruby_at index xs = (case ruby_cut index xs of Some (_, x # _) \<Rightarrow> Some x | _ \<Rightarrow> None)"

definition ruby_insert :: "int \<Rightarrow> 'a list \<Rightarrow> 'a list \<Rightarrow> 'a list option" where
  "ruby_insert index new xs = map_option (\<lambda>(front, back). front @ new @ back) (ruby_gap index xs)"

definition ruby_set :: "int \<Rightarrow> 'a \<Rightarrow> 'a list \<Rightarrow> 'a list option" where
  "ruby_set index v xs = (case ruby_cut index xs of Some (front, _ # back) \<Rightarrow> Some (front @ v # back) | _ \<Rightarrow> None)"

definition ruby_delete_at :: "int \<Rightarrow> 'a list \<Rightarrow> 'a list option" where
  "ruby_delete_at index xs = (case ruby_cut index xs of Some (front, _ # back) \<Rightarrow> Some (front @ back) | _ \<Rightarrow> None)"

definition ruby_slice :: "int \<Rightarrow> int \<Rightarrow> 'a list \<Rightarrow> 'a list option" where
  "ruby_slice index count xs =
     (if count < 0 then None else map_option (\<lambda>(front, back). front @ drop (nat count) back) (ruby_cut index xs))"

text \<open>Where Ruby's \<open>insert\<close> is out of range, the handles insert at the nearer end.\<close>

definition insert_clamped :: "int \<Rightarrow> 'a list \<Rightarrow> 'a list \<Rightarrow> 'a list" where
  "insert_clamped index new xs =
     (case ruby_insert index new xs of
        Some ys \<Rightarrow> ys
      | None \<Rightarrow> if index < 0 then new @ xs else xs @ new)"

section \<open>The code's indexes are Ruby's\<close>

lemma front_cut_eq: "front_cut n xs = (if n \<le> length xs then Some (take n xs, drop n xs) else None)"
  by (induction n xs rule: front_cut.induct) auto

lemma back_cut_eq:
  "back_cut n xs = (if n \<le> length xs then Some (take (length xs - n) xs, drop (length xs - n) xs) else None)"
  by (simp add: back_cut_def front_cut_eq take_rev drop_rev)

lemma ruby_cut_eq:
  "ruby_cut index xs =
     (let i = (if index < 0 then int (length xs) + index else index)
      in if 0 \<le> i \<and> i \<le> int (length xs) then Some (take (nat i) xs, drop (nat i) xs) else None)"
proof (cases "0 \<le> index")
  case False
  then have "length xs - nat (- index) = nat (int (length xs) + index)" by linarith
  with False show ?thesis by (auto simp: ruby_cut_def back_cut_eq Let_def)
qed (auto simp: ruby_cut_def front_cut_eq)

lemma element_index_cut:
  "element_index index (length xs) = None \<Longrightarrow> ruby_cut index xs = None \<or> ruby_cut index xs = Some (xs, [])"
  "element_index index (length xs) = Some i \<Longrightarrow>
     i < length xs \<and> ruby_cut index xs = Some (take i xs, xs ! i # drop (Suc i) xs)"
  by (auto simp: element_index_def ruby_cut_eq Let_def Cons_nth_drop_Suc nat_less_iff split: if_splits)

lemma element_index_at: "ruby_at index xs = map_option ((!) xs) (element_index index (length xs))"
  by (cases "element_index index (length xs)") (auto simp: ruby_at_def dest: element_index_cut)

lemma element_index_set:
  "ruby_set index v xs = map_option (\<lambda>i. xs[i := v]) (element_index index (length xs))"
  by (cases "element_index index (length xs)")
    (auto simp: ruby_set_def upd_conv_take_nth_drop dest: element_index_cut)

lemma element_index_delete:
  "ruby_delete_at index xs = map_option (\<lambda>i. take i xs @ drop (Suc i) xs) (element_index index (length xs))"
  by (cases "element_index index (length xs)") (auto simp: ruby_delete_at_def dest: element_index_cut)

lemma insert_index_clamped:
  "insert_clamped index new xs = (let i = insert_index index (length xs) in take i xs @ new @ drop i xs)"
proof (cases "0 \<le> index")
  case True
  then show ?thesis
    by (auto simp: insert_clamped_def ruby_insert_def ruby_gap_def front_cut_eq insert_index_def clamp_def Let_def)
next
  case False
  then have "length xs - nat (- index - 1) = nat (int (length xs) + index + 1)" by linarith
  with False show ?thesis
    by (auto simp: insert_clamped_def ruby_insert_def ruby_gap_def back_cut_eq insert_index_def clamp_def Let_def)
qed

lemma insert_at_end: "insert_clamped (-1) new xs = xs @ new"
  by (simp add: insert_clamped_def ruby_insert_def ruby_gap_def back_cut_def)

lemma delete_span_at:
  "start = (if index < 0 then int len + index else index) \<Longrightarrow>
    delete_span index count len =
      (if start < 0 \<or> int len < start then None else Some (nat start, nat (start + clamp 0 (int len - start) count)))"
  by (simp add: delete_span_def Let_def)

lemma delete_span_slice:
  "(case delete_span index count (length xs) of Some (a, b) \<Rightarrow> take a xs @ drop b xs | None \<Rightarrow> xs)
    = (case ruby_slice index count xs of Some ys \<Rightarrow> ys | None \<Rightarrow> xs)"
proof -
  let ?i = "if index < 0 then int (length xs) + index else index"
  show ?thesis
  proof (cases "0 \<le> ?i \<and> ?i \<le> int (length xs)")
    case True
    then obtain i where i: "?i = int i" using nonneg_int_cases by blast
    with True have i: "?i = int i" "i \<le> length xs" by (simp_all only: of_nat_le_iff)
    have cut: "ruby_cut index xs = Some (take i xs, drop i xs)"
      unfolding ruby_cut_eq Let_def i(1) using i(2) by simp
    have span: "delete_span index count (length xs) = Some (i, nat (int i + clamp 0 (int (length xs) - int i) count))"
      unfolding delete_span_at [OF i(1) [symmetric]] using i(2) by simp
    show ?thesis
    proof (cases "count < 0")
      case True
      then have "nat (int i + clamp 0 (int (length xs) - int i) count) = i" using i(2) by (simp add: clamp_def)
      with True show ?thesis by (simp add: span ruby_slice_def)
    next
      case False
      then obtain n where n: "count = int n" by (metis not_less nonneg_int_cases)
      have "nat (int i + clamp 0 (int (length xs) - int i) count) = i + min n (length xs - i)"
        using i(2) n by (auto simp: clamp_def min_def)
      then have "delete_span index count (length xs) = Some (i, i + min n (length xs - i))" using span by simp
      moreover have "ruby_slice index count xs = Some (take i xs @ drop n (drop i xs))" using n by (simp add: ruby_slice_def cut)
      moreover have "drop (i + min n (length xs - i)) xs = drop n (drop i xs)" by (simp add: min_def add.commute)
      ultimately show ?thesis by simp
    qed
  next
    case False
    then have "delete_span index count (length xs) = None"
      unfolding delete_span_at [OF refl] by (simp only: not_le de_Morgan_conj if_True)
    moreover from False have "ruby_cut index xs = None" unfolding ruby_cut_eq Let_def by (simp only: if_False)
    ultimately show ?thesis by (simp add: ruby_slice_def)
  qed
qed

end
