(* ===== verification/Handles.thy ===== *)
theory Handles
  imports DocSync RubySeq RubyBindings
begin

text \<open>
  What every live handle shares (\<open>src/ext/yrby/src/shared.rs\<close>): finding its branch, opening
  a write transaction, and failing without taking the process down.

  A handle keeps a document and the identity of its branch; the document is the state
  \<open>rb_doc\<close>, the identity an argument.  Everything of yrs a handle calls is a field of the
  record \<open>yrs_store\<close>.  An operation inside a transaction is a function from the document to
  a result and the document it leaves: the result is an error when the code returns one or
  yrs panics (\<open>guarded\<close> turns a panic into the error), and the transaction commits what was
  done up to there when it is dropped.

  The locale \<open>local_op\<close> is the contract of a write method towards \<open>Doc#edit\<close>, the locale
  \<open>text_sequence\<close> the code the two text handles share.
\<close>

section \<open>Transactions\<close>

type_synonym ('d, 'a) txn = "'d \<Rightarrow> (string + 'a) \<times> 'd"

definition ret :: "'a \<Rightarrow> ('d, 'a) txn" where
  "ret a = (\<lambda>d. (Inr a, d))"

definition bind_txn :: "('d, 'a) txn \<Rightarrow> ('a \<Rightarrow> ('d, 'b) txn) \<Rightarrow> ('d, 'b) txn" where
  "bind_txn m f = (\<lambda>d. case m d of (Inl e, d') \<Rightarrow> (Inl e, d') | (Inr a, d') \<Rightarrow> f a d')"

definition read_txn :: "('d \<Rightarrow> 'a) \<Rightarrow> ('d, 'a) txn" where
  "read_txn f = (\<lambda>d. (Inr (f d), d))"

text \<open>\<open>resolve(..).ok_or(gone)\<close>.\<close>

definition resolve_or :: "string \<Rightarrow> ('d \<Rightarrow> 'a option) \<Rightarrow> ('d, 'a) txn" where
  "resolve_or gone look = (\<lambda>d. case look d of Some x \<Rightarrow> (Inr x, d) | None \<Rightarrow> (Inl gone, d))"

section \<open>What the handles call\<close>

text \<open>A value in a map or an array as a transaction returns it: what it reads as, and the
  identity of its branch when it is a shared type.\<close>

record 'id slot =
  slot_out :: out
  slot_id :: 'id

text \<open>What is written: an \<open>In\<close>, a plain value, a \<open>MapPrelim\<close>, a \<open>TextPrelim\<close> or an
  \<open>XmlTextPrelim\<close>.\<close>

datatype prelim =
    PIn in_value
  | PAny any
  | PMap "(string \<times> in_value) list"
  | PText string
  | PXmlText string

datatype root_kind = KMap | KArray | KText | KXmlFragment

text \<open>The fields that look a branch up are \<open>resolve\<close> followed by the accessors the sources use
  on it (\<open>iter\<close>, \<open>get\<close>, \<open>diff\<close>); \<open>block_ids\<close> are the identities of the embedded \<open>XmlText\<close>s in
  the order of the diff; \<open>tx_len\<close> and \<open>tx_string\<close> are \<open>Text::len\<close> and \<open>get_string\<close>.\<close>

record ('d, 'id) yrs_store =
  array_at :: "'d \<Rightarrow> 'id \<Rightarrow> 'id slot list option"
  ya_insert :: "'id \<Rightarrow> nat \<Rightarrow> prelim \<Rightarrow> ('d, 'id) txn"
  ya_remove :: "'id \<Rightarrow> nat \<Rightarrow> ('d, unit) txn"
  ya_remove_range :: "'id \<Rightarrow> nat \<Rightarrow> nat \<Rightarrow> ('d, unit) txn"
  map_at :: "'d \<Rightarrow> 'id \<Rightarrow> (string \<times> 'id slot) list option"
  ym_insert :: "'id \<Rightarrow> string \<Rightarrow> prelim \<Rightarrow> ('d, 'id) txn"
  ym_remove :: "'id \<Rightarrow> string \<Rightarrow> ('d, unit) txn"
  ym_clear :: "'id \<Rightarrow> ('d, unit) txn"
  text_at :: "'d \<Rightarrow> 'id \<Rightarrow> diff option"
  xml_at :: "'d \<Rightarrow> 'id \<Rightarrow> xml_text option"
  block_ids :: "'d \<Rightarrow> 'id \<Rightarrow> 'id list"
  tx_len :: "'d \<Rightarrow> 'id \<Rightarrow> nat"
  tx_string :: "'d \<Rightarrow> 'id \<Rightarrow> string"
  tx_insert :: "'id \<Rightarrow> nat \<Rightarrow> string \<Rightarrow> ('d, unit) txn"
  tx_remove_range :: "'id \<Rightarrow> nat \<Rightarrow> nat \<Rightarrow> ('d, unit) txn"
  tx_insert_embed :: "'id \<Rightarrow> nat \<Rightarrow> prelim \<Rightarrow> ('d, 'id) txn"
  tx_insert_attribute :: "'id \<Rightarrow> string \<Rightarrow> in_value \<Rightarrow> ('d, unit) txn"
  sticky_index :: "'d \<Rightarrow> 'id \<Rightarrow> nat \<Rightarrow> assoc \<Rightarrow> position option"
  sticky_from_type :: "'d \<Rightarrow> 'id \<Rightarrow> assoc \<Rightarrow> position"
  get_offset :: "'d \<Rightarrow> position \<Rightarrow> ('id \<times> nat) option"
  get_or_insert :: "root_kind \<Rightarrow> string \<Rightarrow> 'd \<Rightarrow> 'id \<times> 'd"
  root_id :: "string \<Rightarrow> 'id"

section \<open>Shared machinery\<close>

text \<open>A value that cannot be converted, a position that cannot be read, a \<open>Y::Error\<close>, an interrupt,
  or what a block raised.\<close>

datatype handle_error =
    ValueErr value_error
  | BindErr bind_error
  | YErr string
  | Interrupt string
  | Raised string

datatype 'id child = CMap 'id | CArray 'id | CText 'id | COther

definition child_of_slot :: "'id slot option \<Rightarrow> 'id child" where
  "child_of_slot v =
     (case v of
        None \<Rightarrow> COther
      | Some s \<Rightarrow> (case slot_out s of
            OYMap _ \<Rightarrow> CMap (slot_id s)
          | OYArray _ \<Rightarrow> CArray (slot_id s)
          | OYText _ \<Rightarrow> CText (slot_id s)
          | _ \<Rightarrow> COther))"

text \<open>\<open>guarded\<close>: the error of the closure, or a panic's message, as a \<open>Y::Error\<close>.\<close>

definition guarded :: "string option \<Rightarrow> string + 'r \<Rightarrow> handle_error + 'r" where
  "guarded intr r = bind_sum (map_sum Interrupt id (nogvl intr r)) (map_sum YErr id)"

definition write_txn ::
  "('d \<Rightarrow> 'd \<Rightarrow> bytes option) \<Rightarrow> string option \<Rightarrow> 'd rb_doc \<Rightarrow> ('d, 'r) txn
     \<Rightarrow> (handle_error + 'r) \<times> 'd rb_doc" where
  "write_txn tu intr rb f = (let (r, d') = f (ydoc rb) in (guarded intr r, local_write tu rb d'))"

text \<open>A plain read of a handle: \<open>nogvl\<close> around a transaction.\<close>

definition nogvl_read :: "string option \<Rightarrow> 'r \<Rightarrow> handle_error + 'r" where
  "nogvl_read intr r = map_sum Interrupt id (nogvl intr r)"

text \<open>Reading an argument with the interpreter lock held, before the write.\<close>

definition with_value ::
  "value_error + 'v \<Rightarrow> 'd rb_doc \<Rightarrow> ('v \<Rightarrow> (handle_error + 'r) \<times> 'd rb_doc)
     \<Rightarrow> (handle_error + 'r) \<times> 'd rb_doc" where
  "with_value v rb f = (case v of Inl e \<Rightarrow> (Inl (ValueErr e), rb) | Inr x \<Rightarrow> f x)"

definition any_or_nil :: "any option \<Rightarrow> rvalue" where
  "any_or_nil got = (case got of Some a \<Rightarrow> any_to_ruby a | None \<Rightarrow> RNil)"

text \<open>\<open>Array::get\<close>.\<close>

definition list_get :: "'a list \<Rightarrow> nat \<Rightarrow> 'a option" where
  "list_get xs i = (if i < length xs then Some (xs ! i) else None)"

text \<open>\<open>each\<close>: the block is called with each value until it raises; without a block the result
  is an Enumerator.\<close>

fun each_loop :: "('v \<Rightarrow> ('h, rvalue) txn) \<Rightarrow> 'v list \<Rightarrow> ('h, unit) txn" where
  "each_loop block [] = ret ()"
| "each_loop block (v # vs) = bind_txn (block v) (\<lambda>_. each_loop block vs)"

datatype each_result = Enumerator | EachDone

definition each_with ::
  "('v \<Rightarrow> ('h, rvalue) txn) option \<Rightarrow> handle_error + 'v list \<Rightarrow> 'h \<Rightarrow> (handle_error + each_result) \<times> 'h" where
  "each_with block snapshot h =
     (case block of
        None \<Rightarrow> (Inr Enumerator, h)
      | Some b \<Rightarrow>
          (case snapshot of
             Inl e \<Rightarrow> (Inl e, h)
           | Inr vs \<Rightarrow> (let (r, h') = each_loop b vs h in (map_sum Raised (\<lambda>_. EachDone) r, h'))))"

section \<open>The contract of a write method\<close>

text \<open>A write method either fails before it opens a transaction and changes nothing, or
  commits exactly one local transaction, whatever its result.\<close>

locale local_op =
  fixes tu :: "'d \<Rightarrow> 'd \<Rightarrow> bytes option" and oper :: "'d rb_doc \<Rightarrow> ('e + 'r) \<times> 'd rb_doc"
  assumes oper_commits: "(\<exists>e. oper rb = (Inl e, rb)) \<or> (\<exists>d. snd (oper rb) = local_write tu rb d)"
begin

lemma unsent_of_op:
  "unsent (snd (oper rb)) = unsent rb
   \<or> (\<exists>u. tu (ydoc rb) (ydoc (snd (oper rb))) = Some u \<and> unsent (snd (oper rb)) = unsent rb @ [u])"
  using oper_commits [of rb]
  by (auto simp: local_write_def commit_txn_def on_commit_def split: option.splits)

text \<open>A change that yrs reports is never left out of the unsent updates.\<close>

lemma change_is_unsent:
  assumes "ydoc (snd (oper rb)) \<noteq> ydoc rb" and "tu (ydoc rb) (ydoc (snd (oper rb))) = Some u"
  shows "unsent (snd (oper rb)) = unsent rb @ [u]"
  using oper_commits [of rb] assms
  by (auto simp: local_write_def commit_txn_def on_commit_def)

end

lemma write_commits: "\<exists>d. snd (write_txn tu intr rb f) = local_write tu rb d"
  by (auto simp: write_txn_def split: prod.split)

lemma local_op_write: "local_op tu (\<lambda>rb. write_txn tu intr rb f)"
  by (rule local_op.intro) (use write_commits in fast)

lemma local_op_with_value:
  "(\<And>x. local_op tu (f x)) \<Longrightarrow> local_op tu (\<lambda>rb. with_value v rb (\<lambda>x. f x rb))"
  by (cases v) (auto simp: with_value_def local_op_def)

lemma local_op_write_map: "local_op tu (\<lambda>rb. apfst g (write_txn tu intr rb f))"
  by (rule local_op.intro) (use write_commits in \<open>fastforce simp: apfst_def\<close>)

lemma local_op_map: "local_op tu f \<Longrightarrow> local_op tu (\<lambda>rb. apfst (map_sum id g) (f rb))"
proof (rule local_op.intro)
  fix rb
  assume "local_op tu f"
  then have "(\<exists>e. f rb = (Inl e, rb)) \<or> (\<exists>d. snd (f rb) = local_write tu rb d)" by (rule local_op.oper_commits)
  then show "(\<exists>e. apfst (map_sum id g) (f rb) = (Inl e, rb)) \<or> (\<exists>d. snd (apfst (map_sum id g) (f rb)) = local_write tu rb d)"
    by (cases "f rb") auto
qed

lemma ydoc_write [simp]: "ydoc (snd (write_txn tu intr rb f)) = snd (f (ydoc rb))"
  by (simp add: write_txn_def local_write_def split: prod.split)

lemma ydoc_with_value:
  "ydoc (snd (with_value v rb f)) = (case v of Inl _ \<Rightarrow> ydoc rb | Inr x \<Rightarrow> ydoc (snd (f x)))"
  by (simp add: with_value_def split: sum.split)

section \<open>What is written\<close>

text \<open>What is written, as the value it reads as.\<close>

fun in_any :: "in_value \<Rightarrow> any" where
  "in_any (InAny a) = a"
| "in_any (InMap m) = AMap (hm_collect (map (\<lambda>(k, v). (k, in_any v)) m))"

fun prelim_any :: "prelim \<Rightarrow> any" where
  "prelim_any (PIn v) = in_any v"
| "prelim_any (PAny a) = a"
| "prelim_any (PMap m) = in_any (InMap m)"
| "prelim_any (PText s) = AString s"
| "prelim_any (PXmlText s) = AString s"

lemma update_map_value:
  "map (\<lambda>(k, v). (k, f v)) (AList.update k v hm) = AList.update k (f v) (map (\<lambda>(k, v). (k, f v)) hm)"
  by (induction hm) auto

lemma distinct_hm_collect: "distinct (map fst (hm_collect kvs))"
proof -
  have "distinct (map fst hm) \<Longrightarrow> distinct (map fst (foldl (\<lambda>hm (k, v). AList.update k v hm) hm kvs))" for hm
    by (induction kvs arbitrary: hm) (auto simp: distinct_update)
  from this [of "[]"] show ?thesis by (simp add: hm_collect_def)
qed

lemma hm_collect_map: "map (\<lambda>(k, v). (k, f v)) (hm_collect kvs) = hm_collect (map (\<lambda>(k, v). (k, f v)) kvs)"
proof -
  have "map (\<lambda>(k, v). (k, f v)) (foldl (\<lambda>hm (k, v). AList.update k v hm) hm kvs)
      = foldl (\<lambda>hm (k, v). AList.update k v hm) (map (\<lambda>(k, v). (k, f v)) hm) (map (\<lambda>(k, v). (k, f v)) kvs)" for hm
    by (induction kvs arbitrary: hm) (auto simp: update_map_value)
  from this [of "[]"] show ?thesis by (simp add: hm_collect_def)
qed

lemma hm_collect_idem: "hm_collect (hm_collect kvs) = hm_collect kvs"
  by (simp add: hm_collect_distinct distinct_hm_collect)

lemma in_any_to_in: "in_any (to_in iv) = invalue_to_any iv"
proof (induction iv rule: to_in.induct)
  case (2 entries)
  then have "map (\<lambda>(k, v). (k, in_any v)) (map (\<lambda>(k, v). (k, to_in v)) entries)
      = map (\<lambda>(k, v). (k, invalue_to_any v)) entries"
    by (auto intro!: map_cong)
  then show ?case by (simp add: hm_collect_map hm_collect_idem del: map_map)
qed simp

section \<open>Sequences of characters and embeds\<close>

text \<open>The reference for the text handles: a sequence as its characters and embeds, and the
  units they take.\<close>

datatype cell = CChar string | CPiece out

definition piece_cell_list :: "out \<Rightarrow> cell list" where
  "piece_cell_list p = (case p of OAny (AString s) \<Rightarrow> map CChar (chars s) | _ \<Rightarrow> [CPiece p])"

definition seq_cells :: "diff \<Rightarrow> cell list" where
  "seq_cells seq = concat (map piece_cell_list (pieces seq))"

fun cell_units :: "cell \<Rightarrow> nat" where
  "cell_units (CChar c) = len_utf16 c"
| "cell_units (CPiece _) = 1"

definition units_of :: "cell list \<Rightarrow> nat" where
  "units_of cs = sum_list (map cell_units cs)"

lemma units_of_simps [simp]:
  "units_of [] = 0" "units_of (c # cs) = cell_units c + units_of cs" "units_of (xs @ ys) = units_of xs + units_of ys"
  by (simp_all add: units_of_def)

lemma widths_cells: "widths seq = map cell_units (seq_cells seq)"
proof -
  have "piece_widths = (\<lambda>p. map cell_units (piece_cell_list p))"
    by (auto simp: piece_widths_def piece_cell_list_def split: out.split any.split)
  then show ?thesis by (simp add: widths_def seq_cells_def map_concat comp_def del: piece_widths_simps)
qed

lemma char_len_cells: "char_len seq = length (seq_cells seq)"
  by (simp add: char_len_widths widths_cells)

lemma to_units_cells: "to_units seq n = units_of (take n (seq_cells seq))"
  by (simp add: to_units_widths widths_cells units_of_def take_map)

text \<open>What the code relies on of \<open>Text\<close>: at a unit index between two cells, \<open>insert\<close> inserts
  the characters there; \<open>remove_range\<close> over whole cells removes them; \<open>len\<close> counts units.\<close>

definition text_laws :: "('d, 'id) yrs_store \<Rightarrow> ('d \<Rightarrow> diff option) \<Rightarrow> 'id \<Rightarrow> bool" where
  "text_laws st look t \<longleftrightarrow>
     (\<forall>d seq. look d = Some seq \<longrightarrow> tx_len st d t = units_of (seq_cells seq))
     \<and> (\<forall>d seq pre post s. look d = Some seq \<longrightarrow> seq_cells seq = pre @ post \<longrightarrow>
          (\<exists>d' seq'. tx_insert st t (units_of pre) s d = (Inr (), d') \<and> look d' = Some seq'
             \<and> seq_cells seq' = pre @ map CChar (chars s) @ post))
     \<and> (\<forall>d seq pre mid post. look d = Some seq \<longrightarrow> seq_cells seq = pre @ mid @ post \<longrightarrow> mid \<noteq> [] \<longrightarrow>
          (\<exists>d' seq'. tx_remove_range st t (units_of pre) (units_of mid) d = (Inr (), d') \<and> look d' = Some seq'
             \<and> seq_cells seq' = pre @ post))"

lemma text_lawsD:
  assumes "text_laws st look t" and "look d = Some seq"
  shows "tx_len st d t = units_of (seq_cells seq)"
    "seq_cells seq = pre @ post \<Longrightarrow> \<exists>d' seq'. tx_insert st t (units_of pre) s d = (Inr (), d') \<and> look d' = Some seq'
             \<and> seq_cells seq' = pre @ map CChar (chars s) @ post"
    "seq_cells seq = pre @ mid @ post \<Longrightarrow> mid \<noteq> [] \<Longrightarrow>
       \<exists>d' seq'. tx_remove_range st t (units_of pre) (units_of mid) d = (Inr (), d') \<and> look d' = Some seq'
             \<and> seq_cells seq' = pre @ post"
  using assms unfolding text_laws_def by blast+

lemma units_of_pos: "cs \<noteq> [] \<Longrightarrow> 0 < units_of cs"
proof -
  have "0 < cell_units c" for c by (cases c) (simp_all add: len_utf16_def)
  then show "cs \<noteq> [] \<Longrightarrow> 0 < units_of cs" by (cases cs) (simp_all add: add_pos_nonneg)
qed

lemma units_of_eq_0 [simp]: "units_of cs = 0 \<longleftrightarrow> cs = []"
  by (cases "cs = []") (use units_of_pos [of cs] in \<open>auto\<close>)

section \<open>The code the text handles share\<close>

text \<open>The bodies of \<open>insert\<close>, \<open>delete\<close> and \<open>clear\<close> differ only in the error for a branch that
  is gone, and \<open>clear\<close> in whether that is an error.\<close>

definition seq_insert_body ::
  "('d, 'id) yrs_store \<Rightarrow> string \<Rightarrow> ('d \<Rightarrow> diff option) \<Rightarrow> 'id \<Rightarrow> int \<Rightarrow> string \<Rightarrow> ('d, unit) txn" where
  "seq_insert_body st gone look t index s =
     bind_txn (resolve_or gone look) (\<lambda>seq.
     bind_txn (read_txn (\<lambda>d. end_or_units (\<lambda>_. tx_len st d t) seq index)) (\<lambda>at.
       tx_insert st t at s))"

definition seq_delete_body ::
  "('d, 'id) yrs_store \<Rightarrow> string \<Rightarrow> ('d \<Rightarrow> diff option) \<Rightarrow> 'id \<Rightarrow> int \<Rightarrow> int \<Rightarrow> ('d, unit) txn" where
  "seq_delete_body st gone look t index n =
     bind_txn (resolve_or gone look) (\<lambda>seq.
       case delete_span index n (char_len seq) of
         Some (a, b) \<Rightarrow>
           (let f = to_units seq a; e = to_units seq b
            in if e > f then tx_remove_range st t f (e - f) else ret ())
       | None \<Rightarrow> ret ())"

text \<open>\<open>let len = x.len(txn); if len > 0 {x.remove_range(txn, 0, len)}\<close>.\<close>

definition remove_all :: "('d, 'id) yrs_store \<Rightarrow> 'id \<Rightarrow> ('d, unit) txn" where
  "remove_all st t =
     bind_txn (read_txn (\<lambda>d. tx_len st d t)) (\<lambda>len. if len > 0 then tx_remove_range st t 0 len else ret ())"

text \<open>Ruby's \<open>String#insert\<close> and \<open>String#slice!\<close> on cells.\<close>

definition insert_cells :: "cell list \<Rightarrow> int \<Rightarrow> cell list \<Rightarrow> cell list" where
  "insert_cells cs index new = insert_clamped index new cs"

definition slice_cells :: "cell list \<Rightarrow> int \<Rightarrow> int \<Rightarrow> cell list" where
  "slice_cells cs index n = (case ruby_slice index n cs of Some rest \<Rightarrow> rest | None \<Rightarrow> cs)"

lemma insert_cells_end: "insert_cells cs (-1) new = cs @ new"
  by (simp add: insert_cells_def insert_at_end)

lemma insert_cells_at: "insert_cells cs index new = (let i = insert_index index (length cs) in take i cs @ new @ drop i cs)"
  unfolding insert_cells_def by (rule insert_index_clamped)

lemma slice_cells_span:
  "slice_cells cs index n = (case delete_span index n (length cs) of Some (a, b) \<Rightarrow> take a cs @ drop b cs | None \<Rightarrow> cs)"
  unfolding slice_cells_def delete_span_slice ..

locale text_sequence =
  fixes st :: "('d, 'id) yrs_store" and gone :: string and look :: "'d \<Rightarrow> diff option" and t :: 'id
    and insert_body :: "int \<Rightarrow> string \<Rightarrow> ('d, unit) txn" and delete_body :: "int \<Rightarrow> int \<Rightarrow> ('d, unit) txn"
  assumes insert_is: "insert_body index s = seq_insert_body st gone look t index s"
    and delete_is: "delete_body index n = seq_delete_body st gone look t index n"
begin

lemma insert_refines:
  assumes laws: "text_laws st look t" and seq: "look d = Some seq"
  shows "\<exists>d' seq'. insert_body index s d = (Inr (), d') \<and> look d' = Some seq'
    \<and> seq_cells seq' = insert_cells (seq_cells seq) index (map CChar (chars s))"
proof -
  let ?cs = "seq_cells seq"
  let ?i = "insert_index index (length ?cs)"
  have "insert_index (-1) (length ?cs) = length ?cs"
    by (simp add: insert_index_def Let_def clamp_def)
  then have "end_or_units (\<lambda>_. tx_len st d t) seq index = units_of (take ?i ?cs)"
    using text_lawsD(1) [OF laws seq] by (simp add: end_or_units_def to_units_cells char_len_cells)
  moreover obtain d' seq' where "tx_insert st t (units_of (take ?i ?cs)) s d = (Inr (), d')" "look d' = Some seq'"
    "seq_cells seq' = take ?i ?cs @ map CChar (chars s) @ drop ?i ?cs"
    using text_lawsD(2) [OF laws seq, of "take ?i ?cs" "drop ?i ?cs" s] by auto
  ultimately show ?thesis
    using seq by (simp add: insert_is seq_insert_body_def bind_txn_def resolve_or_def read_txn_def insert_cells_at Let_def)
qed

lemma delete_refines:
  assumes laws: "text_laws st look t" and seq: "look d = Some seq"
  shows "\<exists>d' seq'. delete_body index n d = (Inr (), d') \<and> look d' = Some seq'
    \<and> seq_cells seq' = slice_cells (seq_cells seq) index n"
proof (cases "delete_span index n (length (seq_cells seq))")
  case None
  then show ?thesis
    using seq by (simp add: delete_is seq_delete_body_def bind_txn_def resolve_or_def ret_def
        char_len_cells slice_cells_span)
next
  case (Some ft)
  obtain a b where ft: "ft = (a, b)" by force
  let ?cs = "seq_cells seq"
  let ?mid = "take (b - a) (drop a ?cs)"
  have le: "a \<le> b" "b \<le> length ?cs" using delete_span_le [of index n] Some ft by auto
  have split: "?cs = take a ?cs @ ?mid @ drop b ?cs"
    using le by (metis append_take_drop_id drop_drop le_add_diff_inverse2 append.assoc)
  have "take b ?cs = take a ?cs @ ?mid"
    using le by (metis le_add_diff_inverse take_add)
  then have tob: "to_units seq b = to_units seq a + units_of ?mid"
    by (simp add: to_units_cells)
  show ?thesis
  proof (cases "a = b")
    case True
    then show ?thesis
      using seq Some ft by (simp add: delete_is seq_delete_body_def bind_txn_def resolve_or_def ret_def
          char_len_cells slice_cells_span)
  next
    case False
    then have mid: "?mid \<noteq> []" using le by simp
    obtain d' seq' where "tx_remove_range st t (units_of (take a ?cs)) (units_of ?mid) d = (Inr (), d')"
      "look d' = Some seq'" "seq_cells seq' = take a ?cs @ drop b ?cs"
      using text_lawsD(3) [OF laws seq split mid] by blast
    then show ?thesis
      using seq Some ft tob units_of_pos [OF mid]
      by (simp add: delete_is seq_delete_body_def bind_txn_def resolve_or_def char_len_cells
          slice_cells_span to_units_cells Let_def)
  qed
qed

lemma gone_fails:
  "look d = None \<Longrightarrow> insert_body index s d = (Inl gone, d) \<and> delete_body index n d = (Inl gone, d)"
  by (simp add: insert_is delete_is seq_insert_body_def seq_delete_body_def bind_txn_def resolve_or_def)

end

lemma remove_all_empties:
  assumes laws: "text_laws st look t" and seq: "look d = Some seq"
  shows "\<exists>d' seq'. remove_all st t d = (Inr (), d') \<and> look d' = Some seq' \<and> seq_cells seq' = []"
proof (cases "seq_cells seq = []")
  case True
  then show ?thesis
    using text_lawsD(1) [OF laws seq] seq by (auto simp: remove_all_def bind_txn_def read_txn_def ret_def)
next
  case False
  then show ?thesis
    using text_lawsD(3) [OF laws seq, of "[]" "seq_cells seq" "[]"] text_lawsD(1) [OF laws seq] units_of_pos [OF False]
    by (auto simp: remove_all_def bind_txn_def read_txn_def)
qed

section \<open>Relative positions\<close>

text \<open>\<open>if assoc == "before" {Assoc::Before} else {Assoc::After}\<close>.\<close>

definition assoc_arg :: "string \<Rightarrow> assoc" where
  "assoc_arg s = (if s = ''before'' then Before else After)"

text \<open>The closure of \<open>native_relative_position\<close>, the same in both text handles.\<close>

definition relative_position_body ::
  "('d, 'id) yrs_store \<Rightarrow> string \<Rightarrow> ('d \<Rightarrow> diff option) \<Rightarrow> 'id \<Rightarrow> int \<Rightarrow> assoc \<Rightarrow> 'd \<Rightarrow> string + position" where
  "relative_position_body st gone look t index assoc d =
     bind_sum (ok_or gone (look d)) (\<lambda>seq.
       let at = to_units seq (insert_index index (char_len seq))
       in Inr (case sticky_index st d t at assoc of Some p \<Rightarrow> p | None \<Rightarrow> sticky_from_type st d t assoc))"

text \<open>What the code relies on of sticky indexes: a position made at a unit index resolves to that
  index of the same branch while nothing changes, and where there is no item to name, the
  position of the type itself resolves there; identities fit their hash.\<close>

definition sticky_laws :: "('d, 'id) yrs_store \<Rightarrow> 'd \<Rightarrow> 'id \<Rightarrow> bool" where
  "sticky_laws st d t \<longleftrightarrow>
     (\<forall>at assoc. at \<le> tx_len st d t \<longrightarrow> (case sticky_index st d t at assoc of
        Some p \<Rightarrow> get_offset st d p = Some (t, at) \<and> scope_fits (pos_scope p)
      | None \<Rightarrow> get_offset st d (sticky_from_type st d t assoc) = Some (t, at)
               \<and> scope_fits (pos_scope (sticky_from_type st d t assoc))))"

lemma relative_position_resolves:
  assumes "sticky_laws st d t" and "look d = Some seq" and laws: "text_laws st look t"
  shows "\<exists>p. relative_position_body st gone look t index assoc d = Inr p \<and> scope_fits (pos_scope p)
    \<and> get_offset st d p = Some (t, to_units seq (insert_index index (char_len seq)))"
proof -
  let ?at = "to_units seq (insert_index index (char_len seq))"
  have "?at \<le> units_of (seq_cells seq)"
    unfolding to_units_cells by (metis append_take_drop_id le_add1 units_of_simps(3))
  then have "?at \<le> tx_len st d t" using text_lawsD(1) [OF laws assms(2)] by simp
  then have "case sticky_index st d t ?at assoc of
        Some p \<Rightarrow> get_offset st d p = Some (t, ?at) \<and> scope_fits (pos_scope p)
      | None \<Rightarrow> get_offset st d (sticky_from_type st d t assoc) = Some (t, ?at)
               \<and> scope_fits (pos_scope (sticky_from_type st d t assoc))"
    using assms(1) unfolding sticky_laws_def by blast
  then show ?thesis
    using assms(2)
    by (cases "sticky_index st d t ?at assoc") (simp_all add: relative_position_body_def ok_or_def Let_def)
qed

end
