(* ===== verification/ArrayHandle.thy ===== *)
theory ArrayHandle
  imports Handles
begin

text \<open>
  The live array handle (\<open>src/ext/yrby/src/array.rs\<close>, \<open>RbArray\<close>): one definition per method,
  prefixed \<open>ra_\<close>; \<open>a\<close> is the identity the handle keeps.  The specification is Ruby's Array
  (\<open>RubySeq\<close>) on the values the elements read as, with what the handle does out of range
  written out; every sequence of calls refines it.
\<close>

section \<open>Reads\<close>

definition ra_child ::
  "('d, 'id) yrs_store \<Rightarrow> string option \<Rightarrow> 'id \<Rightarrow> int \<Rightarrow> 'd rb_doc \<Rightarrow> handle_error + 'id child" where
  "ra_child st intr a index rb =
     nogvl_read intr (child_of_slot
       (Option.bind (array_at st (ydoc rb) a) (\<lambda>xs.
         Option.bind (element_index index (length xs)) (list_get xs))))"

definition ra_get ::
  "yrs \<Rightarrow> ('d, 'id) yrs_store \<Rightarrow> string option \<Rightarrow> 'id \<Rightarrow> int \<Rightarrow> 'd rb_doc \<Rightarrow> handle_error + rvalue" where
  "ra_get y st intr a index rb =
     bind_sum (nogvl_read intr
       (Option.bind (array_at st (ydoc rb) a) (\<lambda>xs.
         Option.bind (element_index index (length xs)) (\<lambda>i.
           map_option (\<lambda>v. rd_out_to_any y (slot_out v)) (list_get xs i)))))
     (\<lambda>got. Inr (any_or_nil got))"

definition ra_get_map ::
  "('d, 'id) yrs_store \<Rightarrow> string option \<Rightarrow> 'id \<Rightarrow> int \<Rightarrow> 'd rb_doc \<Rightarrow> handle_error + 'id option" where
  "ra_get_map st intr a index rb =
     bind_sum (ra_child st intr a index rb) (\<lambda>c. Inr (case c of CMap i \<Rightarrow> Some i | _ \<Rightarrow> None))"

definition ra_get_text ::
  "('d, 'id) yrs_store \<Rightarrow> string option \<Rightarrow> 'id \<Rightarrow> int \<Rightarrow> 'd rb_doc \<Rightarrow> handle_error + 'id option" where
  "ra_get_text st intr a index rb =
     bind_sum (ra_child st intr a index rb) (\<lambda>c. Inr (case c of CText i \<Rightarrow> Some i | _ \<Rightarrow> None))"

definition ra_get_array ::
  "('d, 'id) yrs_store \<Rightarrow> string option \<Rightarrow> 'id \<Rightarrow> int \<Rightarrow> 'd rb_doc \<Rightarrow> handle_error + 'id option" where
  "ra_get_array st intr a index rb =
     bind_sum (ra_child st intr a index rb) (\<lambda>c. Inr (case c of CArray i \<Rightarrow> Some i | _ \<Rightarrow> None))"

definition ra_size :: "('d, 'id) yrs_store \<Rightarrow> string option \<Rightarrow> 'id \<Rightarrow> 'd rb_doc \<Rightarrow> handle_error + nat" where
  "ra_size st intr a rb =
     nogvl_read intr (case array_at st (ydoc rb) a of Some xs \<Rightarrow> length xs | None \<Rightarrow> 0)"

definition ra_is_empty :: "('d, 'id) yrs_store \<Rightarrow> string option \<Rightarrow> 'id \<Rightarrow> 'd rb_doc \<Rightarrow> handle_error + bool" where
  "ra_is_empty st intr a rb = bind_sum (ra_size st intr a rb) (\<lambda>n. Inr (n = 0))"

definition ra_snapshot ::
  "yrs \<Rightarrow> ('d, 'id) yrs_store \<Rightarrow> string option \<Rightarrow> 'id \<Rightarrow> 'd rb_doc \<Rightarrow> handle_error + any list" where
  "ra_snapshot y st intr a rb =
     nogvl_read intr (case array_at st (ydoc rb) a of
         Some xs \<Rightarrow> map (\<lambda>v. rd_out_to_any y (slot_out v)) xs
       | None \<Rightarrow> [])"

definition ra_to_a ::
  "yrs \<Rightarrow> ('d, 'id) yrs_store \<Rightarrow> string option \<Rightarrow> 'id \<Rightarrow> 'd rb_doc \<Rightarrow> handle_error + rvalue" where
  "ra_to_a y st intr a rb = bind_sum (ra_snapshot y st intr a rb) (\<lambda>vs. Inr (RArray (map any_to_ruby vs)))"

definition ra_each ::
  "yrs \<Rightarrow> ('d, 'id) yrs_store \<Rightarrow> string option \<Rightarrow> 'id \<Rightarrow> 'd rb_doc \<Rightarrow> (rvalue \<Rightarrow> ('h, rvalue) txn) option \<Rightarrow> 'h
     \<Rightarrow> (handle_error + each_result) \<times> 'h" where
  "ra_each y st intr a rb block = each_with (map_option (\<lambda>b v. b (any_to_ruby v)) block) (ra_snapshot y st intr a rb)"

section \<open>Writes\<close>

definition array_gone :: string where "array_gone = ''array no longer exists''"

definition ra_insert_body ::
  "('d, 'id) yrs_store \<Rightarrow> 'id \<Rightarrow> int \<Rightarrow> prelim \<Rightarrow> ('d, 'id) txn" where
  "ra_insert_body st a index p =
     bind_txn (resolve_or array_gone (\<lambda>d. array_at st d a)) (\<lambda>xs.
       ya_insert st a (insert_index index (length xs)) p)"

definition ra_insert_at ::
  "(rvalue \<Rightarrow> value_error + string) \<Rightarrow> ('d, 'id) yrs_store \<Rightarrow> ('d \<Rightarrow> 'd \<Rightarrow> bytes option) \<Rightarrow> string option
     \<Rightarrow> 'id \<Rightarrow> int \<Rightarrow> rvalue \<Rightarrow> 'd rb_doc \<Rightarrow> (handle_error + unit) \<times> 'd rb_doc" where
  "ra_insert_at to_s st tu intr a index v rb =
     with_value (ruby_to_invalue to_s v) rb (\<lambda>iv.
       write_txn tu intr rb (bind_txn (ra_insert_body st a index (PIn (to_in iv))) (\<lambda>_. ret ())))"

text \<open>\<open>push\<close> and \<open>insert\<close> return the receiver.\<close>

definition ra_push ::
  "(rvalue \<Rightarrow> value_error + string) \<Rightarrow> ('d, 'id) yrs_store \<Rightarrow> ('d \<Rightarrow> 'd \<Rightarrow> bytes option) \<Rightarrow> string option
     \<Rightarrow> 'id \<Rightarrow> rvalue \<Rightarrow> 'd rb_doc \<Rightarrow> (handle_error + 'id) \<times> 'd rb_doc" where
  "ra_push to_s st tu intr a v rb = apfst (map_sum id (\<lambda>_. a)) (ra_insert_at to_s st tu intr a (-1) v rb)"

definition ra_insert ::
  "(rvalue \<Rightarrow> value_error + string) \<Rightarrow> ('d, 'id) yrs_store \<Rightarrow> ('d \<Rightarrow> 'd \<Rightarrow> bytes option) \<Rightarrow> string option
     \<Rightarrow> 'id \<Rightarrow> int \<Rightarrow> rvalue \<Rightarrow> 'd rb_doc \<Rightarrow> (handle_error + 'id) \<times> 'd rb_doc" where
  "ra_insert to_s st tu intr a index v rb = apfst (map_sum id (\<lambda>_. a)) (ra_insert_at to_s st tu intr a index v rb)"

definition ra_insert_text ::
  "('d, 'id) yrs_store \<Rightarrow> ('d \<Rightarrow> 'd \<Rightarrow> bytes option) \<Rightarrow> string option \<Rightarrow> 'id \<Rightarrow> int \<Rightarrow> string \<Rightarrow> 'd rb_doc
     \<Rightarrow> (handle_error + 'id) \<times> 'd rb_doc" where
  "ra_insert_text st tu intr a index s rb =
     write_txn tu intr rb (ra_insert_body st a index (PText s))"

definition ra_delete_body ::
  "yrs \<Rightarrow> ('d, 'id) yrs_store \<Rightarrow> 'id \<Rightarrow> int \<Rightarrow> ('d, any option) txn" where
  "ra_delete_body y st a index =
     bind_txn (read_txn (\<lambda>d. array_at st d a)) (\<lambda>found.
       case found of
         None \<Rightarrow> ret None
       | Some xs \<Rightarrow>
           (case element_index index (length xs) of
              None \<Rightarrow> ret None
            | Some i \<Rightarrow>
                (let prev = map_option (\<lambda>v. rd_out_to_any y (slot_out v)) (list_get xs i)
                 in bind_txn (ya_remove st a i) (\<lambda>_. ret prev))))"

definition ra_delete_at ::
  "yrs \<Rightarrow> ('d, 'id) yrs_store \<Rightarrow> ('d \<Rightarrow> 'd \<Rightarrow> bytes option) \<Rightarrow> string option \<Rightarrow> 'id \<Rightarrow> int \<Rightarrow> 'd rb_doc
     \<Rightarrow> (handle_error + rvalue) \<times> 'd rb_doc" where
  "ra_delete_at y st tu intr a index rb =
     apfst (map_sum id any_or_nil) (write_txn tu intr rb (ra_delete_body y st a index))"

definition ra_clear ::
  "('d, 'id) yrs_store \<Rightarrow> ('d \<Rightarrow> 'd \<Rightarrow> bytes option) \<Rightarrow> string option \<Rightarrow> 'id \<Rightarrow> 'd rb_doc
     \<Rightarrow> (handle_error + unit) \<times> 'd rb_doc" where
  "ra_clear st tu intr a rb =
     write_txn tu intr rb
       (bind_txn (read_txn (\<lambda>d. array_at st d a)) (\<lambda>found.
         case found of
           None \<Rightarrow> ret ()
         | Some xs \<Rightarrow> if length xs > 0 then ya_remove_range st a 0 (length xs) else ret ()))"

definition ra_set_body :: "('d, 'id) yrs_store \<Rightarrow> 'id \<Rightarrow> int \<Rightarrow> prelim \<Rightarrow> ('d, 'id) txn" where
  "ra_set_body st a index p =
     bind_txn (resolve_or array_gone (\<lambda>d. array_at st d a)) (\<lambda>xs.
     bind_txn (resolve_or ''index out of range'' (\<lambda>d. element_index index (length xs))) (\<lambda>i.
     bind_txn (ya_remove st a i) (\<lambda>_. ya_insert st a i p)))"

text \<open>\<open>array[i] = v\<close> yields \<open>v\<close>.\<close>

definition ra_set ::
  "(rvalue \<Rightarrow> value_error + string) \<Rightarrow> ('d, 'id) yrs_store \<Rightarrow> ('d \<Rightarrow> 'd \<Rightarrow> bytes option) \<Rightarrow> string option
     \<Rightarrow> 'id \<Rightarrow> int \<Rightarrow> rvalue \<Rightarrow> 'd rb_doc \<Rightarrow> (handle_error + rvalue) \<times> 'd rb_doc" where
  "ra_set to_s st tu intr a index v rb =
     with_value (ruby_to_invalue to_s v) rb (\<lambda>iv.
       apfst (map_sum id (\<lambda>_. v)) (write_txn tu intr rb (ra_set_body st a index (PIn (to_in iv)))))"

definition root_array ::
  "('d, 'id) yrs_store \<Rightarrow> string option \<Rightarrow> string \<Rightarrow> 'd rb_doc \<Rightarrow> (handle_error + 'id) \<times> 'd rb_doc" where
  "root_array st intr name rb =
     (let (i, d) = get_or_insert st KArray name (ydoc rb) in (nogvl_read intr i, rb\<lparr>ydoc := d\<rparr>))"

section \<open>One local transaction per write\<close>

interpretation ra_ins: local_op tu "ra_insert to_s st tu intr a index v" for to_s st tu intr a index v
  unfolding ra_insert_def [abs_def] ra_insert_at_def
  by (intro local_op_map local_op_with_value local_op_write)

interpretation ra_pu: local_op tu "ra_push to_s st tu intr a v" for to_s st tu intr a v
  unfolding ra_push_def [abs_def] ra_insert_at_def
  by (intro local_op_map local_op_with_value local_op_write)

interpretation ra_txt: local_op tu "ra_insert_text st tu intr a index s" for st tu intr a index s
  unfolding ra_insert_text_def [abs_def] by (rule local_op_write)

interpretation ra_del: local_op tu "ra_delete_at y st tu intr a index" for y st tu intr a index
  unfolding ra_delete_at_def [abs_def] by (intro local_op_map local_op_write)

interpretation ra_clr: local_op tu "ra_clear st tu intr a" for st tu intr a
  unfolding ra_clear_def [abs_def] by (rule local_op_write)

interpretation ra_put: local_op tu "ra_set to_s st tu intr a index v" for to_s st tu intr a index v
  unfolding ra_set_def [abs_def] by (intro local_op_with_value local_op_map local_op_write)

section \<open>Ruby's Array as the specification\<close>

text \<open>What the code relies on of \<open>Array\<close>: within bounds \<open>insert\<close> adds one element that reads as
  what was written (a map in some order), \<open>remove\<close> and \<open>remove_range\<close> take out theirs, and
  the others stay.\<close>

definition array_laws :: "yrs \<Rightarrow> ('d, 'id) yrs_store \<Rightarrow> 'id \<Rightarrow> bool" where
  "array_laws y st a \<longleftrightarrow>
     (\<forall>d xs i p. array_at st d a = Some xs \<longrightarrow> i \<le> length xs \<longrightarrow>
        (\<exists>d' x. ya_insert st a i p d = (Inr (slot_id x), d') \<and> array_at st d' a = Some (take i xs @ x # drop i xs)
           \<and> same_any (rd_out_to_any y (slot_out x)) (prelim_any p)))
     \<and> (\<forall>d xs i. array_at st d a = Some xs \<longrightarrow> i < length xs \<longrightarrow>
          (\<exists>d'. ya_remove st a i d = (Inr (), d') \<and> array_at st d' a = Some (take i xs @ drop (Suc i) xs)))
     \<and> (\<forall>d xs i n. array_at st d a = Some xs \<longrightarrow> i + n \<le> length xs \<longrightarrow>
          (\<exists>d'. ya_remove_range st a i n d = (Inr (), d') \<and> array_at st d' a = Some (take i xs @ drop (i + n) xs)))"

lemma array_lawsD:
  assumes "array_laws y st a" and "array_at st d a = Some xs"
  shows "i \<le> length xs \<Longrightarrow>
      \<exists>d' x. ya_insert st a i p d = (Inr (slot_id x), d') \<and> array_at st d' a = Some (take i xs @ x # drop i xs)
           \<and> same_any (rd_out_to_any y (slot_out x)) (prelim_any p)"
    "i < length xs \<Longrightarrow> \<exists>d'. ya_remove st a i d = (Inr (), d') \<and> array_at st d' a = Some (take i xs @ drop (Suc i) xs)"
    "i + n \<le> length xs \<Longrightarrow>
      \<exists>d'. ya_remove_range st a i n d = (Inr (), d') \<and> array_at st d' a = Some (take i xs @ drop (i + n) xs)"
  using assms unfolding array_laws_def by blast+

datatype array_call =
    CallPush rvalue
  | CallInsert int rvalue
  | CallInsertText int string
  | CallSet int rvalue
  | CallDeleteAt int
  | CallClear

fun array_run ::
  "(rvalue \<Rightarrow> value_error + string) \<Rightarrow> yrs \<Rightarrow> ('d, 'id) yrs_store \<Rightarrow> ('d \<Rightarrow> 'd \<Rightarrow> bytes option)
     \<Rightarrow> 'id \<Rightarrow> 'd rb_doc \<Rightarrow> string option \<times> array_call \<Rightarrow> 'd rb_doc" where
  "array_run to_s y st tu a rb (intr, CallPush v) = snd (ra_push to_s st tu intr a v rb)"
| "array_run to_s y st tu a rb (intr, CallInsert i v) = snd (ra_insert to_s st tu intr a i v rb)"
| "array_run to_s y st tu a rb (intr, CallInsertText i s) = snd (ra_insert_text st tu intr a i s rb)"
| "array_run to_s y st tu a rb (intr, CallSet i v) = snd (ra_set to_s st tu intr a i v rb)"
| "array_run to_s y st tu a rb (intr, CallDeleteAt i) = snd (ra_delete_at y st tu intr a i rb)"
| "array_run to_s y st tu a rb (intr, CallClear) = snd (ra_clear st tu intr a rb)"

fun array_spec :: "(rvalue \<Rightarrow> value_error + string) \<Rightarrow> any list \<Rightarrow> array_call \<Rightarrow> any list" where
  "array_spec to_s vs (CallPush v) =
     (case ruby_to_invalue to_s v of Inl _ \<Rightarrow> vs | Inr iv \<Rightarrow> vs @ [invalue_to_any iv])"
| "array_spec to_s vs (CallInsert i v) =
     (case ruby_to_invalue to_s v of Inl _ \<Rightarrow> vs | Inr iv \<Rightarrow> insert_clamped i [invalue_to_any iv] vs)"
| "array_spec to_s vs (CallInsertText i s) = insert_clamped i [AString s] vs"
| "array_spec to_s vs (CallSet i v) =
     (case ruby_to_invalue to_s v of
        Inl _ \<Rightarrow> vs
      | Inr iv \<Rightarrow> (case ruby_set i (invalue_to_any iv) vs of Some ws \<Rightarrow> ws | None \<Rightarrow> vs))"
| "array_spec to_s vs (CallDeleteAt i) = (case ruby_delete_at i vs of Some ws \<Rightarrow> ws | None \<Rightarrow> vs)"
| "array_spec to_s vs CallClear = []"

text \<open>An array that reads as the list \<open>vs\<close>.\<close>

definition reads_as :: "yrs \<Rightarrow> ('d, 'id) yrs_store \<Rightarrow> 'id \<Rightarrow> 'd \<Rightarrow> any list \<Rightarrow> bool" where
  "reads_as y st a d vs \<longleftrightarrow>
     (\<exists>xs. array_at st d a = Some xs \<and> list_all2 (\<lambda>x v. same_any (rd_out_to_any y (slot_out x)) v) xs vs)"

lemma element_index_less: "element_index index len = Some i \<Longrightarrow> i < len"
  by (auto simp: element_index_def Let_def split: if_splits)

lemma ra_insert_body_reads:
  assumes laws: "array_laws y st a" and r: "reads_as y st a d vs"
  shows "\<exists>i d'. ra_insert_body st a index p d = (Inr i, d') \<and> reads_as y st a d' (insert_clamped index [prelim_any p] vs)"
proof -
  obtain xs where xs: "array_at st d a = Some xs" "list_all2 (\<lambda>x v. same_any (rd_out_to_any y (slot_out x)) v) xs vs"
    using r by (auto simp: reads_as_def)
  have len: "length xs = length vs" using xs(2) by (rule list_all2_lengthD)
  let ?i = "insert_index index (length xs)"
  obtain d' x where "ya_insert st a ?i p d = (Inr (slot_id x), d')"
    "array_at st d' a = Some (take ?i xs @ x # drop ?i xs)" "same_any (rd_out_to_any y (slot_out x)) (prelim_any p)"
    using array_lawsD(1) [OF laws xs(1) insert_index_le] by blast
  with xs len show ?thesis
    by (auto simp: ra_insert_body_def bind_txn_def resolve_or_def reads_as_def insert_index_clamped Let_def
        intro!: list_all2_appendI list_all2_takeI list_all2_dropI)
qed

lemma ra_set_body_reads:
  assumes laws: "array_laws y st a" and r: "reads_as y st a d vs" and i: "element_index index (length vs) = Some k"
  shows "\<exists>i d'. ra_set_body st a index p d = (Inr i, d') \<and> reads_as y st a d' (vs[k := prelim_any p])"
proof -
  obtain xs where xs: "array_at st d a = Some xs" "list_all2 (\<lambda>x v. same_any (rd_out_to_any y (slot_out x)) v) xs vs"
    using r by (auto simp: reads_as_def)
  have len: "length xs = length vs" using xs(2) by (rule list_all2_lengthD)
  have k: "k < length xs" using element_index_less [OF i] len by simp
  obtain d1 where d1: "ya_remove st a k d = (Inr (), d1)" "array_at st d1 a = Some (take k xs @ drop (Suc k) xs)"
    using array_lawsD(2) [OF laws xs(1) k] by blast
  obtain d2 x where d2: "ya_insert st a k p d1 = (Inr (slot_id x), d2)"
    "array_at st d2 a = Some (take k xs @ x # drop (Suc k) xs)" "same_any (rd_out_to_any y (slot_out x)) (prelim_any p)"
  proof -
    have "k \<le> length (take k xs @ drop (Suc k) xs)" using k by simp
    from array_lawsD(1) [OF laws d1(2) this, of p] show ?thesis using k that by (auto simp: min_def)
  qed
  have "list_all2 (\<lambda>x v. same_any (rd_out_to_any y (slot_out x)) v) (take k xs @ x # drop (Suc k) xs)
      (take k vs @ prelim_any p # drop (Suc k) vs)"
    using xs(2) d2(3) by (auto intro!: list_all2_appendI list_all2_takeI list_all2_dropI)
  moreover have "vs[k := prelim_any p] = take k vs @ prelim_any p # drop (Suc k) vs"
    using k len by (simp add: upd_conv_take_nth_drop)
  ultimately show ?thesis
    using xs len i d1 d2 by (auto simp: ra_set_body_def bind_txn_def resolve_or_def reads_as_def)
qed

lemma ra_delete_body_reads:
  assumes laws: "array_laws y st a" and r: "reads_as y st a d vs"
  shows "\<exists>prev d'. ra_delete_body y st a index d = (Inr prev, d') \<and> reads_as y st a d' (array_spec to_s vs (CallDeleteAt index))
    \<and> rel_option same_any prev (Option.bind (element_index index (length vs)) (list_get vs))"
proof -
  obtain xs where xs: "array_at st d a = Some xs" "list_all2 (\<lambda>x v. same_any (rd_out_to_any y (slot_out x)) v) xs vs"
    using r by (auto simp: reads_as_def)
  have len: "length xs = length vs" using xs(2) by (rule list_all2_lengthD)
  show ?thesis
  proof (cases "element_index index (length vs)")
    case None
    with xs len show ?thesis
      by (auto simp: ra_delete_body_def bind_txn_def read_txn_def ret_def reads_as_def element_index_delete)
  next
    case (Some k)
    have k: "k < length xs" using element_index_less [OF Some] len by simp
    obtain d1 where "ya_remove st a k d = (Inr (), d1)" "array_at st d1 a = Some (take k xs @ drop (Suc k) xs)"
      using array_lawsD(2) [OF laws xs(1) k] by blast
    moreover have "same_any (rd_out_to_any y (slot_out (xs ! k))) (vs ! k)"
      using xs(2) k by (rule list_all2_nthD)
    ultimately show ?thesis
      using xs len Some k
      by (auto simp: ra_delete_body_def bind_txn_def read_txn_def ret_def reads_as_def list_get_def element_index_delete
          intro!: list_all2_appendI list_all2_takeI list_all2_dropI)
  qed
qed

lemma ra_clear_reads:
  assumes laws: "array_laws y st a" and r: "reads_as y st a (ydoc rb) vs"
  shows "reads_as y st a (ydoc (snd (ra_clear st tu intr a rb))) []"
proof -
  obtain xs where xs: "array_at st (ydoc rb) a = Some xs" using r by (auto simp: reads_as_def)
  obtain d' where "ya_remove_range st a 0 (length xs) (ydoc rb) = (Inr (), d')" "array_at st d' a = Some []"
    using array_lawsD(3) [OF laws xs, of 0 "length xs"] by auto
  with xs show ?thesis
    by (auto simp: ra_clear_def bind_txn_def read_txn_def ret_def reads_as_def)
qed

lemmas ra_write_defs = ra_push_def ra_insert_def ra_insert_at_def ra_insert_text_def ra_set_def ra_delete_at_def

lemma array_run_reads:
  assumes laws: "array_laws y st a" and r: "reads_as y st a (ydoc rb) vs"
  shows "reads_as y st a (ydoc (array_run to_s y st tu a rb (intr, call))) (array_spec to_s vs call)"
proof -
  note ins = ra_insert_body_reads [OF laws r]
  have put: "reads_as y st a (ydoc (snd (ra_insert_at to_s st tu intr a i v rb)))
      (case ruby_to_invalue to_s v of Inl _ \<Rightarrow> vs | Inr iv \<Rightarrow> insert_clamped i [invalue_to_any iv] vs)" for i v
  proof (cases "ruby_to_invalue to_s v")
    case (Inr iv)
    with ins [of i "PIn (to_in iv)"] show ?thesis
      by (auto simp: ra_insert_at_def ydoc_with_value bind_txn_def ret_def in_any_to_in)
  qed (use r in \<open>simp add: ra_insert_at_def ydoc_with_value\<close>)
  show ?thesis
  proof (cases call)
    case (CallPush v)
    then show ?thesis
      using put [of "-1" v] by (cases "ruby_to_invalue to_s v") (simp_all add: ra_push_def insert_at_end)
  next
    case (CallInsert i v)
    then show ?thesis using put [of i v] by (simp add: ra_insert_def)
  next
    case (CallInsertText i s)
    then show ?thesis using ins [of i "PText s"] by (auto simp: ra_insert_text_def)
  next
    case (CallSet i v)
    show ?thesis
    proof (cases "ruby_to_invalue to_s v")
      case (Inr iv)
      show ?thesis
      proof (cases "element_index i (length vs)")
        case None
        then show ?thesis
          using CallSet Inr r list_all2_lengthD
          by (fastforce simp: ra_set_def ydoc_with_value ra_set_body_def bind_txn_def resolve_or_def reads_as_def element_index_set)
      next
        case (Some k)
        with CallSet Inr ra_set_body_reads [OF laws r Some, of "PIn (to_in iv)"] show ?thesis
          by (auto simp: ra_set_def ydoc_with_value in_any_to_in element_index_set)
      qed
    qed (use CallSet r in \<open>simp add: ra_set_def ydoc_with_value\<close>)
  next
    case (CallDeleteAt i)
    then show ?thesis using ra_delete_body_reads [OF laws r, of i to_s] by (auto simp: ra_delete_at_def)
  next
    case CallClear
    then show ?thesis using ra_clear_reads [OF laws r] by simp
  qed
qed

text \<open>What the calls that return an element return, in Ruby's terms.\<close>

lemma ra_results:
  assumes laws: "array_laws y st a" and r: "reads_as y st a (ydoc rb) vs"
    and ws: "ra_snapshot y st None a rb = Inr ws"
  shows "ra_get y st None a i rb = Inr (any_or_nil (ruby_at i ws))"
    "fst (ra_delete_at y st tu None a i rb) = Inr (any_or_nil (ruby_at i ws))"
    "ruby_to_invalue to_s v = Inr iv \<Longrightarrow> fst (ra_set to_s st tu None a i v rb)
      = (if ruby_at i ws = None then Inl (YErr ''index out of range'') else Inr v)"
proof -
  obtain xs where xs: "array_at st (ydoc rb) a = Some xs" using r by (auto simp: reads_as_def)
  then have ws: "ws = map (\<lambda>v. rd_out_to_any y (slot_out v)) xs"
    using ws by (simp add: ra_snapshot_def nogvl_read_def nogvl_def)
  have at: "ruby_at i ws = Option.bind (element_index i (length xs)) (\<lambda>i. map_option (\<lambda>v. rd_out_to_any y (slot_out v)) (list_get xs i))"
    unfolding ws element_index_at
    by (cases "element_index i (length xs)") (auto simp: list_get_def dest: element_index_less)
  then show "ra_get y st None a i rb = Inr (any_or_nil (ruby_at i ws))"
    using xs by (simp add: ra_get_def nogvl_read_def nogvl_def)
  have len: "length vs = length xs" using r xs by (auto simp: reads_as_def dest: list_all2_lengthD)
  show "fst (ra_delete_at y st tu None a i rb) = Inr (any_or_nil (ruby_at i ws))"
  proof (cases "element_index i (length xs)")
    case None
    then show ?thesis
      using xs at by (simp add: ra_delete_at_def ra_delete_body_def bind_txn_def read_txn_def ret_def write_txn_def guarded_def nogvl_def)
  next
    case (Some k)
    obtain d1 where "ya_remove st a k (ydoc rb) = (Inr (), d1)"
      using array_lawsD(2) [OF laws xs element_index_less [OF Some]] by blast
    then show ?thesis
      using xs at Some
      by (simp add: ra_delete_at_def ra_delete_body_def bind_txn_def read_txn_def ret_def write_txn_def guarded_def nogvl_def)
  qed
  assume iv: "ruby_to_invalue to_s v = Inr iv"
  show "fst (ra_set to_s st tu None a i v rb) = (if ruby_at i ws = None then Inl (YErr ''index out of range'') else Inr v)"
  proof (cases "element_index i (length xs)")
    case None
    then show ?thesis
      using xs iv at by (simp add: ra_set_def with_value_def ra_set_body_def bind_txn_def resolve_or_def write_txn_def guarded_def nogvl_def)
  next
    case (Some k)
    then obtain j d' where "ra_set_body st a i (PIn (to_in iv)) (ydoc rb) = (Inr j, d')"
      using ra_set_body_reads [OF laws r] len by metis
    moreover have "ruby_at i ws \<noteq> None" using Some element_index_less [OF Some] by (simp add: at list_get_def)
    ultimately show ?thesis using iv by (simp add: ra_set_def with_value_def write_txn_def guarded_def nogvl_def)
  qed
qed

end
