(* ===== verification/MapHandle.thy ===== *)
theory MapHandle
  imports Handles
begin

text \<open>
  The live map handle (\<open>src/ext/yrby/src/map.rs\<close>, \<open>RbMap\<close>): one definition per method, prefixed
  \<open>rm_\<close>; \<open>m\<close> is the identity the handle keeps.  A key is read as \<open>key_to_string\<close> reads it before
  any transaction opens.  The specification is a finite map from strings to the values the
  entries read as; every sequence of calls refines it.
\<close>

section \<open>Reads\<close>

text \<open>Reading a key, which may fail, before the rest of a method.\<close>

definition with_key :: "value_error + string \<Rightarrow> (string \<Rightarrow> handle_error + 'r) \<Rightarrow> handle_error + 'r" where
  "with_key key f = bind_sum (map_sum ValueErr id key) f"

definition rm_child ::
  "(rvalue \<Rightarrow> value_error + string) \<Rightarrow> ('d, 'id) yrs_store \<Rightarrow> string option \<Rightarrow> 'id \<Rightarrow> rvalue \<Rightarrow> 'd rb_doc
     \<Rightarrow> handle_error + 'id child" where
  "rm_child to_s st intr m key rb =
     with_key (key_to_string to_s key) (\<lambda>k.
       nogvl_read intr (child_of_slot (Option.bind (map_at st (ydoc rb) m) (\<lambda>kvs. map_of kvs k))))"

definition rm_get ::
  "(rvalue \<Rightarrow> value_error + string) \<Rightarrow> yrs \<Rightarrow> ('d, 'id) yrs_store \<Rightarrow> string option \<Rightarrow> 'id \<Rightarrow> rvalue \<Rightarrow> 'd rb_doc
     \<Rightarrow> handle_error + rvalue" where
  "rm_get to_s y st intr m key rb =
     with_key (key_to_string to_s key) (\<lambda>k.
     bind_sum (nogvl_read intr
       (Option.bind (map_at st (ydoc rb) m) (\<lambda>kvs.
          map_option (\<lambda>v. rd_out_to_any y (slot_out v)) (map_of kvs k))))
     (\<lambda>got. Inr (any_or_nil got)))"

definition rm_get_map ::
  "(rvalue \<Rightarrow> value_error + string) \<Rightarrow> ('d, 'id) yrs_store \<Rightarrow> string option \<Rightarrow> 'id \<Rightarrow> rvalue \<Rightarrow> 'd rb_doc
     \<Rightarrow> handle_error + 'id option" where
  "rm_get_map to_s st intr m key rb =
     bind_sum (rm_child to_s st intr m key rb) (\<lambda>c. Inr (case c of CMap i \<Rightarrow> Some i | _ \<Rightarrow> None))"

definition rm_get_array ::
  "(rvalue \<Rightarrow> value_error + string) \<Rightarrow> ('d, 'id) yrs_store \<Rightarrow> string option \<Rightarrow> 'id \<Rightarrow> rvalue \<Rightarrow> 'd rb_doc
     \<Rightarrow> handle_error + 'id option" where
  "rm_get_array to_s st intr m key rb =
     bind_sum (rm_child to_s st intr m key rb) (\<lambda>c. Inr (case c of CArray i \<Rightarrow> Some i | _ \<Rightarrow> None))"

definition rm_get_text ::
  "(rvalue \<Rightarrow> value_error + string) \<Rightarrow> ('d, 'id) yrs_store \<Rightarrow> string option \<Rightarrow> 'id \<Rightarrow> rvalue \<Rightarrow> 'd rb_doc
     \<Rightarrow> handle_error + 'id option" where
  "rm_get_text to_s st intr m key rb =
     bind_sum (rm_child to_s st intr m key rb) (\<lambda>c. Inr (case c of CText i \<Rightarrow> Some i | _ \<Rightarrow> None))"

definition rm_has_key ::
  "(rvalue \<Rightarrow> value_error + string) \<Rightarrow> ('d, 'id) yrs_store \<Rightarrow> string option \<Rightarrow> 'id \<Rightarrow> rvalue \<Rightarrow> 'd rb_doc
     \<Rightarrow> handle_error + bool" where
  "rm_has_key to_s st intr m key rb =
     with_key (key_to_string to_s key) (\<lambda>k.
       nogvl_read intr (case map_at st (ydoc rb) m of Some kvs \<Rightarrow> map_of kvs k \<noteq> None | None \<Rightarrow> False))"

definition rm_size :: "('d, 'id) yrs_store \<Rightarrow> string option \<Rightarrow> 'id \<Rightarrow> 'd rb_doc \<Rightarrow> handle_error + nat" where
  "rm_size st intr m rb =
     nogvl_read intr (case map_at st (ydoc rb) m of Some kvs \<Rightarrow> length kvs | None \<Rightarrow> 0)"

definition rm_keys :: "('d, 'id) yrs_store \<Rightarrow> string option \<Rightarrow> 'id \<Rightarrow> 'd rb_doc \<Rightarrow> handle_error + string list" where
  "rm_keys st intr m rb =
     nogvl_read intr (case map_at st (ydoc rb) m of Some kvs \<Rightarrow> map fst kvs | None \<Rightarrow> [])"

definition rm_snapshot ::
  "yrs \<Rightarrow> ('d, 'id) yrs_store \<Rightarrow> string option \<Rightarrow> 'id \<Rightarrow> 'd rb_doc \<Rightarrow> handle_error + (string \<times> any) list" where
  "rm_snapshot y st intr m rb =
     nogvl_read intr (case map_at st (ydoc rb) m of
         Some kvs \<Rightarrow> map (\<lambda>(k, v). (k, rd_out_to_any y (slot_out v))) kvs
       | None \<Rightarrow> [])"

definition rm_to_h ::
  "yrs \<Rightarrow> ('d, 'id) yrs_store \<Rightarrow> string option \<Rightarrow> 'id \<Rightarrow> 'd rb_doc \<Rightarrow> handle_error + rvalue" where
  "rm_to_h y st intr m rb =
     bind_sum (rm_snapshot y st intr m rb) (\<lambda>kvs.
       Inr (RHash (foldl (\<lambda>h (k, v). aset k (any_to_ruby v) h) [] kvs)))"

definition rm_each ::
  "yrs \<Rightarrow> ('d, 'id) yrs_store \<Rightarrow> string option \<Rightarrow> 'id \<Rightarrow> 'd rb_doc
     \<Rightarrow> (rvalue \<times> rvalue \<Rightarrow> ('h, rvalue) txn) option \<Rightarrow> 'h \<Rightarrow> (handle_error + each_result) \<times> 'h" where
  "rm_each y st intr m rb block =
     each_with (map_option (\<lambda>b (k, v). b (RString k, any_to_ruby v)) block) (rm_snapshot y st intr m rb)"

section \<open>Writes\<close>

definition map_gone :: string where "map_gone = ''map no longer exists''"

definition rm_set_body :: "('d, 'id) yrs_store \<Rightarrow> 'id \<Rightarrow> string \<Rightarrow> prelim \<Rightarrow> ('d, 'id) txn" where
  "rm_set_body st m k p = bind_txn (resolve_or map_gone (\<lambda>d. map_at st d m)) (\<lambda>_. ym_insert st m k p)"

text \<open>\<open>map[k] = v\<close> yields \<open>v\<close>.\<close>

definition rm_set ::
  "(rvalue \<Rightarrow> value_error + string) \<Rightarrow> ('d, 'id) yrs_store \<Rightarrow> ('d \<Rightarrow> 'd \<Rightarrow> bytes option) \<Rightarrow> string option
     \<Rightarrow> 'id \<Rightarrow> rvalue \<Rightarrow> rvalue \<Rightarrow> 'd rb_doc \<Rightarrow> (handle_error + rvalue) \<times> 'd rb_doc" where
  "rm_set to_s st tu intr m key v rb =
     with_value (key_to_string to_s key) rb (\<lambda>k.
     with_value (ruby_to_invalue to_s v) rb (\<lambda>iv.
       apfst (map_sum id (\<lambda>_. v)) (write_txn tu intr rb (rm_set_body st m k (PIn (to_in iv))))))"

definition rm_set_text ::
  "(rvalue \<Rightarrow> value_error + string) \<Rightarrow> ('d, 'id) yrs_store \<Rightarrow> ('d \<Rightarrow> 'd \<Rightarrow> bytes option) \<Rightarrow> string option
     \<Rightarrow> 'id \<Rightarrow> rvalue \<Rightarrow> string \<Rightarrow> 'd rb_doc \<Rightarrow> (handle_error + 'id) \<times> 'd rb_doc" where
  "rm_set_text to_s st tu intr m key s rb =
     with_value (key_to_string to_s key) rb (\<lambda>k. write_txn tu intr rb (rm_set_body st m k (PText s)))"

definition rm_delete_body :: "yrs \<Rightarrow> ('d, 'id) yrs_store \<Rightarrow> 'id \<Rightarrow> string \<Rightarrow> ('d, any option) txn" where
  "rm_delete_body y st m k =
     bind_txn (read_txn (\<lambda>d. map_at st d m)) (\<lambda>found.
       case found of
         None \<Rightarrow> ret None
       | Some kvs \<Rightarrow>
           (let prev = map_option (\<lambda>v. rd_out_to_any y (slot_out v)) (map_of kvs k)
            in bind_txn (ym_remove st m k) (\<lambda>_. ret prev)))"

definition rm_delete ::
  "(rvalue \<Rightarrow> value_error + string) \<Rightarrow> yrs \<Rightarrow> ('d, 'id) yrs_store \<Rightarrow> ('d \<Rightarrow> 'd \<Rightarrow> bytes option) \<Rightarrow> string option
     \<Rightarrow> 'id \<Rightarrow> rvalue \<Rightarrow> 'd rb_doc \<Rightarrow> (handle_error + rvalue) \<times> 'd rb_doc" where
  "rm_delete to_s y st tu intr m key rb =
     with_value (key_to_string to_s key) rb (\<lambda>k.
       apfst (map_sum id any_or_nil) (write_txn tu intr rb (rm_delete_body y st m k)))"

definition rm_clear ::
  "('d, 'id) yrs_store \<Rightarrow> ('d \<Rightarrow> 'd \<Rightarrow> bytes option) \<Rightarrow> string option \<Rightarrow> 'id \<Rightarrow> 'd rb_doc
     \<Rightarrow> (handle_error + unit) \<times> 'd rb_doc" where
  "rm_clear st tu intr m rb =
     write_txn tu intr rb
       (bind_txn (read_txn (\<lambda>d. map_at st d m)) (\<lambda>found.
         case found of None \<Rightarrow> ret () | Some _ \<Rightarrow> ym_clear st m))"

definition root_map ::
  "('d, 'id) yrs_store \<Rightarrow> string option \<Rightarrow> string \<Rightarrow> 'd rb_doc \<Rightarrow> (handle_error + 'id) \<times> 'd rb_doc" where
  "root_map st intr name rb =
     (let (i, d) = get_or_insert st KMap name (ydoc rb) in (nogvl_read intr i, rb\<lparr>ydoc := d\<rparr>))"

section \<open>One local transaction per write\<close>

interpretation rm_put: local_op tu "rm_set to_s st tu intr m key v" for to_s st tu intr m key v
  unfolding rm_set_def [abs_def] by (intro local_op_with_value local_op_map local_op_write)

interpretation rm_txt: local_op tu "rm_set_text to_s st tu intr m key s" for to_s st tu intr m key s
  unfolding rm_set_text_def [abs_def] by (intro local_op_with_value local_op_write)

interpretation rm_del: local_op tu "rm_delete to_s y st tu intr m key" for to_s y st tu intr m key
  unfolding rm_delete_def [abs_def] by (intro local_op_with_value local_op_map local_op_write)

interpretation rm_clr: local_op tu "rm_clear st tu intr m" for st tu intr m
  unfolding rm_clear_def [abs_def] by (rule local_op_write)

section \<open>A finite map as the specification\<close>

text \<open>What the code relies on of \<open>Map\<close>: its keys are distinct, \<open>insert\<close> binds the key to a value
  that reads as what was written, \<open>remove\<close> and \<open>clear\<close> unbind, the other keys stay.\<close>

definition map_laws :: "yrs \<Rightarrow> ('d, 'id) yrs_store \<Rightarrow> 'id \<Rightarrow> bool" where
  "map_laws y st m \<longleftrightarrow>
     (\<forall>d kvs k p. map_at st d m = Some kvs \<longrightarrow>
        (\<exists>d' x kvs'. ym_insert st m k p d = (Inr (slot_id x), d') \<and> map_at st d' m = Some kvs'
           \<and> map_of kvs' = (map_of kvs)(k \<mapsto> x)
           \<and> same_any (rd_out_to_any y (slot_out x)) (prelim_any p)))
     \<and> (\<forall>d kvs k. map_at st d m = Some kvs \<longrightarrow>
          (\<exists>d' kvs'. ym_remove st m k d = (Inr (), d') \<and> map_at st d' m = Some kvs'
             \<and> map_of kvs' = (map_of kvs)(k := None)))
     \<and> (\<forall>d kvs. map_at st d m = Some kvs \<longrightarrow>
          distinct (map fst kvs) \<and> (\<exists>d'. ym_clear st m d = (Inr (), d') \<and> map_at st d' m = Some []))"

lemma map_lawsD:
  assumes "map_laws y st m" and "map_at st d m = Some kvs"
  shows "\<exists>d' x kvs'. ym_insert st m k p d = (Inr (slot_id x), d') \<and> map_at st d' m = Some kvs'
           \<and> map_of kvs' = (map_of kvs)(k \<mapsto> x)
           \<and> same_any (rd_out_to_any y (slot_out x)) (prelim_any p)"
    "\<exists>d' kvs'. ym_remove st m k d = (Inr (), d') \<and> map_at st d' m = Some kvs'
             \<and> map_of kvs' = (map_of kvs)(k := None)"
    "distinct (map fst kvs)" "\<exists>d'. ym_clear st m d = (Inr (), d') \<and> map_at st d' m = Some []"
  using assms unfolding map_laws_def by blast+

datatype map_call =
    MapSet rvalue rvalue
  | MapSetText rvalue string
  | MapDelete rvalue
  | MapClear

fun map_run ::
  "(rvalue \<Rightarrow> value_error + string) \<Rightarrow> yrs \<Rightarrow> ('d, 'id) yrs_store \<Rightarrow> ('d \<Rightarrow> 'd \<Rightarrow> bytes option)
     \<Rightarrow> 'id \<Rightarrow> 'd rb_doc \<Rightarrow> string option \<times> map_call \<Rightarrow> 'd rb_doc" where
  "map_run to_s y st tu m rb (intr, MapSet k v) = snd (rm_set to_s st tu intr m k v rb)"
| "map_run to_s y st tu m rb (intr, MapSetText k s) = snd (rm_set_text to_s st tu intr m k s rb)"
| "map_run to_s y st tu m rb (intr, MapDelete k) = snd (rm_delete to_s y st tu intr m k rb)"
| "map_run to_s y st tu m rb (intr, MapClear) = snd (rm_clear st tu intr m rb)"

text \<open>A call whose arguments do not convert changes nothing.\<close>

fun map_spec ::
  "(rvalue \<Rightarrow> value_error + string) \<Rightarrow> (string \<rightharpoonup> any) \<Rightarrow> map_call \<Rightarrow> (string \<rightharpoonup> any)" where
  "map_spec to_s f (MapSet k v) =
     (case (key_to_string to_s k, ruby_to_invalue to_s v) of
        (Inr key, Inr iv) \<Rightarrow> f(key \<mapsto> invalue_to_any iv)
      | _ \<Rightarrow> f)"
| "map_spec to_s f (MapSetText k s) =
     (case key_to_string to_s k of Inr key \<Rightarrow> f(key \<mapsto> AString s) | Inl _ \<Rightarrow> f)"
| "map_spec to_s f (MapDelete k) =
     (case key_to_string to_s k of Inr key \<Rightarrow> f(key := None) | Inl _ \<Rightarrow> f)"
| "map_spec to_s f MapClear = Map.empty"

definition slot_any :: "yrs \<Rightarrow> 'id slot \<Rightarrow> any" where
  "slot_any y v = rd_out_to_any y (slot_out v)"

definition map_reads :: "yrs \<Rightarrow> ('d, 'id) yrs_store \<Rightarrow> 'id \<Rightarrow> 'd \<Rightarrow> (string \<rightharpoonup> any) \<Rightarrow> bool" where
  "map_reads y st m d f \<longleftrightarrow>
     (\<exists>kvs. map_at st d m = Some kvs
        \<and> (\<forall>k. rel_option same_any (map_option (slot_any y) (map_of kvs k)) (f k)))"

lemma rm_set_body_reads:
  assumes laws: "map_laws y st m" and r: "map_reads y st m d f"
  shows "\<exists>i d'. rm_set_body st m k p d = (Inr i, d') \<and> map_reads y st m d' (f(k \<mapsto> prelim_any p))"
proof -
  obtain kvs where kvs: "map_at st d m = Some kvs"
    "\<And>k. rel_option same_any (map_option (slot_any y) (map_of kvs k)) (f k)"
    using r by (auto simp: map_reads_def)
  obtain d' x kvs' where "ym_insert st m k p d = (Inr (slot_id x), d')" "map_at st d' m = Some kvs'"
    "map_of kvs' = (map_of kvs)(k \<mapsto> x)" "same_any (slot_any y x) (prelim_any p)"
    using map_lawsD(1) [OF laws kvs(1)] unfolding slot_any_def by blast
  with kvs show ?thesis
    by (auto simp: rm_set_body_def bind_txn_def resolve_or_def map_reads_def)
qed

lemma rm_delete_body_reads:
  assumes laws: "map_laws y st m" and r: "map_reads y st m d f"
  shows "\<exists>prev d'. rm_delete_body y st m k d = (Inr prev, d') \<and> map_reads y st m d' (f(k := None))
    \<and> rel_option same_any prev (f k)"
proof -
  obtain kvs where kvs: "map_at st d m = Some kvs"
    "\<And>k. rel_option same_any (map_option (slot_any y) (map_of kvs k)) (f k)"
    using r by (auto simp: map_reads_def)
  obtain d' kvs' where "ym_remove st m k d = (Inr (), d')" "map_at st d' m = Some kvs'"
    "map_of kvs' = (map_of kvs)(k := None)"
    using map_lawsD(2) [OF laws kvs(1)] by blast
  with kvs show ?thesis
    by (auto simp: rm_delete_body_def bind_txn_def read_txn_def ret_def map_reads_def slot_any_def [abs_def])
qed

lemma rm_clear_reads:
  assumes laws: "map_laws y st m" and r: "map_reads y st m (ydoc rb) f"
  shows "map_reads y st m (ydoc (snd (rm_clear st tu intr m rb))) Map.empty"
proof -
  obtain kvs where kvs: "map_at st (ydoc rb) m = Some kvs" using r by (auto simp: map_reads_def)
  obtain d' where "ym_clear st m (ydoc rb) = (Inr (), d')" "map_at st d' m = Some []"
    using map_lawsD(4) [OF laws kvs] by blast
  with kvs show ?thesis by (auto simp: rm_clear_def bind_txn_def read_txn_def map_reads_def)
qed

lemma map_run_reads:
  assumes laws: "map_laws y st m" and r: "map_reads y st m (ydoc rb) f"
  shows "map_reads y st m (ydoc (map_run to_s y st tu m rb (intr, call))) (map_spec to_s f call)"
proof (cases call)
  case (MapSet k v)
  show ?thesis
  proof (cases "key_to_string to_s k"; cases "ruby_to_invalue to_s v")
    fix key iv assume "key_to_string to_s k = Inr key" "ruby_to_invalue to_s v = Inr iv"
    with MapSet rm_set_body_reads [OF laws r, of key "PIn (to_in iv)"] show ?thesis
      by (auto simp: rm_set_def ydoc_with_value in_any_to_in)
  qed (use MapSet r in \<open>simp_all add: rm_set_def ydoc_with_value\<close>)
next
  case (MapSetText k s)
  show ?thesis
  proof (cases "key_to_string to_s k")
    case (Inr key)
    with MapSetText rm_set_body_reads [OF laws r, of key "PText s"] show ?thesis
      by (auto simp: rm_set_text_def ydoc_with_value)
  qed (use MapSetText r in \<open>simp add: rm_set_text_def ydoc_with_value\<close>)
next
  case (MapDelete k)
  show ?thesis
  proof (cases "key_to_string to_s k")
    case (Inr key)
    with MapDelete rm_delete_body_reads [OF laws r, of key] show ?thesis
      by (auto simp: rm_delete_def ydoc_with_value)
  qed (use MapDelete r in \<open>simp add: rm_delete_def ydoc_with_value\<close>)
next
  case MapClear
  then show ?thesis using rm_clear_reads [OF laws r] by simp
qed

text \<open>What the reads of a handle return.\<close>

lemma map_reads_snapshot:
  assumes laws: "map_laws y st m" and r: "map_reads y st m (ydoc rb) f"
  shows "\<exists>kvs. rm_snapshot y st None m rb = Inr kvs \<and> distinct (map fst kvs) \<and> rm_keys st None m rb = Inr (map fst kvs)
    \<and> rm_size st None m rb = Inr (card (dom f)) \<and> (\<forall>k. rel_option same_any (map_of kvs k) (f k))"
proof -
  obtain kvs where kvs: "map_at st (ydoc rb) m = Some kvs"
    "\<And>k. rel_option same_any (map_option (slot_any y) (map_of kvs k)) (f k)"
    using r by (auto simp: map_reads_def)
  have d: "distinct (map fst kvs)" using map_lawsD(3) [OF laws kvs(1)] .
  have "(map_of kvs k = None) = (f k = None)" for k using kvs(2) [of k] by (cases "map_of kvs k"; cases "f k") auto
  then have "dom f = dom (map_of kvs)" by (simp add: dom_def)
  then have "dom f = fst ` set kvs" by (simp add: dom_map_of_conv_image_fst)
  then have "length kvs = card (dom f)" using d by (metis distinct_card length_map set_map)
  moreover have "map_of (map (\<lambda>(k, v). (k, slot_any y v)) kvs) = map_option (slot_any y) \<circ> map_of kvs"
    by (rule map_of_map)
  ultimately show ?thesis
    using kvs d
    by (simp add: rm_snapshot_def rm_keys_def rm_size_def nogvl_read_def nogvl_def slot_any_def [abs_def] comp_def
        case_prod_unfold)
qed

end
