(* ===== verification/TextHandle.thy ===== *)
theory TextHandle
  imports Handles
begin

text \<open>
  The live text handle (\<open>src/ext/yrby/src/text.rs\<close>, \<open>RbText\<close>): one definition per method, prefixed
  \<open>rt_\<close>; \<open>t\<close> is the identity the handle keeps.  The specification is Ruby's String
  (\<open>RubySeq\<close>) on the cells of the text (its characters and embeds); every sequence of calls refines it.
\<close>

section \<open>Reads\<close>

definition rt_to_s :: "('d, 'id) yrs_store \<Rightarrow> string option \<Rightarrow> 'id \<Rightarrow> 'd rb_doc \<Rightarrow> handle_error + string" where
  "rt_to_s st intr t rb =
     nogvl_read intr (case text_at st (ydoc rb) t of Some _ \<Rightarrow> tx_string st (ydoc rb) t | None \<Rightarrow> [])"

definition rt_length :: "('d, 'id) yrs_store \<Rightarrow> string option \<Rightarrow> 'id \<Rightarrow> 'd rb_doc \<Rightarrow> handle_error + nat" where
  "rt_length st intr t rb =
     nogvl_read intr (case text_at st (ydoc rb) t of Some seq \<Rightarrow> char_len seq | None \<Rightarrow> 0)"

definition rt_is_empty :: "('d, 'id) yrs_store \<Rightarrow> string option \<Rightarrow> 'id \<Rightarrow> 'd rb_doc \<Rightarrow> handle_error + bool" where
  "rt_is_empty st intr t rb =
     nogvl_read intr (case text_at st (ydoc rb) t of Some _ \<Rightarrow> tx_len st (ydoc rb) t = 0 | None \<Rightarrow> True)"

section \<open>Writes\<close>

definition text_gone :: string where "text_gone = ''text no longer exists''"

definition rt_insert_body :: "('d, 'id) yrs_store \<Rightarrow> 'id \<Rightarrow> int \<Rightarrow> string \<Rightarrow> ('d, unit) txn" where
  "rt_insert_body st t index s =
     bind_txn (resolve_or text_gone (\<lambda>d. text_at st d t)) (\<lambda>seq.
     bind_txn (read_txn (\<lambda>d. end_or_units (\<lambda>_. tx_len st d t) seq index)) (\<lambda>at.
       tx_insert st t at s))"

definition rt_insert_at ::
  "('d, 'id) yrs_store \<Rightarrow> ('d \<Rightarrow> 'd \<Rightarrow> bytes option) \<Rightarrow> string option \<Rightarrow> 'id \<Rightarrow> int \<Rightarrow> string \<Rightarrow> 'd rb_doc
     \<Rightarrow> (handle_error + unit) \<times> 'd rb_doc" where
  "rt_insert_at st tu intr t index s rb = write_txn tu intr rb (rt_insert_body st t index s)"

text \<open>\<open>push\<close> and \<open>insert\<close> return the receiver.\<close>

definition rt_push ::
  "('d, 'id) yrs_store \<Rightarrow> ('d \<Rightarrow> 'd \<Rightarrow> bytes option) \<Rightarrow> string option \<Rightarrow> 'id \<Rightarrow> string \<Rightarrow> 'd rb_doc
     \<Rightarrow> (handle_error + 'id) \<times> 'd rb_doc" where
  "rt_push st tu intr t chunk rb = apfst (map_sum id (\<lambda>_. t)) (rt_insert_at st tu intr t (-1) chunk rb)"

definition rt_insert ::
  "('d, 'id) yrs_store \<Rightarrow> ('d \<Rightarrow> 'd \<Rightarrow> bytes option) \<Rightarrow> string option \<Rightarrow> 'id \<Rightarrow> int \<Rightarrow> string \<Rightarrow> 'd rb_doc
     \<Rightarrow> (handle_error + 'id) \<times> 'd rb_doc" where
  "rt_insert st tu intr t index chunk rb = apfst (map_sum id (\<lambda>_. t)) (rt_insert_at st tu intr t index chunk rb)"

definition rt_delete_body :: "('d, 'id) yrs_store \<Rightarrow> 'id \<Rightarrow> int \<Rightarrow> int \<Rightarrow> ('d, unit) txn" where
  "rt_delete_body st t index n =
     bind_txn (resolve_or text_gone (\<lambda>d. text_at st d t)) (\<lambda>seq.
       case delete_span index n (char_len seq) of
         Some (a, b) \<Rightarrow>
           (let f = to_units seq a; e = to_units seq b
            in if e > f then tx_remove_range st t f (e - f) else ret ())
       | None \<Rightarrow> ret ())"

definition rt_delete ::
  "('d, 'id) yrs_store \<Rightarrow> ('d \<Rightarrow> 'd \<Rightarrow> bytes option) \<Rightarrow> string option \<Rightarrow> 'id \<Rightarrow> int \<Rightarrow> int \<Rightarrow> 'd rb_doc
     \<Rightarrow> (handle_error + unit) \<times> 'd rb_doc" where
  "rt_delete st tu intr t index n rb = write_txn tu intr rb (rt_delete_body st t index n)"

definition rt_clear ::
  "('d, 'id) yrs_store \<Rightarrow> ('d \<Rightarrow> 'd \<Rightarrow> bytes option) \<Rightarrow> string option \<Rightarrow> 'id \<Rightarrow> 'd rb_doc
     \<Rightarrow> (handle_error + unit) \<times> 'd rb_doc" where
  "rt_clear st tu intr t rb =
     write_txn tu intr rb
       (bind_txn (read_txn (\<lambda>d. text_at st d t)) (\<lambda>found.
         case found of None \<Rightarrow> ret () | Some _ \<Rightarrow> remove_all st t))"

definition root_text ::
  "('d, 'id) yrs_store \<Rightarrow> string option \<Rightarrow> string \<Rightarrow> 'd rb_doc \<Rightarrow> (handle_error + 'id) \<times> 'd rb_doc" where
  "root_text st intr name rb =
     (let (i, d) = get_or_insert st KText name (ydoc rb) in (nogvl_read intr i, rb\<lparr>ydoc := d\<rparr>))"

section \<open>Positions\<close>

definition rt_native_relative_position ::
  "('d, 'id) yrs_store \<Rightarrow> string option \<Rightarrow> 'id \<Rightarrow> int \<Rightarrow> string \<Rightarrow> 'd rb_doc \<Rightarrow> handle_error + rhash" where
  "rt_native_relative_position st intr t index assoc rb =
     bind_sum (guarded intr (relative_position_body st text_gone (\<lambda>d. text_at st d t) t index (assoc_arg assoc) (ydoc rb)))
       (\<lambda>p. Inr (position_to_ruby p))"

definition rt_index_at ::
  "(rvalue \<Rightarrow> int option) \<Rightarrow> (rvalue \<Rightarrow> string option) \<Rightarrow> ('d, 'id) yrs_store \<Rightarrow> string option \<Rightarrow> 'id \<Rightarrow> rhash \<Rightarrow> 'd rb_doc
     \<Rightarrow> handle_error + nat option" where
  "rt_index_at to_int try_string st intr t position rb =
     bind_sum (map_sum BindErr id (sticky_from_ruby to_int try_string position)) (\<lambda>sticky.
       nogvl_read intr
         (Option.bind (text_at st (ydoc rb) t) (\<lambda>seq.
          Option.bind (get_offset st (ydoc rb) sticky) (\<lambda>(branch, index).
            if branch = t then Some (to_chars seq index) else None))))"

section \<open>One local transaction per write, on the shared sequence code\<close>

interpretation rt_ins: local_op tu "rt_insert st tu intr t index s" for st tu intr t index s
  unfolding rt_insert_def [abs_def] rt_insert_at_def by (intro local_op_map local_op_write)

interpretation rt_psh: local_op tu "rt_push st tu intr t s" for st tu intr t s
  unfolding rt_push_def [abs_def] rt_insert_at_def by (intro local_op_map local_op_write)

interpretation rt_del: local_op tu "rt_delete st tu intr t index n" for st tu intr t index n
  unfolding rt_delete_def [abs_def] by (rule local_op_write)

interpretation rt_clr: local_op tu "rt_clear st tu intr t" for st tu intr t
  unfolding rt_clear_def [abs_def] by (rule local_op_write)

interpretation rt_seq: text_sequence st text_gone "\<lambda>d. text_at st d t" t "rt_insert_body st t" "rt_delete_body st t"
  for st t
  by unfold_locales (simp_all add: rt_insert_body_def rt_delete_body_def seq_insert_body_def seq_delete_body_def)

section \<open>Ruby's String as the specification\<close>

datatype text_call = TextPush string | TextInsert int string | TextDelete int int | TextClear

fun text_run ::
  "('d, 'id) yrs_store \<Rightarrow> ('d \<Rightarrow> 'd \<Rightarrow> bytes option) \<Rightarrow> 'id \<Rightarrow> 'd rb_doc \<Rightarrow> string option \<times> text_call \<Rightarrow> 'd rb_doc" where
  "text_run st tu t rb (intr, TextPush s) = snd (rt_push st tu intr t s rb)"
| "text_run st tu t rb (intr, TextInsert i s) = snd (rt_insert st tu intr t i s rb)"
| "text_run st tu t rb (intr, TextDelete i n) = snd (rt_delete st tu intr t i n rb)"
| "text_run st tu t rb (intr, TextClear) = snd (rt_clear st tu intr t rb)"

fun text_spec :: "cell list \<Rightarrow> text_call \<Rightarrow> cell list" where
  "text_spec cs (TextPush s) = cs @ map CChar (chars s)"
| "text_spec cs (TextInsert i s) = insert_clamped i (map CChar (chars s)) cs"
| "text_spec cs (TextDelete i n) = (case ruby_slice i n cs of Some rest \<Rightarrow> rest | None \<Rightarrow> cs)"
| "text_spec cs TextClear = []"

definition text_reads :: "('d, 'id) yrs_store \<Rightarrow> 'id \<Rightarrow> 'd \<Rightarrow> cell list \<Rightarrow> bool" where
  "text_reads st t d cs \<longleftrightarrow> (\<exists>seq. text_at st d t = Some seq \<and> seq_cells seq = cs)"

lemma text_run_reads:
  assumes laws: "text_laws st (\<lambda>d. text_at st d t) t" and r: "text_reads st t (ydoc rb) cs"
  shows "text_reads st t (ydoc (text_run st tu t rb (intr, call))) (text_spec cs call)"
proof -
  obtain seq where seq: "text_at st (ydoc rb) t = Some seq" "seq_cells seq = cs"
    using r by (auto simp: text_reads_def)
  note ins = rt_seq.insert_refines [OF laws seq(1)]
  show ?thesis
  proof (cases call)
    case (TextPush s)
    with ins [of "-1" s] seq(2) show ?thesis
      by (auto simp: rt_push_def rt_insert_at_def text_reads_def insert_cells_end)
  next
    case (TextInsert i s)
    with ins [of i s] seq(2) show ?thesis by (auto simp: rt_insert_def rt_insert_at_def text_reads_def insert_cells_def)
  next
    case (TextDelete i n)
    with rt_seq.delete_refines [OF laws seq(1), of i n] seq(2) show ?thesis
      by (auto simp: rt_delete_def text_reads_def slice_cells_def)
  next
    case TextClear
    with remove_all_empties [OF laws seq(1)] seq(1) show ?thesis
      by (auto simp: rt_clear_def text_reads_def bind_txn_def read_txn_def)
  qed
qed

lemma text_reads_length:
  assumes laws: "text_laws st (\<lambda>d. text_at st d t) t" and r: "text_reads st t (ydoc rb) cs"
  shows "rt_length st None t rb = Inr (length cs) \<and> rt_is_empty st None t rb = Inr (cs = [])"
  using r text_lawsD(1) [OF laws]
  by (auto simp: text_reads_def rt_length_def rt_is_empty_def nogvl_read_def nogvl_def char_len_cells)

text \<open>A caret survives the way through a Ruby hash.\<close>

lemma rt_caret:
  assumes "sticky_laws st (ydoc rb) t" and seq: "text_at st (ydoc rb) t = Some seq"
    and "\<And>s. try_string (RString s) = Some s" and laws: "text_laws st (\<lambda>d. text_at st d t) t"
  shows "\<exists>h. rt_native_relative_position st None t index assoc rb = Inr h
    \<and> rt_index_at to_int try_string st None t h rb = Inr (Some (insert_index index (char_len seq)))"
proof -
  obtain p where p: "relative_position_body st text_gone (\<lambda>d. text_at st d t) t index (assoc_arg assoc) (ydoc rb) = Inr p"
    "scope_fits (pos_scope p)" "get_offset st (ydoc rb) p = Some (t, to_units seq (insert_index index (char_len seq)))"
    using relative_position_resolves [where look = "\<lambda>d. text_at st d t", OF assms(1,2) laws] by blast
  have "insert_index index (char_len seq) \<le> length (widths seq)"
    using insert_index_le [of index "char_len seq"] by (simp add: char_len_widths)
  then have "to_chars seq (to_units seq (insert_index index (char_len seq))) = insert_index index (char_len seq)"
    by (simp add: to_chars_widths to_units_widths cover_prefix widths_pos)
  then show ?thesis
    using p seq position_round_trip [OF p(2) assms(3)]
    by (simp add: rt_native_relative_position_def rt_index_at_def guarded_def nogvl_read_def nogvl_def)
qed

end
