(* ===== verification/XmlTextHandle.thy ===== *)
theory XmlTextHandle
  imports Handles
begin

text \<open>
  The live rich-text handle (\<open>src/ext/yrby/src/xml_text.rs\<close>, \<open>RbXmlText\<close> and \<open>Piece\<close>): one definition
  per method, prefixed \<open>rx_\<close>.  A handle keeps the identity of its block and the name of the root
  it lives under.  \<open>to_hash\<close> and \<open>to_ary\<close> are Ruby's implicit conversions of an object that is not
  itself a Hash or an Array, \<open>out_to_s\<close> is yrs's \<open>Out::to_string\<close>.
\<close>

record 'id rb_xml_text =
  xt_id :: 'id
  xt_root :: string

definition rx_child :: "'id rb_xml_text \<Rightarrow> 'id \<Rightarrow> 'id rb_xml_text" where
  "rx_child h block = \<lparr>xt_id = block, xt_root = xt_root h\<rparr>"

section \<open>Reads\<close>

definition rx_to_s :: "('d, 'id) yrs_store \<Rightarrow> string option \<Rightarrow> 'id rb_xml_text \<Rightarrow> 'd rb_doc \<Rightarrow> handle_error + string" where
  "rx_to_s st intr h rb =
     nogvl_read intr (case xml_at st (ydoc rb) (xt_id h) of
         Some _ \<Rightarrow> tx_string st (ydoc rb) (xt_id h) | None \<Rightarrow> [])"

definition rx_text :: "('d, 'id) yrs_store \<Rightarrow> string option \<Rightarrow> 'id rb_xml_text \<Rightarrow> 'd rb_doc \<Rightarrow> handle_error + string" where
  "rx_text st intr h rb =
     nogvl_read intr (case xml_at st (ydoc rb) (xt_id h) of Some x \<Rightarrow> block_text x | None \<Rightarrow> [])"

definition rx_length :: "('d, 'id) yrs_store \<Rightarrow> string option \<Rightarrow> 'id rb_xml_text \<Rightarrow> 'd rb_doc \<Rightarrow> handle_error + nat" where
  "rx_length st intr h rb =
     nogvl_read intr (case xml_at st (ydoc rb) (xt_id h) of Some x \<Rightarrow> char_len (tx_diff x) | None \<Rightarrow> 0)"

definition rx_is_empty :: "('d, 'id) yrs_store \<Rightarrow> string option \<Rightarrow> 'id rb_xml_text \<Rightarrow> 'd rb_doc \<Rightarrow> handle_error + bool" where
  "rx_is_empty st intr h rb =
     nogvl_read intr (case xml_at st (ydoc rb) (xt_id h) of
         Some _ \<Rightarrow> tx_len st (ydoc rb) (xt_id h) = 0 | None \<Rightarrow> True)"

definition rx_root_name :: "'id rb_xml_text \<Rightarrow> string" where
  "rx_root_name h = xt_root h"

definition rx_attributes ::
  "(out \<Rightarrow> string) \<Rightarrow> ('d, 'id) yrs_store \<Rightarrow> string option \<Rightarrow> 'id rb_xml_text \<Rightarrow> 'd rb_doc \<Rightarrow> handle_error + rhash" where
  "rx_attributes out_to_s st intr h rb =
     bind_sum (nogvl_read intr (case xml_at st (ydoc rb) (xt_id h) of
         Some x \<Rightarrow> map (\<lambda>(key, value). (key, case value of OAny a \<Rightarrow> a | other \<Rightarrow> AString (out_to_s other))) (tx_attrs x)
       | None \<Rightarrow> [])) (\<lambda>pairs.
     Inr (foldl (\<lambda>hash (key, a). aset key (any_to_ruby a) hash) [] pairs))"

definition rx_xml_text_count ::
  "('d, 'id) yrs_store \<Rightarrow> string option \<Rightarrow> 'id rb_xml_text \<Rightarrow> 'd rb_doc \<Rightarrow> handle_error + nat" where
  "rx_xml_text_count st intr h rb =
     nogvl_read intr (case xml_at st (ydoc rb) (xt_id h) of
         Some x \<Rightarrow> length (embedded_xml_texts x) | None \<Rightarrow> 0)"

text \<open>\<open>block_ids\<close> are the identities of the embedded texts in order.\<close>

definition rx_xml_text ::
  "('d, 'id) yrs_store \<Rightarrow> string option \<Rightarrow> 'id rb_xml_text \<Rightarrow> int \<Rightarrow> 'd rb_doc \<Rightarrow> handle_error + 'id rb_xml_text option" where
  "rx_xml_text st intr h n rb =
     bind_sum (nogvl_read intr
       (Option.bind (xml_at st (ydoc rb) (xt_id h)) (\<lambda>_.
          let blocks = block_ids st (ydoc rb) (xt_id h)
          in map_option (\<lambda>i. blocks ! i) (element_index n (length blocks)))))
     (\<lambda>block. Inr (map_option (rx_child h) block))"

definition rx_ends_with_xml_text ::
  "('d, 'id) yrs_store \<Rightarrow> string option \<Rightarrow> 'id rb_xml_text \<Rightarrow> 'd rb_doc \<Rightarrow> handle_error + bool" where
  "rx_ends_with_xml_text st intr h rb =
     nogvl_read intr (case xml_at st (ydoc rb) (xt_id h) of Some x \<Rightarrow> ends_with_xml_text x | None \<Rightarrow> False)"

section \<open>Writes inside a block\<close>

definition block_gone :: string where "block_gone = ''the block no longer exists''"

definition resolve_block :: "('d, 'id) yrs_store \<Rightarrow> 'id \<Rightarrow> ('d, xml_text) txn" where
  "resolve_block st t = resolve_or block_gone (\<lambda>d. xml_at st d t)"

definition rx_set_attribute ::
  "(rvalue \<Rightarrow> value_error + string) \<Rightarrow> ('d, 'id) yrs_store \<Rightarrow> ('d \<Rightarrow> 'd \<Rightarrow> bytes option) \<Rightarrow> string option
     \<Rightarrow> 'id rb_xml_text \<Rightarrow> string \<Rightarrow> rvalue \<Rightarrow> 'd rb_doc \<Rightarrow> (handle_error + rvalue) \<times> 'd rb_doc" where
  "rx_set_attribute to_s st tu intr h key v rb =
     with_value (ruby_to_invalue to_s v) rb (\<lambda>iv.
       apfst (map_sum id (\<lambda>_. v)) (write_txn tu intr rb
         (bind_txn (resolve_block st (xt_id h)) (\<lambda>_. tx_insert_attribute st (xt_id h) key (to_in iv)))))"

definition rx_insert_body :: "('d, 'id) yrs_store \<Rightarrow> 'id \<Rightarrow> int \<Rightarrow> string \<Rightarrow> ('d, unit) txn" where
  "rx_insert_body st t index s =
     bind_txn (resolve_block st t) (\<lambda>x.
     bind_txn (read_txn (\<lambda>d. end_or_units (\<lambda>_. tx_len st d t) (tx_diff x) index)) (\<lambda>at.
       tx_insert st t at s))"

definition rx_insert ::
  "('d, 'id) yrs_store \<Rightarrow> ('d \<Rightarrow> 'd \<Rightarrow> bytes option) \<Rightarrow> string option \<Rightarrow> 'id rb_xml_text \<Rightarrow> int \<Rightarrow> string \<Rightarrow> 'd rb_doc
     \<Rightarrow> (handle_error + string) \<times> 'd rb_doc" where
  "rx_insert st tu intr h index chunk rb =
     apfst (map_sum id (\<lambda>_. chunk)) (write_txn tu intr rb (rx_insert_body st (xt_id h) index chunk))"

definition rx_insert_embed_body :: "('d, 'id) yrs_store \<Rightarrow> 'id \<Rightarrow> int \<Rightarrow> invalue \<Rightarrow> ('d, unit) txn" where
  "rx_insert_embed_body st t index iv =
     bind_txn (resolve_block st t) (\<lambda>x.
       let at = to_units (tx_diff x) (insert_index index (char_len (tx_diff x)))
       in bind_txn (case iv of
              IMap entries \<Rightarrow> tx_insert_embed st t at (PMap (to_map_prelim entries))
            | IAny a \<Rightarrow> tx_insert_embed st t at (PAny a)) (\<lambda>_. ret ()))"

definition rx_insert_embed ::
  "(rvalue \<Rightarrow> value_error + string) \<Rightarrow> ('d, 'id) yrs_store \<Rightarrow> ('d \<Rightarrow> 'd \<Rightarrow> bytes option) \<Rightarrow> string option
     \<Rightarrow> 'id rb_xml_text \<Rightarrow> int \<Rightarrow> rvalue \<Rightarrow> 'd rb_doc \<Rightarrow> (handle_error + rvalue) \<times> 'd rb_doc" where
  "rx_insert_embed to_s st tu intr h index v rb =
     with_value (ruby_to_invalue to_s v) rb (\<lambda>iv.
       apfst (map_sum id (\<lambda>_. v)) (write_txn tu intr rb (rx_insert_embed_body st (xt_id h) index iv)))"

definition rx_delete_body :: "('d, 'id) yrs_store \<Rightarrow> 'id \<Rightarrow> int \<Rightarrow> int \<Rightarrow> ('d, unit) txn" where
  "rx_delete_body st t index n =
     bind_txn (resolve_block st t) (\<lambda>x.
       case delete_span index n (char_len (tx_diff x)) of
         Some (a, b) \<Rightarrow>
           (let f = to_units (tx_diff x) a; e = to_units (tx_diff x) b
            in if e > f then tx_remove_range st t f (e - f) else ret ())
       | None \<Rightarrow> ret ())"

definition rx_delete ::
  "('d, 'id) yrs_store \<Rightarrow> ('d \<Rightarrow> 'd \<Rightarrow> bytes option) \<Rightarrow> string option \<Rightarrow> 'id rb_xml_text \<Rightarrow> int \<Rightarrow> int \<Rightarrow> 'd rb_doc
     \<Rightarrow> (handle_error + unit) \<times> 'd rb_doc" where
  "rx_delete st tu intr h index n rb = write_txn tu intr rb (rx_delete_body st (xt_id h) index n)"

definition rx_clear ::
  "('d, 'id) yrs_store \<Rightarrow> ('d \<Rightarrow> 'd \<Rightarrow> bytes option) \<Rightarrow> string option \<Rightarrow> 'id rb_xml_text \<Rightarrow> 'd rb_doc
     \<Rightarrow> (handle_error + unit) \<times> 'd rb_doc" where
  "rx_clear st tu intr h rb =
     write_txn tu intr rb (bind_txn (resolve_block st (xt_id h)) (\<lambda>_. remove_all st (xt_id h)))"

section \<open>Positions\<close>

definition rx_native_relative_position ::
  "('d, 'id) yrs_store \<Rightarrow> string option \<Rightarrow> 'id rb_xml_text \<Rightarrow> int \<Rightarrow> string \<Rightarrow> 'd rb_doc \<Rightarrow> handle_error + rhash" where
  "rx_native_relative_position st intr h index assoc rb =
     bind_sum (guarded intr (relative_position_body st block_gone (\<lambda>d. map_option tx_diff (xml_at st d (xt_id h)))
       (xt_id h) index (assoc_arg assoc) (ydoc rb))) (\<lambda>p. Inr (position_to_ruby p))"

definition rx_native_block_position ::
  "('d, 'id) yrs_store \<Rightarrow> string option \<Rightarrow> 'id rb_xml_text \<Rightarrow> 'd rb_doc \<Rightarrow> handle_error + rhash" where
  "rx_native_block_position st intr h rb =
     bind_sum (guarded intr (bind_sum (ok_or block_gone (xml_at st (ydoc rb) (xt_id h))) (\<lambda>_.
       Inr (sticky_from_type st (ydoc rb) (xt_id h) After)))) (\<lambda>p. Inr (position_to_ruby p))"

section \<open>Pieces\<close>

datatype piece =
    PieceText string
  | PieceEmbed "(string \<times> invalue) list"
  | PieceBlock "(string \<times> invalue) list" "piece list"

datatype piece_error = PieceValue value_error | BlocksTooDeep | NotContent | NotAHash | NotAnArray

definition as_hash :: "(rvalue \<Rightarrow> rhash option) \<Rightarrow> rvalue \<Rightarrow> piece_error + rhash" where
  "as_hash to_hash v = (case v of RHash h \<Rightarrow> Inr h | _ \<Rightarrow> ok_or NotAHash (to_hash v))"

definition as_array :: "(rvalue \<Rightarrow> rvalue list option) \<Rightarrow> rvalue \<Rightarrow> piece_error + rvalue list" where
  "as_array to_ary v = (case v of RArray a \<Rightarrow> Inr a | _ \<Rightarrow> ok_or NotAnArray (to_ary v))"

definition piece_pairs ::
  "(rvalue \<Rightarrow> value_error + string) \<Rightarrow> rhash \<Rightarrow> piece_error + (string \<times> invalue) list" where
  "piece_pairs to_s h = map_sum PieceValue id (hash_pairs to_s h)"

text \<open>\<open>Piece::read_all\<close>, its loop, and \<open>Piece::read\<close>.\<close>

function read_all ::
    "(rvalue \<Rightarrow> value_error + string) \<Rightarrow> (rvalue \<Rightarrow> rhash option) \<Rightarrow> (rvalue \<Rightarrow> rvalue list option)
       \<Rightarrow> rvalue list \<Rightarrow> nat \<Rightarrow> piece_error + piece list"
  and read_each ::
    "(rvalue \<Rightarrow> value_error + string) \<Rightarrow> (rvalue \<Rightarrow> rhash option) \<Rightarrow> (rvalue \<Rightarrow> rvalue list option)
       \<Rightarrow> rvalue list \<Rightarrow> nat \<Rightarrow> piece_error + piece list"
  and piece_read ::
    "(rvalue \<Rightarrow> value_error + string) \<Rightarrow> (rvalue \<Rightarrow> rhash option) \<Rightarrow> (rvalue \<Rightarrow> rvalue list option)
       \<Rightarrow> rvalue \<Rightarrow> nat \<Rightarrow> piece_error + piece" where
  "read_all to_s to_hash to_ary vs depth =
     (if depth > MAX_NESTING then Inl BlocksTooDeep else read_each to_s to_hash to_ary vs depth)"
| "read_each to_s to_hash to_ary [] depth = Inr []"
| "read_each to_s to_hash to_ary (v # vs) depth =
     bind_sum (piece_read to_s to_hash to_ary v depth) (\<lambda>p.
     bind_sum (read_each to_s to_hash to_ary vs depth) (\<lambda>ps. Inr (p # ps)))"
| "piece_read to_s to_hash to_ary v depth =
     (case v of
        RString s \<Rightarrow> Inr (PieceText s)
      | RBinary s \<Rightarrow> bind_sum (map_sum PieceValue id (to_s v)) (\<lambda>s. Inr (PieceText s))
      | RHash h \<Rightarrow> bind_sum (piece_pairs to_s h) (\<lambda>es. Inr (PieceEmbed es))
      | RArray [a, c] \<Rightarrow>
          bind_sum (as_hash to_hash a) (\<lambda>attributes.
          bind_sum (as_array to_ary c) (\<lambda>inner.
          bind_sum (piece_pairs to_s attributes) (\<lambda>es.
          bind_sum (read_all to_s to_hash to_ary inner (depth + 1)) (\<lambda>ps. Inr (PieceBlock es ps)))))
      | _ \<Rightarrow> Inl NotContent)"
  by pat_completeness auto
termination
  by (relation "measures
        [\<lambda>x. case x of
            Inl (_, _, _, _, d) \<Rightarrow> if d > MAX_NESTING then 0 else 4 * (MAX_NESTING + 1 - d) + 3
          | Inr (Inl (_, _, _, _, d)) \<Rightarrow> 4 * (MAX_NESTING + 1 - d) + 2
          | Inr (Inr (_, _, _, _, d)) \<Rightarrow> 4 * (MAX_NESTING + 1 - d) + 1,
         \<lambda>x. case x of
            Inr (Inl (_, _, _, vs, _)) \<Rightarrow> length vs
          | _ \<Rightarrow> 0]") auto

declare read_all.simps [simp del] piece_read.simps [simp del]

fun write_attributes :: "('d, 'id) yrs_store \<Rightarrow> 'id \<Rightarrow> (string \<times> invalue) list \<Rightarrow> ('d, unit) txn" where
  "write_attributes st block [] = ret ()"
| "write_attributes st block ((k, v) # attributes) =
     bind_txn (tx_insert_attribute st block k (to_in v)) (\<lambda>_. write_attributes st block attributes)"

text \<open>\<open>Piece::write\<close>, with the loop over a block's content.\<close>

fun piece_write :: "('d, 'id) yrs_store \<Rightarrow> piece \<Rightarrow> 'id \<Rightarrow> nat \<Rightarrow> ('d, 'id option) txn"
  and content_write :: "('d, 'id) yrs_store \<Rightarrow> piece list \<Rightarrow> 'id \<Rightarrow> ('d, unit) txn" where
  "piece_write st (PieceText s) x at = bind_txn (tx_insert st x at s) (\<lambda>_. ret None)"
| "piece_write st (PieceEmbed entries) x at =
     bind_txn (tx_insert_embed st x at (PMap (to_map_prelim entries))) (\<lambda>_. ret None)"
| "piece_write st (PieceBlock attributes inner) x at =
     bind_txn (tx_insert_embed st x at (PXmlText [])) (\<lambda>block.
     bind_txn (write_attributes st block attributes) (\<lambda>_.
     bind_txn (content_write st inner block) (\<lambda>_. ret (Some block))))"
| "content_write st [] block = ret ()"
| "content_write st (piece # inner) block =
     bind_txn (read_txn (\<lambda>d. tx_len st d block)) (\<lambda>at.
     bind_txn (piece_write st piece block at) (\<lambda>_. content_write st inner block))"

section \<open>Writes of content\<close>

text \<open>The arguments of a method that takes content, read before it writes.\<close>

definition with_piece ::
  "piece_error + 'v \<Rightarrow> 'd rb_doc \<Rightarrow> ('v \<Rightarrow> (piece_error + handle_error + 'r) \<times> 'd rb_doc)
     \<Rightarrow> (piece_error + handle_error + 'r) \<times> 'd rb_doc" where
  "with_piece v rb f = (case v of Inl e \<Rightarrow> (Inl e, rb) | Inr x \<Rightarrow> f x)"

definition insert_block_body ::
  "('d, 'id) yrs_store \<Rightarrow> 'id \<Rightarrow> int \<Rightarrow> (string \<times> invalue) list \<Rightarrow> piece list \<Rightarrow> ('d, 'id) txn" where
  "insert_block_body st t n attributes inner =
     bind_txn (resolve_block st t) (\<lambda>x.
       let count = length (embedded_xml_texts x); ordinal = insert_index n count
       in bind_txn (read_txn (\<lambda>d. case embedded_xml_text_index x ordinal of Some at \<Rightarrow> at | None \<Rightarrow> tx_len st d t)) (\<lambda>at.
          bind_txn (piece_write st (PieceBlock attributes inner) t at) (\<lambda>child.
            case child of Some block \<Rightarrow> ret block | None \<Rightarrow> (\<lambda>d. (Inl ''a block piece writes a block'', d)))))"

definition rx_insert_xml_text ::
  "(rvalue \<Rightarrow> value_error + string) \<Rightarrow> (rvalue \<Rightarrow> rhash option) \<Rightarrow> (rvalue \<Rightarrow> rvalue list option) \<Rightarrow> ('d, 'id) yrs_store
     \<Rightarrow> ('d \<Rightarrow> 'd \<Rightarrow> bytes option) \<Rightarrow> string option \<Rightarrow> 'id rb_xml_text \<Rightarrow> int \<Rightarrow> rhash \<Rightarrow> rvalue list \<Rightarrow> 'd rb_doc
     \<Rightarrow> (piece_error + handle_error + 'id rb_xml_text) \<times> 'd rb_doc" where
  "rx_insert_xml_text to_s to_hash to_ary st tu intr h n attributes inner rb =
     with_piece (piece_pairs to_s attributes) rb (\<lambda>es.
     with_piece (read_all to_s to_hash to_ary inner 0) rb (\<lambda>ps.
       apfst (\<lambda>r. Inr (map_sum id (rx_child h) r)) (write_txn tu intr rb (insert_block_body st (xt_id h) n es ps))))"

text \<open>The loop of \<open>write_content\<close>: each piece goes to the current end.\<close>

fun write_at_end :: "('d, 'id) yrs_store \<Rightarrow> 'id \<Rightarrow> piece list \<Rightarrow> nat \<Rightarrow> ('d, unit) txn" where
  "write_at_end st t [] at = ret ()"
| "write_at_end st t (piece # ps) at =
     bind_txn (piece_write st piece t at) (\<lambda>_.
     bind_txn (read_txn (\<lambda>d. tx_len st d t)) (\<lambda>at'. write_at_end st t ps at'))"

definition write_content_body :: "('d, 'id) yrs_store \<Rightarrow> 'id \<Rightarrow> piece list \<Rightarrow> bool \<Rightarrow> ('d, unit) txn" where
  "write_content_body st t ps clear =
     bind_txn (resolve_block st t) (\<lambda>_.
     bind_txn (if clear then remove_all st t else ret ()) (\<lambda>_.
     bind_txn (read_txn (\<lambda>d. tx_len st d t)) (\<lambda>at. write_at_end st t ps at)))"

definition rx_write_content ::
  "(rvalue \<Rightarrow> value_error + string) \<Rightarrow> (rvalue \<Rightarrow> rhash option) \<Rightarrow> (rvalue \<Rightarrow> rvalue list option) \<Rightarrow> ('d, 'id) yrs_store
     \<Rightarrow> ('d \<Rightarrow> 'd \<Rightarrow> bytes option) \<Rightarrow> string option \<Rightarrow> 'id rb_xml_text \<Rightarrow> rvalue list \<Rightarrow> bool \<Rightarrow> 'd rb_doc
     \<Rightarrow> (piece_error + handle_error + unit) \<times> 'd rb_doc" where
  "rx_write_content to_s to_hash to_ary st tu intr h vs clear rb =
     with_piece (read_all to_s to_hash to_ary vs 0) rb (\<lambda>ps.
       apfst Inr (write_txn tu intr rb (write_content_body st (xt_id h) ps clear)))"

definition rx_append ::
  "(rvalue \<Rightarrow> value_error + string) \<Rightarrow> (rvalue \<Rightarrow> rhash option) \<Rightarrow> (rvalue \<Rightarrow> rvalue list option) \<Rightarrow> ('d, 'id) yrs_store
     \<Rightarrow> ('d \<Rightarrow> 'd \<Rightarrow> bytes option) \<Rightarrow> string option \<Rightarrow> 'id rb_xml_text \<Rightarrow> rvalue list \<Rightarrow> 'd rb_doc
     \<Rightarrow> (piece_error + handle_error + 'id rb_xml_text) \<times> 'd rb_doc" where
  "rx_append to_s to_hash to_ary st tu intr h vs rb =
     apfst (map_sum id (map_sum id (\<lambda>_. h))) (rx_write_content to_s to_hash to_ary st tu intr h vs False rb)"

definition rx_replace ::
  "(rvalue \<Rightarrow> value_error + string) \<Rightarrow> (rvalue \<Rightarrow> rhash option) \<Rightarrow> (rvalue \<Rightarrow> rvalue list option) \<Rightarrow> ('d, 'id) yrs_store
     \<Rightarrow> ('d \<Rightarrow> 'd \<Rightarrow> bytes option) \<Rightarrow> string option \<Rightarrow> 'id rb_xml_text \<Rightarrow> rvalue list \<Rightarrow> 'd rb_doc
     \<Rightarrow> (piece_error + handle_error + 'id rb_xml_text) \<times> 'd rb_doc" where
  "rx_replace to_s to_hash to_ary st tu intr h vs rb =
     apfst (map_sum id (map_sum id (\<lambda>_. h))) (rx_write_content to_s to_hash to_ary st tu intr h vs True rb)"

definition append_text_body ::
  "('d, 'id) yrs_store \<Rightarrow> 'id \<Rightarrow> string \<Rightarrow> (string \<times> invalue) list \<Rightarrow> ('d, unit) txn" where
  "append_text_body st t s marker =
     bind_txn (resolve_block st t) (\<lambda>x.
     bind_txn (read_txn (\<lambda>d. tx_len st d t)) (\<lambda>at.
     bind_txn (if at = 0 \<or> ends_with_xml_text x
               then bind_txn (tx_insert_embed st t at (PMap (to_map_prelim marker))) (\<lambda>_. ret (at + 1))
               else ret at) (\<lambda>at'.
       tx_insert st t at' s)))"

definition rx_append_text ::
  "(rvalue \<Rightarrow> value_error + string) \<Rightarrow> ('d, 'id) yrs_store \<Rightarrow> ('d \<Rightarrow> 'd \<Rightarrow> bytes option) \<Rightarrow> string option
     \<Rightarrow> 'id rb_xml_text \<Rightarrow> string \<Rightarrow> rhash \<Rightarrow> 'd rb_doc \<Rightarrow> (handle_error + 'id rb_xml_text) \<times> 'd rb_doc" where
  "rx_append_text to_s st tu intr h s marker rb =
     with_value (hash_pairs to_s marker) rb (\<lambda>es.
       apfst (map_sum id (\<lambda>_. h)) (write_txn tu intr rb (append_text_body st (xt_id h) s es)))"

definition delete_block_body :: "('d, 'id) yrs_store \<Rightarrow> 'id \<Rightarrow> int \<Rightarrow> ('d, bool) txn" where
  "delete_block_body st t n =
     bind_txn (resolve_block st t) (\<lambda>x.
       let count = length (embedded_xml_texts x)
       in case Option.bind (element_index n count) (embedded_xml_text_index x) of
            None \<Rightarrow> ret False
          | Some at \<Rightarrow> bind_txn (tx_remove_range st t at 1) (\<lambda>_. ret True))"

definition rx_delete_xml_text ::
  "('d, 'id) yrs_store \<Rightarrow> ('d \<Rightarrow> 'd \<Rightarrow> bytes option) \<Rightarrow> string option \<Rightarrow> 'id rb_xml_text \<Rightarrow> int \<Rightarrow> 'd rb_doc
     \<Rightarrow> (handle_error + bool) \<times> 'd rb_doc" where
  "rx_delete_xml_text st tu intr h n rb = write_txn tu intr rb (delete_block_body st (xt_id h) n)"

text \<open>The fragment is created, and the handle addresses it by its name.\<close>

definition root_xml_text ::
  "('d, 'id) yrs_store \<Rightarrow> string option \<Rightarrow> string \<Rightarrow> 'd rb_doc \<Rightarrow> (handle_error + 'id rb_xml_text) \<times> 'd rb_doc" where
  "root_xml_text st intr name rb =
     (let (_, d) = get_or_insert st KXmlFragment name (ydoc rb)
      in (map_sum id (\<lambda>_. \<lparr>xt_id = root_id st name, xt_root = name\<rparr>) (nogvl_read intr ()), rb\<lparr>ydoc := d\<rparr>))"

definition handle :: "'id \<Rightarrow> string \<Rightarrow> 'id rb_xml_text" where
  "handle i root = \<lparr>xt_id = i, xt_root = root\<rparr>"

section \<open>One local transaction per write, on the shared sequence code\<close>

lemma local_op_with_piece:
  "(\<And>x. local_op tu (f x)) \<Longrightarrow> local_op tu (\<lambda>rb. with_piece v rb (\<lambda>x. f x rb))"
  by (cases v) (auto simp: with_piece_def local_op_def)

interpretation rx_attr: local_op tu "rx_set_attribute to_s st tu intr h key v" for to_s st tu intr h key v
  unfolding rx_set_attribute_def [abs_def] by (intro local_op_with_value local_op_write_map)

interpretation rx_ins: local_op tu "rx_insert st tu intr h index s" for st tu intr h index s
  unfolding rx_insert_def [abs_def] by (rule local_op_write_map)

interpretation rx_emb: local_op tu "rx_insert_embed to_s st tu intr h index v" for to_s st tu intr h index v
  unfolding rx_insert_embed_def [abs_def] by (intro local_op_with_value local_op_write_map)

interpretation rx_del: local_op tu "rx_delete st tu intr h index n" for st tu intr h index n
  unfolding rx_delete_def [abs_def] by (rule local_op_write)

interpretation rx_clr: local_op tu "rx_clear st tu intr h" for st tu intr h
  unfolding rx_clear_def [abs_def] by (rule local_op_write)

interpretation rx_blk: local_op tu "rx_insert_xml_text to_s to_hash to_ary st tu intr h n attributes inner"
  for to_s to_hash to_ary st tu intr h n attributes inner
  unfolding rx_insert_xml_text_def [abs_def] by (intro local_op_with_piece local_op_write_map)

interpretation rx_cont: local_op tu "rx_write_content to_s to_hash to_ary st tu intr h vs clear"
  for to_s to_hash to_ary st tu intr h vs clear
  unfolding rx_write_content_def [abs_def] by (intro local_op_with_piece local_op_write_map)

interpretation rx_apt: local_op tu "rx_append_text to_s st tu intr h s marker" for to_s st tu intr h s marker
  unfolding rx_append_text_def [abs_def] by (intro local_op_with_value local_op_write_map)

interpretation rx_dblk: local_op tu "rx_delete_xml_text st tu intr h n" for st tu intr h n
  unfolding rx_delete_xml_text_def [abs_def] by (rule local_op_write)

abbreviation xml_look :: "('d, 'id) yrs_store \<Rightarrow> 'id \<Rightarrow> 'd \<Rightarrow> diff option" where
  "xml_look st t \<equiv> \<lambda>d. map_option tx_diff (xml_at st d t)"

interpretation rx_seq: text_sequence st block_gone "xml_look st t" t "rx_insert_body st t" "rx_delete_body st t"
  for st t
  by unfold_locales
    (auto simp: rx_insert_body_def rx_delete_body_def seq_insert_body_def seq_delete_body_def resolve_block_def
      bind_txn_def resolve_or_def split: option.split)

section \<open>Nesting of content\<close>

fun piece_depth :: "piece \<Rightarrow> nat" where
  "piece_depth (PieceBlock as ps) = Suc (foldr max (map piece_depth ps) 0)"
| "piece_depth _ = 0"

lemma read_nesting:
  "read_all to_s to_hash to_ary vs depth = Inr ps \<Longrightarrow> \<forall>p \<in> set ps. depth + piece_depth p \<le> MAX_NESTING"
  "read_each to_s to_hash to_ary vs depth = Inr qs \<Longrightarrow> depth \<le> MAX_NESTING
     \<Longrightarrow> \<forall>p \<in> set qs. depth + piece_depth p \<le> MAX_NESTING"
  "piece_read to_s to_hash to_ary v depth = Inr p \<Longrightarrow> depth \<le> MAX_NESTING \<Longrightarrow> depth + piece_depth p \<le> MAX_NESTING"
proof (induction to_s to_hash to_ary vs depth and to_s to_hash to_ary vs depth and to_s to_hash to_ary v depth
    arbitrary: ps and qs and p rule: read_all_read_each_piece_read.induct)
  case (1 to_s to_hash to_ary vs depth)
  then show ?case by (simp add: read_all.simps split: if_splits)
next
  case (3 to_s to_hash to_ary v vs depth)
  then show ?case by (fastforce simp: bind_sum_Inr_iff)
next
  case (4 to_s to_hash to_ary v depth)
  consider a c where "v = RArray [a, c]" | "\<forall>a c. v \<noteq> RArray [a, c]" by blast
  then show ?case
  proof cases
    case 1
    with 4(2) obtain attributes inner es ps where ps: "as_hash to_hash a = Inr attributes" "as_array to_ary c = Inr inner"
      "piece_pairs to_s attributes = Inr es" "read_all to_s to_hash to_ary inner (depth + 1) = Inr ps" "p = PieceBlock es ps"
      by (auto simp: piece_read.simps bind_sum_Inr_iff)
    have le: "depth + 1 \<le> MAX_NESTING" using ps(4) by (simp add: read_all.simps split: if_splits)
    have "\<forall>q \<in> set ps. Suc depth + piece_depth q \<le> MAX_NESTING"
      using 4(1) [OF 1 refl refl refl ps(1-4)] by simp
    then have "\<forall>n \<in> set (map piece_depth ps). n \<le> MAX_NESTING - Suc depth" by fastforce
    then have "foldr max (map piece_depth ps) 0 \<le> MAX_NESTING - Suc depth" by (simp add: foldr_max_le_iff)
    with ps(5) le show ?thesis by simp
  next
    case 2
    have "piece_depth p = 0"
      using 4(2) 2 by (cases v) (auto simp: piece_read.simps bind_sum_Inr_iff split: list.splits)
    with 4(3) show ?thesis by simp
  qed
qed simp

text \<open>A block whose content contains the block itself: state 0 is the block, 1 its content, 2 its
  attributes.\<close>

primcorec cyclic_block :: "nat \<Rightarrow> rvalue" where
  "cyclic_block n = (if n = 2 then RHash [] else RArray (map cyclic_block (if n = 0 then [2, 1] else [0])))"

lemma cyclic_block_unfold: "cyclic_block 0 = RArray [RHash [], RArray [cyclic_block 0]]"
proof -
  have "cyclic_block 0 = RArray [cyclic_block 2, cyclic_block 1]" by (subst cyclic_block.code) simp
  moreover have "cyclic_block 1 = RArray [cyclic_block 0]" by (subst cyclic_block.code) simp
  moreover have "cyclic_block 2 = RHash []" by (subst cyclic_block.code) simp
  ultimately show ?thesis by simp
qed

lemma cyclic_block_refused: "piece_read to_s to_hash to_ary (cyclic_block 0) depth = Inl BlocksTooDeep"
proof (induction "MAX_NESTING + 1 - depth" arbitrary: depth)
  case 0
  then have "read_all to_s to_hash to_ary vs (depth + 1) = Inl BlocksTooDeep" for vs by (simp add: read_all.simps)
  then show ?case
    by (subst cyclic_block_unfold)
      (simp add: piece_read.simps as_hash_def as_array_def piece_pairs_def hash_pairs_def)
next
  case (Suc k)
  have "piece_read to_s to_hash to_ary (cyclic_block 0) (depth + 1) = Inl BlocksTooDeep"
    using Suc(2) by (intro Suc(1)) simp
  then have "read_all to_s to_hash to_ary [cyclic_block 0] (depth + 1) = Inl BlocksTooDeep"
    by (simp add: read_all.simps)
  then show ?case
    by (subst cyclic_block_unfold)
      (simp add: piece_read.simps [of _ _ _ "RArray _"] as_hash_def as_array_def piece_pairs_def hash_pairs_def)
qed

end
