(* ===== verification/XmlTree.thy ===== *)
theory XmlTree
  imports XmlTextHandle
begin

text \<open>
  The block tree the rich-text handle edits, as a store: a node is a block's attributes and its
  items, where an embedded block is the identity of another node.  \<open>tree_laws\<close> is what the code
  relies on of yrs's \<open>Text\<close> and \<open>Xml\<close> operations on such a store; a write to a block changes no other
  node, except that embedding a block creates one.

  The lemmas: writing content adds exactly that content, nested as it was given; blocks are
  inserted and deleted at the ordinal asked for; appended text always follows a marker.
\<close>

section \<open>Nodes\<close>

datatype 'id item = IChar string | IEmbed out | IBlock 'id

text \<open>The cells of a diff with the identities of its blocks put in.\<close>

fun weave :: "cell list \<Rightarrow> 'id list \<Rightarrow> 'id item list" where
  "weave [] ids = []"
| "weave (CChar c # cs) ids = IChar c # weave cs ids"
| "weave (CPiece (OYXmlText x) # cs) (i # ids) = IBlock i # weave cs ids"
| "weave (CPiece (OYXmlText x) # cs) [] = weave cs []"
| "weave (CPiece p # cs) ids = IEmbed p # weave cs ids"

definition node :: "('d, 'id) yrs_store \<Rightarrow> 'd \<Rightarrow> 'id \<Rightarrow> (attr_list \<times> 'id item list) option" where
  "node st d t =
     map_option (\<lambda>x. (tx_attrs x, weave (seq_cells (tx_diff x)) (block_ids st d t))) (xml_at st d t)"

fun item_units :: "'id item \<Rightarrow> nat" where
  "item_units (IChar c) = len_utf16 c"
| "item_units _ = 1"

definition iunits :: "'id item list \<Rightarrow> nat" where
  "iunits is = sum_list (map item_units is)"

lemma iunits_simps [simp]:
  "iunits [] = 0" "iunits (i # is) = item_units i + iunits is" "iunits (xs @ ys) = iunits xs + iunits ys"
  by (simp_all add: iunits_def)

fun item_block :: "'id item \<Rightarrow> 'id option" where
  "item_block (IBlock i) = Some i"
| "item_block _ = None"

definition item_blocks :: "'id item list \<Rightarrow> 'id list" where
  "item_blocks is = List.map_filter item_block is"

lemma item_blocks_simps [simp]:
  "item_blocks [] = []" "item_blocks (IChar c # is) = item_blocks is" "item_blocks (IEmbed p # is) = item_blocks is"
  "item_blocks (IBlock i # is) = i # item_blocks is" "item_blocks (xs @ ys) = item_blocks xs @ item_blocks ys"
  by (simp_all add: item_blocks_def map_filter_simps map_filter_def)

section \<open>What the handle relies on\<close>

definition unchanged_but :: "('d, 'id) yrs_store \<Rightarrow> 'id set \<Rightarrow> 'd \<Rightarrow> 'd \<Rightarrow> bool" where
  "unchanged_but st S d d' \<longleftrightarrow> (\<forall>u. u \<notin> S \<longrightarrow> node st d' u = node st d u)"

text \<open>A diff has no empty runs, \<open>len\<close> is its units, and its blocks have their identities.\<close>

definition view_laws :: "('d, 'id) yrs_store \<Rightarrow> bool" where
  "view_laws st \<longleftrightarrow>
     (\<forall>d t x. xml_at st d t = Some x \<longrightarrow>
        length (block_ids st d t) = length (embedded_xml_texts x)
      \<and> tx_len st d t = units_of (seq_cells (tx_diff x))
      \<and> OAny (AString []) \<notin> set (pieces (tx_diff x)))"

definition insert_law :: "('d, 'id) yrs_store \<Rightarrow> bool" where
  "insert_law st \<longleftrightarrow>
     (\<forall>d t as pre post s. node st d t = Some (as, pre @ post) \<longrightarrow>
        (\<exists>d'. tx_insert st t (iunits pre) s d = (Inr (), d')
           \<and> node st d' t = Some (as, pre @ map IChar (chars s) @ post) \<and> unchanged_but st {t} d d'))"

definition embed_law :: "yrs \<Rightarrow> ('d, 'id) yrs_store \<Rightarrow> bool" where
  "embed_law y st \<longleftrightarrow>
     (\<forall>d t as pre post m. node st d t = Some (as, pre @ post) \<longrightarrow>
        (\<exists>d' c i. tx_insert_embed st t (iunits pre) (PMap m) d = (Inr i, d')
           \<and> node st d' t = Some (as, pre @ IEmbed c # post) \<and> same_any (rd_out_to_any y c) (in_any (InMap m))
           \<and> unchanged_but st {t} d d'))"

definition block_law :: "('d, 'id) yrs_store \<Rightarrow> bool" where
  "block_law st \<longleftrightarrow>
     (\<forall>d t as pre post. node st d t = Some (as, pre @ post) \<longrightarrow>
        (\<exists>d' c. tx_insert_embed st t (iunits pre) (PXmlText []) d = (Inr c, d') \<and> node st d c = None
           \<and> node st d' t = Some (as, pre @ IBlock c # post) \<and> node st d' c = Some ([], [])
           \<and> unchanged_but st {t, c} d d'))"

definition attribute_law :: "yrs \<Rightarrow> ('d, 'id) yrs_store \<Rightarrow> bool" where
  "attribute_law y st \<longleftrightarrow>
     (\<forall>d t as is k v. node st d t = Some (as, is) \<longrightarrow>
        (\<exists>d' as' p. tx_insert_attribute st t k v d = (Inr (), d') \<and> node st d' t = Some (as', is)
           \<and> map_of as' = (map_of as)(k \<mapsto> p) \<and> same_any (rd_out_to_any y p) (in_any v)
           \<and> unchanged_but st {t} d d'))"

definition remove_law :: "('d, 'id) yrs_store \<Rightarrow> bool" where
  "remove_law st \<longleftrightarrow>
     (\<forall>d t as pre mid post. node st d t = Some (as, pre @ mid @ post) \<longrightarrow> mid \<noteq> [] \<longrightarrow>
        (\<exists>d'. tx_remove_range st t (iunits pre) (iunits mid) d = (Inr (), d')
           \<and> node st d' t = Some (as, pre @ post)))"

definition tree_laws :: "yrs \<Rightarrow> ('d, 'id) yrs_store \<Rightarrow> bool" where
  "tree_laws y st \<longleftrightarrow>
     view_laws st \<and> insert_law st \<and> embed_law y st \<and> block_law st \<and> attribute_law y st \<and> remove_law st"

lemma tree_viewD: "tree_laws y st \<Longrightarrow> view_laws st"
  by (simp add: tree_laws_def)

lemma tree_insertD:
  assumes "tree_laws y st" and "node st d t = Some (as, pre @ post)"
  obtains d' where "tx_insert st t (iunits pre) s d = (Inr (), d')"
    "node st d' t = Some (as, pre @ map IChar (chars s) @ post)" "unchanged_but st {t} d d'"
proof -
  have "insert_law st" using assms(1) by (simp add: tree_laws_def)
  then show thesis using assms(2) that unfolding insert_law_def by blast
qed

lemma tree_embedD:
  assumes "tree_laws y st" and "node st d t = Some (as, pre @ post)"
  obtains d' c i where "tx_insert_embed st t (iunits pre) (PMap m) d = (Inr i, d')"
    "node st d' t = Some (as, pre @ IEmbed c # post)" "same_any (rd_out_to_any y c) (in_any (InMap m))"
    "unchanged_but st {t} d d'"
proof -
  have "embed_law y st" using assms(1) by (simp add: tree_laws_def)
  then show thesis using assms(2) that unfolding embed_law_def by blast
qed

lemma tree_blockD:
  assumes "tree_laws y st" and "node st d t = Some (as, pre @ post)"
  obtains d' c where "tx_insert_embed st t (iunits pre) (PXmlText []) d = (Inr c, d')" "node st d c = None"
    "node st d' t = Some (as, pre @ IBlock c # post)" "node st d' c = Some ([], [])" "unchanged_but st {t, c} d d'"
proof -
  have "block_law st" using assms(1) by (simp add: tree_laws_def)
  then show thesis using assms(2) that unfolding block_law_def by blast
qed

lemma tree_attributeD:
  assumes "tree_laws y st" and "node st d t = Some (as, is)"
  obtains d' as' p where "tx_insert_attribute st t k v d = (Inr (), d')" "node st d' t = Some (as', is)"
    "map_of as' = (map_of as)(k \<mapsto> p)" "same_any (rd_out_to_any y p) (in_any v)" "unchanged_but st {t} d d'"
proof -
  have "attribute_law y st" using assms(1) by (simp add: tree_laws_def)
  then show thesis using assms(2) that unfolding attribute_law_def by blast
qed

lemma tree_removeD:
  assumes "tree_laws y st" and "node st d t = Some (as, pre @ mid @ post)" and "mid \<noteq> []"
  obtains d' where "tx_remove_range st t (iunits pre) (iunits mid) d = (Inr (), d')"
    "node st d' t = Some (as, pre @ post)"
proof -
  have "remove_law st" using assms(1) by (simp add: tree_laws_def)
  then show thesis using assms(2,3) that unfolding remove_law_def by blast
qed

section \<open>Views\<close>

definition cell_blocks :: "cell list \<Rightarrow> nat" where
  "cell_blocks cs = length (filter (\<lambda>c. case c of CPiece (OYXmlText _) \<Rightarrow> True | _ \<Rightarrow> False) cs)"

lemma cell_blocks_simps [simp]:
  "cell_blocks [] = 0" "cell_blocks (CChar c # cs) = cell_blocks cs"
  "cell_blocks (CPiece (OYXmlText x) # cs) = Suc (cell_blocks cs)"
  "\<forall>x. p \<noteq> OYXmlText x \<Longrightarrow> cell_blocks (CPiece p # cs) = cell_blocks cs"
  "cell_blocks (as @ bs) = cell_blocks as + cell_blocks bs"
  by (auto simp: cell_blocks_def split: out.splits)

lemma weave_other: "\<forall>x. p \<noteq> OYXmlText x \<Longrightarrow> weave (CPiece p # cs) ids = IEmbed p # weave cs ids"
  by (cases p) auto

lemma weave_append:
  "cell_blocks as \<le> length ids \<Longrightarrow>
    weave (as @ bs) ids = weave as (take (cell_blocks as) ids) @ weave bs (drop (cell_blocks as) ids)"
  by (induction as ids rule: weave.induct) auto

lemma units_weave: "cell_blocks cs \<le> length ids \<Longrightarrow> iunits (weave cs ids) = units_of cs"
  by (induction cs ids rule: weave.induct) auto

lemma blocks_weave: "cell_blocks cs = length ids \<Longrightarrow> item_blocks (weave cs ids) = ids"
  by (induction cs ids rule: weave.induct) auto

lemma cell_blocks_pieces: "cell_blocks (concat (map piece_cell_list ps)) = length (xml_texts_of ps)"
proof (induction ps)
  case (Cons p ps)
  have chars: "cell_blocks (map CChar cs) = 0" for cs by (induction cs) auto
  consider s where "p = OAny (AString s)" | x where "p = OYXmlText x"
    | "\<forall>s. p \<noteq> OAny (AString s)" "\<forall>x. p \<noteq> OYXmlText x" by blast
  then show ?case
  proof cases
    case 3
    then have "piece_cell_list p = [CPiece p]" by (auto simp: piece_cell_list_def split: out.splits any.splits)
    moreover have "xml_texts_of (p # ps) = xml_texts_of ps" using 3 by (cases p) auto
    ultimately show ?thesis using 3 Cons by simp
  qed (use Cons chars in \<open>simp_all add: piece_cell_list_def\<close>)
qed simp

lemma node_Some:
  assumes "tree_laws y st" and "node st d t = Some (as, is)"
  obtains x where "xml_at st d t = Some x" "as = tx_attrs x" "is = weave (seq_cells (tx_diff x)) (block_ids st d t)"
    "cell_blocks (seq_cells (tx_diff x)) = length (block_ids st d t)" "length (embedded_xml_texts x) = length (block_ids st d t)"
    "tx_len st d t = iunits is" "item_blocks is = block_ids st d t" "OAny (AString []) \<notin> set (pieces (tx_diff x))"
proof -
  obtain x where x: "xml_at st d t = Some x" "as = tx_attrs x" "is = weave (seq_cells (tx_diff x)) (block_ids st d t)"
    using assms(2) by (auto simp: node_def)
  have v: "length (block_ids st d t) = length (embedded_xml_texts x)" "tx_len st d t = units_of (seq_cells (tx_diff x))"
    "OAny (AString []) \<notin> set (pieces (tx_diff x))"
    using tree_viewD [OF assms(1)] x(1) unfolding view_laws_def by blast+
  have c: "cell_blocks (seq_cells (tx_diff x)) = length (block_ids st d t)"
    using v(1) by (simp add: seq_cells_def cell_blocks_pieces embedded_xml_texts_def)
  show thesis
    by (rule that [OF x c]) (use v c x(3) in \<open>simp_all add: units_weave blocks_weave\<close>)
qed

text \<open>Where the \<open>n\<close>-th block is.\<close>

lemma block_split:
  assumes laws: "tree_laws y st" and nd: "node st d t = Some (as, is)" and x: "xml_at st d t = Some x"
    and n: "n < length (block_ids st d t)"
  obtains pre post where "is = pre @ IBlock (block_ids st d t ! n) # post"
    "embedded_xml_text_index x n = Some (iunits pre)" "item_blocks pre = take n (block_ids st d t)"
    "item_blocks post = drop (Suc n) (block_ids st d t)"
proof -
  let ?ids = "block_ids st d t" and ?ps = "pieces (tx_diff x)"
  obtain x' where x': "xml_at st d t = Some x'" "is = weave (seq_cells (tx_diff x')) ?ids"
    "length (embedded_xml_texts x') = length ?ids" "cell_blocks (seq_cells (tx_diff x')) = length ?ids"
    using node_Some [OF laws nd] by metis
  have [simp]: "x' = x" using x x'(1) by simp
  have "n < length (xml_texts_of ?ps)" using n x'(3) by (simp add: embedded_xml_texts_def)
  from xml_texts_of_nth [OF this] obtain p1 b p2 where ps: "?ps = p1 @ OYXmlText b # p2" "length (xml_texts_of p1) = n"
    by blast
  let ?c1 = "concat (map piece_cell_list p1)" and ?c2 = "concat (map piece_cell_list p2)"
  have cells: "seq_cells (tx_diff x) = ?c1 @ CPiece (OYXmlText b) # ?c2"
    by (simp add: seq_cells_def ps(1)) (simp add: piece_cell_list_def)
  have c1: "cell_blocks ?c1 = n" by (simp add: cell_blocks_pieces ps(2))
  have c2: "cell_blocks ?c2 = length ?ids - Suc n"
    using x'(4) c1 cells by simp
  have drop: "drop n ?ids = ?ids ! n # drop (Suc n) ?ids" using n by (rule Cons_nth_drop_Suc [symmetric])
  let ?pre = "weave ?c1 (take n ?ids)" and ?post = "weave ?c2 (drop (Suc n) ?ids)"
  have "is = ?pre @ IBlock (?ids ! n) # ?post"
    using n by (simp add: x'(2) cells weave_append c1 drop)
  moreover have "embedded_xml_text_index x n = Some (iunits ?pre)"
  proof -
    have "iunits ?pre = units_of ?c1" using c1 n by (simp add: units_weave)
    also have "\<dots> = sum_list (concat (map piece_widths p1))"
      using widths_cells [of "map (\<lambda>p. (p, None)) p1"]
      by (simp add: widths_def seq_cells_def pieces_def units_of_def comp_def)
    finally show ?thesis
      using embedded_loop_found [of p1 b p2 0 0] ps by (simp add: embedded_xml_text_index_def)
  qed
  moreover have "item_blocks ?pre = take n ?ids" using c1 n by (intro blocks_weave) simp
  moreover have "item_blocks ?post = drop (Suc n) ?ids" using c2 by (intro blocks_weave) simp
  ultimately show thesis by (rule that)
qed

lemma block_missing:
  assumes laws: "tree_laws y st" and nd: "node st d t = Some (as, is)" and x: "xml_at st d t = Some x"
    and n: "length (block_ids st d t) \<le> n"
  shows "embedded_xml_text_index x n = None"
proof -
  have "length (embedded_xml_texts x) = length (block_ids st d t)"
    using node_Some [OF laws nd] x by (metis option.inject)
  with n show ?thesis by (simp add: embedded_xml_text_index_def embedded_xml_texts_def embedded_loop_missing)
qed

section \<open>Content\<close>

text \<open>The attributes a list of pairs sets, a later pair over an earlier one.\<close>

definition attrs_of :: "(string \<rightharpoonup> any) \<Rightarrow> (string \<times> invalue) list \<Rightarrow> (string \<rightharpoonup> any)" where
  "attrs_of f es = foldl (\<lambda>f (k, v). f(k \<mapsto> invalue_to_any v)) f es"

definition attrs_read :: "yrs \<Rightarrow> attr_list \<Rightarrow> (string \<rightharpoonup> any) \<Rightarrow> bool" where
  "attrs_read y as f \<longleftrightarrow> (\<forall>k. rel_option same_any (map_option (rd_out_to_any y) (map_of as k)) (f k))"

text \<open>The items \<open>is\<close> are the piece \<open>p\<close>: a block is a node of \<open>S\<close> with its attributes and its content.\<close>

fun piece_holds :: "yrs \<Rightarrow> ('d, 'id) yrs_store \<Rightarrow> 'd \<Rightarrow> 'id set \<Rightarrow> piece \<Rightarrow> 'id item list \<Rightarrow> bool"
  and content_holds :: "yrs \<Rightarrow> ('d, 'id) yrs_store \<Rightarrow> 'd \<Rightarrow> 'id set \<Rightarrow> piece list \<Rightarrow> 'id item list \<Rightarrow> bool" where
  "piece_holds y st d S (PieceText s) is \<longleftrightarrow> is = map IChar (chars s)"
| "piece_holds y st d S (PieceEmbed es) is \<longleftrightarrow>
     (\<exists>c. is = [IEmbed c] \<and> same_any (rd_out_to_any y c) (invalue_to_any (IMap es)))"
| "piece_holds y st d S (PieceBlock es ps) is \<longleftrightarrow>
     (\<exists>c as inner. is = [IBlock c] \<and> c \<in> S \<and> node st d c = Some (as, inner)
        \<and> attrs_read y as (attrs_of Map.empty es) \<and> content_holds y st d S ps inner)"
| "content_holds y st d S [] is \<longleftrightarrow> is = []"
| "content_holds y st d S (p # ps) is \<longleftrightarrow>
     (\<exists>is1 is2. is = is1 @ is2 \<and> piece_holds y st d S p is1 \<and> content_holds y st d S ps is2)"

text \<open>Content stays where its nodes stay.\<close>

lemma content_holds_mono:
  assumes "\<And>p is. p \<in> set ps \<Longrightarrow> piece_holds y st d S p is \<Longrightarrow> piece_holds y st d' S' p is"
  shows "content_holds y st d S ps is \<Longrightarrow> content_holds y st d' S' ps is"
  using assms
proof (induction ps arbitrary: "is")
  case (Cons p ps)
  from Cons.prems(1) obtain is1 is2 where cut: "is = is1 @ is2" "piece_holds y st d S p is1" "content_holds y st d S ps is2"
    by auto
  have "content_holds y st d' S' ps is2" using cut(3) Cons.prems(2) by (intro Cons.IH) auto
  with cut Cons.prems(2) show ?case by auto
qed simp

lemma piece_holds_stable:
  assumes stays: "\<And>u. u \<in> S \<Longrightarrow> node st d u \<noteq> None \<Longrightarrow> node st d' u = node st d u" and "S \<subseteq> S'"
  shows "piece_holds y st d S p is \<Longrightarrow> piece_holds y st d' S' p is"
proof (induction p arbitrary: "is")
  case (PieceBlock es ps)
  then obtain c as inner where c: "is = [IBlock c]" "c \<in> S" "node st d c = Some (as, inner)"
    "attrs_read y as (attrs_of Map.empty es)" "content_holds y st d S ps inner"
    by auto
  have "content_holds y st d' S' ps inner"
    using PieceBlock.IH by (rule content_holds_mono [OF _ c(5)])
  moreover have "node st d' c = Some (as, inner)" using stays [OF c(2)] c(3) by simp
  ultimately show ?case using c assms(2) by auto
qed simp_all

lemma content_holds_stable:
  assumes "\<And>u. u \<in> S \<Longrightarrow> node st d u \<noteq> None \<Longrightarrow> node st d' u = node st d u" and "S \<subseteq> S'"
    and "content_holds y st d S ps is"
  shows "content_holds y st d' S' ps is"
  using piece_holds_stable [OF assms(1,2)] by (rule content_holds_mono [OF _ assms(3)])

lemma attrs_of_Cons: "attrs_of f ((k, v) # es) = attrs_of (f(k \<mapsto> invalue_to_any v)) es"
  by (simp add: attrs_of_def)

lemma write_attributes_sets:
  assumes laws: "tree_laws y st"
  shows "node st d c = Some (as, is) \<Longrightarrow> attrs_read y as f \<Longrightarrow>
    \<exists>d' as'. write_attributes st c es d = (Inr (), d') \<and> node st d' c = Some (as', is)
      \<and> attrs_read y as' (attrs_of f es) \<and> unchanged_but st {c} d d'"
proof (induction es arbitrary: d as f)
  case Nil
  then show ?case by (simp add: ret_def attrs_of_def unchanged_but_def)
next
  case (Cons e es)
  obtain k v where e: "e = (k, v)" by force
  obtain d1 as1 p where d1: "tx_insert_attribute st c k (to_in v) d = (Inr (), d1)" "node st d1 c = Some (as1, is)"
    "map_of as1 = (map_of as)(k \<mapsto> p)" "same_any (rd_out_to_any y p) (invalue_to_any v)" "unchanged_but st {c} d d1"
    using tree_attributeD [OF laws Cons.prems(1), of k "to_in v"] by (metis in_any_to_in)
  have "attrs_read y as1 (f(k \<mapsto> invalue_to_any v))"
    using Cons.prems(2) d1(3,4) by (simp add: attrs_read_def)
  from Cons.IH [OF d1(2) this] obtain d' as' where "write_attributes st c es d1 = (Inr (), d')"
    "node st d' c = Some (as', is)" "attrs_read y as' (attrs_of (f(k \<mapsto> invalue_to_any v)) es)" "unchanged_but st {c} d1 d'"
    by blast
  with d1 show ?case by (simp add: e bind_txn_def attrs_of_Cons unchanged_but_def)
qed

definition fresh :: "('d, 'id) yrs_store \<Rightarrow> 'd \<Rightarrow> 'id set" where
  "fresh st d = {u. node st d u = None}"

text \<open>\<open>x\<close> may have changed, and new nodes may have come up.\<close>

definition grown :: "('d, 'id) yrs_store \<Rightarrow> 'id \<Rightarrow> 'd \<Rightarrow> 'd \<Rightarrow> bool" where
  "grown st x d d' \<longleftrightarrow> (\<forall>u. u \<noteq> x \<longrightarrow> node st d u \<noteq> None \<longrightarrow> node st d' u = node st d u)"

lemma grown_unchanged: "unchanged_but st {x} d d' \<Longrightarrow> grown st x d d'"
  by (simp add: grown_def unchanged_but_def)

lemma grown_trans: "grown st x d d1 \<Longrightarrow> grown st x d1 d2 \<Longrightarrow> grown st x d d2"
  unfolding grown_def by metis

lemma fresh_grown: "grown st x d d' \<Longrightarrow> node st d' x \<noteq> None \<Longrightarrow> fresh st d' \<subseteq> fresh st d"
  unfolding grown_def fresh_def by (metis (mono_tags, lifting) Collect_mono)

definition writes_piece :: "yrs \<Rightarrow> ('d, 'id) yrs_store \<Rightarrow> piece \<Rightarrow> bool" where
  "writes_piece y st p \<longleftrightarrow>
     (\<forall>d x as pre post. node st d x = Some (as, pre @ post) \<longrightarrow>
        (\<exists>d' r is. piece_write st p x (iunits pre) d = (Inr r, d') \<and> node st d' x = Some (as, pre @ is @ post)
           \<and> piece_holds y st d' (fresh st d) p is \<and> grown st x d d'
           \<and> (\<forall>es ps. p = PieceBlock es ps \<longrightarrow> (\<exists>c. r = Some c \<and> is = [IBlock c]))))"

lemma content_write_holds:
  assumes laws: "tree_laws y st"
  shows "(\<And>p. p \<in> set ps \<Longrightarrow> writes_piece y st p) \<Longrightarrow> node st d x = Some (as, is0) \<Longrightarrow>
    \<exists>d' is. content_write st ps x d = (Inr (), d') \<and> node st d' x = Some (as, is0 @ is)
      \<and> content_holds y st d' (fresh st d) ps is \<and> grown st x d d'"
proof (induction ps arbitrary: d is0)
  case Nil
  then show ?case by (simp add: ret_def grown_def)
next
  case (Cons p ps)
  have len: "tx_len st d x = iunits is0" using node_Some [OF laws Cons.prems(2)] by metis
  have "writes_piece y st p" using Cons.prems(1) by simp
  then obtain d1 r is1 where d1: "piece_write st p x (iunits is0) d = (Inr r, d1)" "node st d1 x = Some (as, is0 @ is1)"
    "piece_holds y st d1 (fresh st d) p is1" "grown st x d d1"
    using Cons.prems(2) unfolding writes_piece_def by (metis append_Nil2)
  from Cons.IH [OF _ d1(2)] Cons.prems(1) obtain d2 is2 where d2: "content_write st ps x d1 = (Inr (), d2)"
    "node st d2 x = Some (as, (is0 @ is1) @ is2)" "content_holds y st d2 (fresh st d1) ps is2" "grown st x d1 d2"
    by (metis list.set_intros(2))
  have "node st d2 u = node st d1 u" if "u \<in> fresh st d" "node st d1 u \<noteq> None" for u
    using that d2(4) Cons.prems(2) unfolding fresh_def grown_def by (metis (lifting) mem_Collect_eq option.distinct(1))
  then have "piece_holds y st d2 (fresh st d) p is1"
    by (rule piece_holds_stable [OF _ subset_refl d1(3)])
  moreover have "fresh st d1 \<subseteq> fresh st d" using d1(2,4) by (intro fresh_grown [of _ x]) auto
  then have "content_holds y st d2 (fresh st d) ps is2"
    by (rule content_holds_stable [OF refl _ d2(3)])
  ultimately show ?case
    using d1 d2 len grown_trans [OF d1(4) d2(4)] by (auto simp: bind_txn_def read_txn_def)
qed

lemma writes_pieceI:
  assumes "\<And>d x as pre post. node st d x = Some (as, pre @ post) \<Longrightarrow>
    \<exists>d' r is. piece_write st p x (iunits pre) d = (Inr r, d') \<and> node st d' x = Some (as, pre @ is @ post)
      \<and> piece_holds y st d' (fresh st d) p is \<and> grown st x d d'
      \<and> (\<forall>es ps. p = PieceBlock es ps \<longrightarrow> (\<exists>c. r = Some c \<and> is = [IBlock c]))"
  shows "writes_piece y st p"
  using assms unfolding writes_piece_def by blast

lemma block_write_holds:
  assumes laws: "tree_laws y st" and inner: "\<And>p. p \<in> set ps \<Longrightarrow> writes_piece y st p"
  shows "writes_piece y st (PieceBlock es ps)"
proof (rule writes_pieceI)
  fix d x as pre post assume nd: "node st d x = Some (as, pre @ post)"
  obtain d1 c where d1: "tx_insert_embed st x (iunits pre) (PXmlText []) d = (Inr c, d1)" "node st d c = None"
    "node st d1 x = Some (as, pre @ IBlock c # post)" "node st d1 c = Some ([], [])" "unchanged_but st {x, c} d d1"
    using tree_blockD [OF laws nd] by metis
  have ne: "c \<noteq> x" using nd d1(2) by auto
  have "attrs_read y [] Map.empty" by (simp add: attrs_read_def)
  from write_attributes_sets [OF laws d1(4) this, of es] obtain d2 as2 where d2: "write_attributes st c es d1 = (Inr (), d2)"
    "node st d2 c = Some (as2, [])" "attrs_read y as2 (attrs_of Map.empty es)" "unchanged_but st {c} d1 d2"
    by blast
  from content_write_holds [OF laws inner d2(2)] obtain d3 js where d3: "content_write st ps c d2 = (Inr (), d3)"
    "node st d3 c = Some (as2, js)" "content_holds y st d3 (fresh st d2) ps js" "grown st c d2 d3"
    by force
  have x2: "node st d2 x = Some (as, pre @ [IBlock c] @ post)"
    using d1(3) d2(4) ne by (simp add: unchanged_but_def)
  then have x3: "node st d3 x = Some (as, pre @ [IBlock c] @ post)"
    using d3(4) ne by (simp add: grown_def)
  have g2: "node st d2 u = node st d u" if "u \<noteq> x" "node st d u \<noteq> None" for u
    using that d1(2,5) d2(4) by (metis insert_iff singletonD unchanged_but_def)
  then have g: "grown st x d d3"
    using d3(4) d1(2) unfolding grown_def by metis
  have "fresh st d2 \<subseteq> fresh st d"
    using g2 x2 unfolding fresh_def by (metis (mono_tags, lifting) Collect_mono option.distinct(1))
  then have "content_holds y st d3 (fresh st d) ps js"
    by (rule content_holds_stable [OF refl _ d3(3)])
  then have "piece_holds y st d3 (fresh st d) (PieceBlock es ps) [IBlock c]"
    using d1(2) d3(2) d2(3) by (simp add: fresh_def)
  then show "\<exists>d' r is. piece_write st (PieceBlock es ps) x (iunits pre) d = (Inr r, d')
      \<and> node st d' x = Some (as, pre @ is @ post) \<and> piece_holds y st d' (fresh st d) (PieceBlock es ps) is \<and> grown st x d d'
      \<and> (\<forall>es' ps'. PieceBlock es ps = PieceBlock es' ps' \<longrightarrow> (\<exists>c. r = Some c \<and> is = [IBlock c]))"
    using d1(1) d2(1) d3(1) x3 g by (intro exI [of _ d3] exI [of _ "Some c"] exI [of _ "[IBlock c]"])
      (simp add: bind_txn_def ret_def)
qed

lemma piece_write_holds: "tree_laws y st \<Longrightarrow> writes_piece y st p"
proof (induction p)
  case (PieceText s)
  show ?case
  proof (rule writes_pieceI)
    fix d x as pre post assume nd: "node st d x = Some (as, pre @ post)"
    obtain d' where d': "tx_insert st x (iunits pre) s d = (Inr (), d')"
      "node st d' x = Some (as, pre @ map IChar (chars s) @ post)" "unchanged_but st {x} d d'"
      using tree_insertD [OF PieceText nd, of s] by metis
    then show "\<exists>d' r is. piece_write st (PieceText s) x (iunits pre) d = (Inr r, d')
        \<and> node st d' x = Some (as, pre @ is @ post) \<and> piece_holds y st d' (fresh st d) (PieceText s) is \<and> grown st x d d'
        \<and> (\<forall>es ps. PieceText s = PieceBlock es ps \<longrightarrow> (\<exists>c. r = Some c \<and> is = [IBlock c]))"
      using grown_unchanged [OF d'(3)] by (simp add: bind_txn_def ret_def)
  qed
next
  case (PieceEmbed es)
  have any: "in_any (InMap (to_map_prelim es)) = invalue_to_any (IMap es)"
    using in_any_to_in [of "IMap es"] by (simp add: to_map_prelim_def)
  show ?case
  proof (rule writes_pieceI)
    fix d x as pre post assume nd: "node st d x = Some (as, pre @ post)"
    obtain d' c i where d': "tx_insert_embed st x (iunits pre) (PMap (to_map_prelim es)) d = (Inr i, d')"
      "node st d' x = Some (as, pre @ IEmbed c # post)" "same_any (rd_out_to_any y c) (invalue_to_any (IMap es))"
      "unchanged_but st {x} d d'"
      using tree_embedD [OF PieceEmbed nd, of "to_map_prelim es"] any by metis
    then show "\<exists>d' r is. piece_write st (PieceEmbed es) x (iunits pre) d = (Inr r, d')
        \<and> node st d' x = Some (as, pre @ is @ post) \<and> piece_holds y st d' (fresh st d) (PieceEmbed es) is \<and> grown st x d d'
        \<and> (\<forall>es' ps. PieceEmbed es = PieceBlock es' ps \<longrightarrow> (\<exists>c. r = Some c \<and> is = [IBlock c]))"
      using grown_unchanged [OF d'(4)]
      by (intro exI [of _ d'] exI [of _ None] exI [of _ "[IEmbed c]"]) (simp add: bind_txn_def ret_def)
  qed
next
  case (PieceBlock es ps)
  then show ?case by (intro block_write_holds) auto
qed

section \<open>The methods\<close>

lemma resolve_block_Some:
  "xml_at st d t = Some x \<Longrightarrow> resolve_block st t d = (Inr x, d)"
  by (simp add: resolve_block_def resolve_or_def)

text \<open>\<open>write_content\<close> writes its content at the end of what is left.\<close>

lemma write_at_end_content:
  "write_at_end st t ps (tx_len st d t) d = content_write st ps t d"
  by (induction ps arbitrary: d)
    (auto simp: bind_txn_def read_txn_def ret_def split: prod.split sum.split)

lemma remove_all_node:
  assumes laws: "tree_laws y st" and nd: "node st d t = Some (as, is)"
  shows "\<exists>d'. remove_all st t d = (Inr (), d') \<and> node st d' t = Some (as, [])"
proof -
  have len: "tx_len st d t = iunits is" using node_Some [OF laws nd] by metis
  have pos: "0 < iunits is" if "is \<noteq> []"
    using that by (cases "is"; cases "hd is") (simp_all add: len_utf16_def)
  show ?thesis
  proof (cases "is = []")
    case True
    with len nd show ?thesis by (simp add: remove_all_def bind_txn_def read_txn_def ret_def)
  next
    case False
    have "node st d t = Some (as, [] @ is @ [])" using nd by simp
    from tree_removeD [OF laws this False] obtain d' where "tx_remove_range st t 0 (iunits is) d = (Inr (), d')"
      "node st d' t = Some (as, [])" by (metis append_Nil iunits_simps(1))
    with len pos [OF False] show ?thesis by (simp add: remove_all_def bind_txn_def read_txn_def)
  qed
qed

lemma write_content_holds:
  assumes laws: "tree_laws y st" and nd: "node st d t = Some (as, is)"
  shows "\<exists>d0 d' is'. write_content_body st t ps clear d = (Inr (), d')
    \<and> node st d' t = Some (as, (if clear then [] else is) @ is') \<and> content_holds y st d' (fresh st d0) ps is'
    \<and> (\<not> clear \<longrightarrow> d0 = d \<and> grown st t d d')"
proof -
  obtain x where x: "xml_at st d t = Some x" using node_Some [OF laws nd] by metis
  obtain d0 where d0: "(if clear then remove_all st t else ret ()) d = (Inr (), d0)"
    "node st d0 t = Some (as, if clear then [] else is)" "\<not> clear \<longrightarrow> d0 = d"
    using remove_all_node [OF laws nd] nd by (cases clear) (auto simp: ret_def)
  from content_write_holds [OF laws piece_write_holds [OF laws] d0(2), of ps] obtain d' is' where
    "content_write st ps t d0 = (Inr (), d')" "node st d' t = Some (as, (if clear then [] else is) @ is')"
    "content_holds y st d' (fresh st d0) ps is'" "grown st t d0 d'" by blast
  then show ?thesis
    using d0 by (intro exI [of _ d0] exI [of _ d'] exI [of _ is'])
      (auto simp: write_content_body_def resolve_block_Some [OF x] bind_txn_def read_txn_def write_at_end_content)
qed

text \<open>A block goes in before the block whose ordinal was given, or last.\<close>

lemma insert_block_holds:
  assumes laws: "tree_laws y st" and nd: "node st d t = Some (as, is)"
  shows "\<exists>d' c pre post. insert_block_body st t n es ps d = (Inr c, d') \<and> is = pre @ post
    \<and> node st d' t = Some (as, pre @ [IBlock c] @ post)
    \<and> item_blocks pre = take (insert_index n (length (block_ids st d t))) (block_ids st d t)
    \<and> item_blocks post = drop (insert_index n (length (block_ids st d t))) (block_ids st d t)
    \<and> piece_holds y st d' (fresh st d) (PieceBlock es ps) [IBlock c] \<and> grown st t d d'"
proof -
  let ?ids = "block_ids st d t"
  let ?i = "insert_index n (length ?ids)"
  obtain x where x: "xml_at st d t = Some x" "length (embedded_xml_texts x) = length ?ids" "tx_len st d t = iunits is"
    "item_blocks is = ?ids"
    using node_Some [OF laws nd] by metis
  obtain pre post where pp: "is = pre @ post" "item_blocks pre = take ?i ?ids" "item_blocks post = drop ?i ?ids"
    "(case embedded_xml_text_index x ?i of Some at \<Rightarrow> at | None \<Rightarrow> tx_len st d t) = iunits pre"
  proof (cases "?i < length ?ids")
    case True
    from block_split [OF laws nd x(1) True] obtain pre post where "is = pre @ IBlock (?ids ! ?i) # post"
      "embedded_xml_text_index x ?i = Some (iunits pre)" "item_blocks pre = take ?i ?ids"
      "item_blocks post = drop (Suc ?i) ?ids" by metis
    then show thesis
      using True by (intro that [of pre "IBlock (?ids ! ?i) # post"]) (simp_all add: Cons_nth_drop_Suc)
  next
    case False
    then have "embedded_xml_text_index x ?i = None" by (intro block_missing [OF laws nd x(1)]) simp
    then show thesis using False x by (intro that [of "is" "[]"]) simp_all
  qed
  have "node st d t = Some (as, pre @ post)" using nd pp(1) by simp
  moreover have "writes_piece y st (PieceBlock es ps)" using laws by (rule piece_write_holds)
  ultimately obtain d' c where "piece_write st (PieceBlock es ps) t (iunits pre) d = (Inr (Some c), d')"
    "node st d' t = Some (as, pre @ [IBlock c] @ post)" "piece_holds y st d' (fresh st d) (PieceBlock es ps) [IBlock c]"
    "grown st t d d'"
    unfolding writes_piece_def by (metis (no_types, opaque_lifting))
  with pp x show ?thesis
    by (intro exI [of _ d'] exI [of _ c] exI [of _ pre] exI [of _ post])
      (simp add: insert_block_body_def resolve_block_Some [OF x(1)] bind_txn_def read_txn_def ret_def Let_def
        del: piece_write.simps piece_holds.simps)
qed

lemma delete_block_holds:
  assumes laws: "tree_laws y st" and nd: "node st d t = Some (as, is)"
  shows "case element_index n (length (block_ids st d t)) of
      None \<Rightarrow> delete_block_body st t n d = (Inr False, d)
    | Some i \<Rightarrow> (\<exists>d' pre post. delete_block_body st t n d = (Inr True, d') \<and> is = pre @ IBlock (block_ids st d t ! i) # post
        \<and> node st d' t = Some (as, pre @ post) \<and> item_blocks pre = take i (block_ids st d t)
        \<and> item_blocks post = drop (Suc i) (block_ids st d t))"
proof -
  let ?ids = "block_ids st d t"
  obtain x where x: "xml_at st d t = Some x" "length (embedded_xml_texts x) = length ?ids"
    using node_Some [OF laws nd] by metis
  show ?thesis
  proof (cases "element_index n (length ?ids)")
    case None
    with x show ?thesis by (simp add: delete_block_body_def resolve_block_Some [OF x(1)] bind_txn_def ret_def)
  next
    case (Some i)
    then have "i < length ?ids" by (auto simp: element_index_def Let_def split: if_splits)
    from block_split [OF laws nd x(1) this] obtain pre post where pp: "is = pre @ IBlock (?ids ! i) # post"
      "embedded_xml_text_index x i = Some (iunits pre)" "item_blocks pre = take i ?ids" "item_blocks post = drop (Suc i) ?ids"
      by metis
    have "node st d t = Some (as, pre @ [IBlock (?ids ! i)] @ post)" using nd pp(1) by simp
    from tree_removeD [OF laws this] obtain d' where "tx_remove_range st t (iunits pre) 1 d = (Inr (), d')"
      "node st d' t = Some (as, pre @ post)" by auto
    with pp Some x show ?thesis
      by (auto simp: delete_block_body_def resolve_block_Some [OF x(1)] bind_txn_def ret_def Let_def)
  qed
qed

section \<open>Markers\<close>

text \<open>Lexical keeps the characters of a text node after its marker and drops characters that have
  none: \<open>marked\<close> says that no character comes first or right after an embedded block.  The flag
  says whether characters may follow.\<close>

fun marked :: "bool \<Rightarrow> 'id item list \<Rightarrow> bool" where
  "marked ok [] = True"
| "marked ok (IChar c # is) = (ok \<and> marked True is)"
| "marked ok (IEmbed p # is) = marked True is"
| "marked ok (IBlock i # is) = marked False is"

definition ends_block :: "'id item list \<Rightarrow> bool" where
  "ends_block is \<longleftrightarrow> is \<noteq> [] \<and> item_block (last is) \<noteq> None"

lemma ends_block_embed [simp]: "\<not> ends_block [IEmbed c]"
  by (simp add: ends_block_def)

lemma marked_append:
  "marked ok (xs @ ys) \<longleftrightarrow> marked ok xs \<and> marked (if xs = [] then ok else \<not> ends_block xs) ys"
  by (induction ok xs rule: marked.induct) (auto simp: ends_block_def split: if_splits)

lemma marked_chars: "marked True (map IChar cs)"
  by (induction cs) auto

lemma ends_with_weave:
  assumes laws: "tree_laws y st" and nd: "node st d t = Some (as, is)" and x: "xml_at st d t = Some x"
  shows "ends_with_xml_text x = ends_block is"
proof -
  let ?ids = "block_ids st d t"
  obtain x' where x': "xml_at st d t = Some x'" "is = weave (seq_cells (tx_diff x')) ?ids"
    "cell_blocks (seq_cells (tx_diff x')) = length ?ids" "OAny (AString []) \<notin> set (pieces (tx_diff x'))"
    using node_Some [OF laws nd] by metis
  have [simp]: "x' = x" using x x'(1) by simp
  show ?thesis
  proof (cases "pieces (tx_diff x)" rule: rev_cases)
    case Nil
    then show ?thesis using x'(2) by (simp add: ends_with_xml_text_def ends_block_def seq_cells_def)
  next
    case (snoc qs p)
    let ?c1 = "concat (map piece_cell_list qs)"
    have cells: "seq_cells (tx_diff x) = ?c1 @ piece_cell_list p" by (simp add: seq_cells_def snoc)
    let ?rest = "weave (piece_cell_list p) (drop (cell_blocks ?c1) ?ids)"
    have cut: "is = weave ?c1 (take (cell_blocks ?c1) ?ids) @ ?rest"
      using x'(2,3) cells by (simp add: weave_append)
    have last: "ends_with_xml_text x = (case p of OYXmlText _ \<Rightarrow> True | _ \<Rightarrow> False)"
      by (simp add: ends_with_xml_text_def snoc split: out.split)
    consider s where "p = OAny (AString s)" "s \<noteq> []" | b where "p = OYXmlText b"
      | "\<forall>s. p \<noteq> OAny (AString s)" "\<forall>b. p \<noteq> OYXmlText b"
      using x'(4) snoc by force
    then show ?thesis
    proof cases
      case 1
      have weave_chars: "weave (map CChar cs) js = map IChar cs" for cs js by (induction cs) auto
      from 1 have "?rest = map IChar (chars s)" by (simp add: piece_cell_list_def weave_chars)
      then show ?thesis using 1 by (simp add: last cut ends_block_def last_map)
    next
      case 2
      have "drop (cell_blocks ?c1) ?ids \<noteq> []" using x'(3) cells 2 by (simp add: piece_cell_list_def)
      then obtain i js where "drop (cell_blocks ?c1) ?ids = i # js" by (cases "drop (cell_blocks ?c1) ?ids") auto
      then have "?rest = [IBlock i]" using 2 by (simp add: piece_cell_list_def)
      then show ?thesis using 2 by (simp add: last cut ends_block_def)
    next
      case 3
      then have "piece_cell_list p = [CPiece p]" by (auto simp: piece_cell_list_def split: out.splits any.splits)
      then have "?rest = [IEmbed p]" using 3 by (simp add: weave_other)
      then show ?thesis using 3 by (auto simp: last cut ends_block_def split: out.split)
    qed
  qed
qed

text \<open>\<open>append_text\<close> embeds the marker exactly when the end needs one.\<close>

lemma append_text_marks:
  assumes laws: "tree_laws y st" and nd: "node st d t = Some (as, is)"
  shows "\<exists>d' mk. append_text_body st t s es d = (Inr (), d')
    \<and> node st d' t = Some (as, is @ mk @ map IChar (chars s))
    \<and> (if is = [] \<or> ends_block is then \<exists>c. mk = [IEmbed c] \<and> same_any (rd_out_to_any y c) (invalue_to_any (IMap es)) else mk = [])"
proof -
  obtain x where x: "xml_at st d t = Some x" and len: "tx_len st d t = iunits is" using node_Some [OF laws nd] by metis
  have zero: "iunits is = 0 \<longleftrightarrow> is = []"
    by (cases "is"; cases "hd is") (simp_all add: len_utf16_def)
  note ends = ends_with_weave [OF laws nd x]
  note simps = append_text_body_def resolve_block_Some [OF x] bind_txn_def read_txn_def ret_def len zero ends
  show ?thesis
  proof (cases "is = [] \<or> ends_block is")
    case True
    have any: "in_any (InMap (to_map_prelim es)) = invalue_to_any (IMap es)"
      using in_any_to_in [of "IMap es"] by (simp add: to_map_prelim_def)
    have "node st d t = Some (as, is @ [])" using nd by simp
    from tree_embedD [OF laws this, of "to_map_prelim es"] obtain d1 c i where
      d1: "tx_insert_embed st t (iunits is) (PMap (to_map_prelim es)) d = (Inr i, d1)"
      "node st d1 t = Some (as, (is @ [IEmbed c]) @ [])" "same_any (rd_out_to_any y c) (invalue_to_any (IMap es))"
      using any by (metis append.right_neutral append_Cons append_Nil)
    from tree_insertD [OF laws d1(2), of s] obtain d2 where "tx_insert st t (iunits (is @ [IEmbed c])) s d1 = (Inr (), d2)"
      "node st d2 t = Some (as, (is @ [IEmbed c]) @ map IChar (chars s) @ [])" by blast
    with True d1 show ?thesis
      by (intro exI [of _ d2] exI [of _ "[IEmbed c]"]) (auto simp: simps)
  next
    case False
    have "node st d t = Some (as, is @ [])" using nd by simp
    from tree_insertD [OF laws this, of s] obtain d' where "tx_insert st t (iunits is) s d = (Inr (), d')"
      "node st d' t = Some (as, is @ map IChar (chars s) @ [])" by blast
    with False show ?thesis by (intro exI [of _ d'] exI [of _ "[]"]) (simp add: simps)
  qed
qed

lemma append_text_marked:
  assumes laws: "tree_laws y st" and nd: "node st d t = Some (as, is)" and m: "marked False is"
  shows "\<exists>d' is'. append_text_body st t s es d = (Inr (), d') \<and> node st d' t = Some (as, is') \<and> marked False is'"
proof -
  obtain d' mk where d': "append_text_body st t s es d = (Inr (), d')" "node st d' t = Some (as, is @ mk @ map IChar (chars s))"
    "if is = [] \<or> ends_block is then \<exists>c. mk = [IEmbed c] else mk = []"
    using append_text_marks [OF laws nd, of s es] by (auto split: if_splits)
  then have "marked False (is @ mk @ map IChar (chars s))"
    using m marked_chars [of "chars s"] by (auto simp: marked_append split: if_splits)
  with d' show ?thesis by blast
qed

end
