(* ===== verification/DocLookup.thy ===== *)
theory DocLookup
  imports ArrayHandle MapHandle TextHandle XmlTextHandle
begin

text \<open>
  The document class of \<open>src/ext/yrby/src/lib.rs\<close> as the way in: creating a document, its roots as
  plain values and as live handles, and finding a block from a position (\<open>block_at\<close>, \<open>find\<close>,
  \<open>contains_branch\<close>, and \<open>top\<close> of \<open>src/ext/yrby/src/shared.rs\<close>).  Branch pointers are compared as
  identities.

  The two walks, down the embedded blocks and up the parents, end only because a document is a
  finite tree: they are partial functions whose \<open>None\<close> is not returning, and that they return is
  a lemma under a rank that embedding decreases.
\<close>

text \<open>What the document looks up in a transaction: roots by name and type, the parent of an XML
  branch, and what \<open>BranchID::Root\<close> and \<open>TypeRef::XmlText\<close> tell of a branch.\<close>

record ('d, 'id) yrs_roots =
  new_doc :: "nat option \<Rightarrow> 'd"
  doc_client :: "'d \<Rightarrow> nat"
  root_refs :: "'d \<Rightarrow> string list"
  root_text_string :: "'d \<Rightarrow> string \<Rightarrow> string option"
  root_fragment :: "'d \<Rightarrow> string \<Rightarrow> fragment option"
  root_map_entries :: "'d \<Rightarrow> string \<Rightarrow> (string \<times> out) list option"
  root_array_items :: "'d \<Rightarrow> string \<Rightarrow> out list option"
  xml_parent :: "'d \<Rightarrow> 'id \<Rightarrow> 'id option"
  is_root_branch :: "'id \<Rightarrow> bool"
  is_xml_text :: "'d \<Rightarrow> 'id \<Rightarrow> bool"

section \<open>Documents and their roots\<close>

text \<open>\<open>observed\<close> is the result of registering the observer, whose work is \<open>on_commit\<close>.\<close>

definition rb_doc_new ::
  "(rvalue \<Rightarrow> int option) \<Rightarrow> ('d, 'id) yrs_roots \<Rightarrow> ('d \<Rightarrow> string + unit) \<Rightarrow> rvalue list \<Rightarrow> handle_error + 'd rb_doc" where
  "rb_doc_new to_int lk observed args =
     bind_sum (case args of
         [] \<Rightarrow> Inr None
       | arg # _ \<Rightarrow> map_sum BindErr (\<lambda>n. Some (nat n)) (try_int to_int 0 (2 ^ 64 - 1) arg)) (\<lambda>client.
     let doc = new_doc lk client
     in bind_sum (map_sum YErr id (observed doc)) (\<lambda>_. Inr \<lparr>ydoc = doc, unsent = []\<rparr>))"

definition rd_client_id :: "('d, 'id) yrs_roots \<Rightarrow> 'd rb_doc \<Rightarrow> nat" where
  "rd_client_id lk rb = doc_client lk (ydoc rb)"

definition root_names :: "('d, 'id) yrs_roots \<Rightarrow> string option \<Rightarrow> 'd rb_doc \<Rightarrow> handle_error + string list" where
  "root_names lk intr rb = nogvl_read intr (root_refs lk (ydoc rb))"

definition read_text :: "('d, 'id) yrs_roots \<Rightarrow> string option \<Rightarrow> 'd rb_doc \<Rightarrow> string \<Rightarrow> handle_error + string option" where
  "read_text lk intr rb name = nogvl_read intr (root_text_string lk (ydoc rb) name)"

definition read_xml ::
  "yrs \<Rightarrow> ('d, 'id) yrs_roots \<Rightarrow> string option \<Rightarrow> 'd rb_doc \<Rightarrow> string \<Rightarrow> handle_error + string option" where
  "read_xml y lk intr rb name =
     nogvl_read intr (map_option (rd_xml_blocks_text y) (root_fragment lk (ydoc rb) name))"

definition read_map ::
  "yrs \<Rightarrow> ('d, 'id) yrs_roots \<Rightarrow> string option \<Rightarrow> 'd rb_doc \<Rightarrow> string \<Rightarrow> handle_error + string option" where
  "read_map y lk intr rb name =
     nogvl_read intr (map_option (rd_map_json y) (root_map_entries lk (ydoc rb) name))"

definition read_array ::
  "yrs \<Rightarrow> ('d, 'id) yrs_roots \<Rightarrow> string option \<Rightarrow> 'd rb_doc \<Rightarrow> string \<Rightarrow> handle_error + string option" where
  "read_array y lk intr rb name =
     nogvl_read intr (map_option (rd_array_json y) (root_array_items lk (ydoc rb) name))"

definition doc_get_array ::
  "('d, 'id) yrs_store \<Rightarrow> string option \<Rightarrow> string \<Rightarrow> 'd rb_doc \<Rightarrow> (handle_error + 'id) \<times> 'd rb_doc" where
  "doc_get_array st intr name rb = root_array st intr name rb"

definition doc_get_text ::
  "('d, 'id) yrs_store \<Rightarrow> string option \<Rightarrow> string \<Rightarrow> 'd rb_doc \<Rightarrow> (handle_error + 'id) \<times> 'd rb_doc" where
  "doc_get_text st intr name rb = root_text st intr name rb"

definition doc_get_xml_text ::
  "('d, 'id) yrs_store \<Rightarrow> string option \<Rightarrow> string \<Rightarrow> 'd rb_doc \<Rightarrow> (handle_error + 'id rb_xml_text) \<times> 'd rb_doc" where
  "doc_get_xml_text st intr name rb = root_xml_text st intr name rb"

definition doc_get_map ::
  "('d, 'id) yrs_store \<Rightarrow> string option \<Rightarrow> string \<Rightarrow> 'd rb_doc \<Rightarrow> (handle_error + 'id) \<times> 'd rb_doc" where
  "doc_get_map st intr name rb = root_map st intr name rb"

section \<open>Down the blocks and up the parents\<close>

text \<open>The recursion of \<open>contains_branch\<close> over a list of blocks still to search, in the order of the
  source; on one block it is \<open>contains_branch\<close>.\<close>

partial_function (option) contains_any ::
  "('d, 'id) yrs_store \<Rightarrow> 'd \<Rightarrow> 'id \<Rightarrow> 'id list \<Rightarrow> bool option" where
  "contains_any st d branch blocks =
     (case blocks of
        [] \<Rightarrow> Some False
      | block # rest \<Rightarrow>
          (if block = branch then Some True
           else Option.bind (contains_any st d branch (block_ids st d block)) (\<lambda>found.
             if found then Some True else contains_any st d branch rest)))"

definition contains_branch :: "('d, 'id) yrs_store \<Rightarrow> 'd \<Rightarrow> 'id \<Rightarrow> 'id \<Rightarrow> bool option" where
  "contains_branch st d block branch = contains_any st d branch [block]"

partial_function (option) top_branch :: "('d, 'id) yrs_roots \<Rightarrow> 'd \<Rightarrow> 'id \<Rightarrow> 'id option" where
  "top_branch lk d at =
     (case xml_parent lk d at of
        Some parent \<Rightarrow> top_branch lk d parent
      | None \<Rightarrow> Some at)"

text \<open>\<open>iter().position(..)\<close>.\<close>

fun block_position :: "('d, 'id) yrs_store \<Rightarrow> 'd \<Rightarrow> 'id \<Rightarrow> 'id list \<Rightarrow> nat \<Rightarrow> nat option option" where
  "block_position st d branch [] n = Some None"
| "block_position st d branch (block # blocks) n =
     Option.bind (contains_branch st d block branch) (\<lambda>found.
       if found then Some (Some n) else block_position st d branch blocks (n + 1))"

definition root_block :: "('d, 'id) yrs_store \<Rightarrow> ('d, 'id) yrs_roots \<Rightarrow> 'd \<Rightarrow> string \<Rightarrow> 'id option" where
  "root_block st lk d root = map_option (\<lambda>_. root_id st root) (root_fragment lk d root)"

definition block_at_closure ::
  "('d, 'id) yrs_store \<Rightarrow> ('d, 'id) yrs_roots \<Rightarrow> 'd \<Rightarrow> position \<Rightarrow> string \<Rightarrow> nat option option" where
  "block_at_closure st lk d sticky root =
     (case get_offset st d sticky of
        None \<Rightarrow> Some None
      | Some (branch, _) \<Rightarrow>
          (case root_block st lk d root of
             None \<Rightarrow> Some None
           | Some r \<Rightarrow> block_position st d branch (block_ids st d r) 0))"

definition block_at ::
  "(rvalue \<Rightarrow> int option) \<Rightarrow> (rvalue \<Rightarrow> string option) \<Rightarrow> ('d, 'id) yrs_store \<Rightarrow> ('d, 'id) yrs_roots \<Rightarrow> string option \<Rightarrow> 'd rb_doc \<Rightarrow> rhash \<Rightarrow> string
     \<Rightarrow> (handle_error + nat option) option" where
  "block_at to_int try_string st lk intr rb position root =
     (case sticky_from_ruby to_int try_string position of
        Inl e \<Rightarrow> Some (Inl (BindErr e))
      | Inr sticky \<Rightarrow> map_option (nogvl_read intr) (block_at_closure st lk (ydoc rb) sticky root))"

definition find_closure ::
  "('d, 'id) yrs_store \<Rightarrow> ('d, 'id) yrs_roots \<Rightarrow> 'd \<Rightarrow> position \<Rightarrow> string \<Rightarrow> 'id option option" where
  "find_closure st lk d sticky name =
     (case get_offset st d sticky of
        None \<Rightarrow> Some None
      | Some (branch, _) \<Rightarrow>
          (let is_block = is_root_branch lk branch \<or> is_xml_text lk d branch
           in Option.bind (top_branch lk d branch) (\<lambda>top.
                Some (if is_block \<and> top = root_id st name \<and> xml_at st d branch \<noteq> None then Some branch else None))))"

definition find_block ::
  "(rvalue \<Rightarrow> int option) \<Rightarrow> (rvalue \<Rightarrow> string option) \<Rightarrow> ('d, 'id) yrs_store \<Rightarrow> ('d, 'id) yrs_roots \<Rightarrow> string option \<Rightarrow> 'd rb_doc \<Rightarrow> rhash \<Rightarrow> string
     \<Rightarrow> (handle_error + 'id rb_xml_text option) option" where
  "find_block to_int try_string st lk intr rb position root =
     (case sticky_from_ruby to_int try_string position of
        Inl e \<Rightarrow> Some (Inl (BindErr e))
      | Inr sticky \<Rightarrow>
          map_option (\<lambda>i. bind_sum (nogvl_read intr i) (\<lambda>found. Inr (map_option (\<lambda>i. handle i root) found)))
            (find_closure st lk (ydoc rb) sticky root))"

section \<open>The walks return\<close>

text \<open>A finite tree: a rank that embedding decreases, and one that going to the parent decreases.\<close>

definition blocks_ranked :: "('d, 'id) yrs_store \<Rightarrow> 'd \<Rightarrow> ('id \<Rightarrow> nat) \<Rightarrow> bool" where
  "blocks_ranked st d rank \<longleftrightarrow> (\<forall>b. \<forall>c \<in> set (block_ids st d b). rank c < rank b)"

definition parents_ranked :: "('d, 'id) yrs_roots \<Rightarrow> 'd \<Rightarrow> ('id \<Rightarrow> nat) \<Rightarrow> bool" where
  "parents_ranked lk d rank \<longleftrightarrow> (\<forall>b p. xml_parent lk d b = Some p \<longrightarrow> rank p < rank b)"

text \<open>\<open>c\<close> is \<open>b\<close> or embedded somewhere inside it.\<close>

inductive inside :: "('d, 'id) yrs_store \<Rightarrow> 'd \<Rightarrow> 'id \<Rightarrow> 'id \<Rightarrow> bool" for st d where
  here: "inside st d b b"
| deeper: "c \<in> set (block_ids st d b) \<Longrightarrow> inside st d c x \<Longrightarrow> inside st d b x"

inductive_cases insideE: "inside st d b x"

lemma inside_iff: "inside st d b x \<longleftrightarrow> b = x \<or> (\<exists>c \<in> set (block_ids st d b). inside st d c x)"
  by (auto intro: inside.intros elim: insideE)

lemma contains_any_decides:
  assumes r: "blocks_ranked st d rank"
  shows "(\<And>b. b \<in> set bs \<Longrightarrow> rank b < n) \<Longrightarrow> contains_any st d x bs = Some (\<exists>b \<in> set bs. inside st d b x)"
proof (induction n arbitrary: bs)
  case 0
  then have "bs = []" by (cases bs) auto
  then show ?case by (simp add: contains_any.simps)
next
  case (Suc n)
  from Suc.prems show ?case
  proof (induction bs)
    case Nil
    then show ?case by (simp add: contains_any.simps)
  next
    case (Cons b bs)
    have "rank c < n" if "c \<in> set (block_ids st d b)" for c
      using that r Cons.prems [of b] unfolding blocks_ranked_def by fastforce
    then have "contains_any st d x (block_ids st d b) = Some (\<exists>c \<in> set (block_ids st d b). inside st d c x)"
      by (rule Suc.IH)
    moreover have "contains_any st d x bs = Some (\<exists>b \<in> set bs. inside st d b x)"
      using Cons by simp
    moreover have "inside st d b x \<longleftrightarrow> b = x \<or> (\<exists>c \<in> set (block_ids st d b). inside st d c x)" by (rule inside_iff)
    ultimately show ?case
      by (subst contains_any.simps) auto
  qed
qed

lemma contains_branch_decides:
  assumes "blocks_ranked st d rank"
  shows "contains_branch st d b x = Some (inside st d b x)"
  using contains_any_decides [OF assms, of "[b]" "Suc (rank b)"] by (simp add: contains_branch_def)

lemma block_position_first:
  assumes "blocks_ranked st d rank"
  shows "block_position st d x bs n = Some
    (if \<exists>b \<in> set bs. inside st d b x then Some (n + length (takeWhile (\<lambda>b. \<not> inside st d b x) bs)) else None)"
  by (induction bs arbitrary: n) (simp_all add: contains_branch_decides [OF assms])

lemma top_branch_returns:
  assumes "parents_ranked lk d rank"
  shows "\<exists>r. top_branch lk d b = Some r \<and> xml_parent lk d r = None"
proof (induction "rank b" arbitrary: b rule: less_induct)
  case less
  show ?case
  proof (cases "xml_parent lk d b")
    case None
    then show ?thesis by (simp add: top_branch.simps)
  next
    case (Some p)
    then have "rank p < rank b" using assms by (simp add: parents_ranked_def)
    from less [OF this] Some show ?thesis by (simp add: top_branch.simps [of lk d b])
  qed
qed

end
