(* ===== verification/HandleCalls.thy ===== *)
theory HandleCalls
  imports ArrayHandle MapHandle TextHandle XmlTree DocLookup
begin

text \<open>
  Calls through handles of every kind as one sequence, and what such a sequence leaves for
  \<open>Doc#edit\<close>: each call commits at most one local transaction, so the unsent updates are
  exactly what yrs reported, call by call, in order.
\<close>

datatype xml_call =
    XmlSetAttribute string rvalue
  | XmlInsert int string
  | XmlInsertEmbed int rvalue
  | XmlDelete int int
  | XmlClear
  | XmlInsertBlock int rhash "rvalue list"
  | XmlAppend "rvalue list"
  | XmlReplace "rvalue list"
  | XmlAppendText string rhash
  | XmlDeleteBlock int

text \<open>The Ruby conversions a call may run.\<close>

record conversions =
  conv_to_s :: "rvalue \<Rightarrow> value_error + string"
  conv_to_hash :: "rvalue \<Rightarrow> rhash option"
  conv_to_ary :: "rvalue \<Rightarrow> rvalue list option"

fun xml_run ::
  "conversions \<Rightarrow> ('d, 'id) yrs_store \<Rightarrow> ('d \<Rightarrow> 'd \<Rightarrow> bytes option) \<Rightarrow> 'id rb_xml_text \<Rightarrow> 'd rb_doc
     \<Rightarrow> string option \<times> xml_call \<Rightarrow> 'd rb_doc" where
  "xml_run cv st tu h rb (intr, XmlSetAttribute k v) = snd (rx_set_attribute (conv_to_s cv) st tu intr h k v rb)"
| "xml_run cv st tu h rb (intr, XmlInsert i s) = snd (rx_insert st tu intr h i s rb)"
| "xml_run cv st tu h rb (intr, XmlInsertEmbed i v) = snd (rx_insert_embed (conv_to_s cv) st tu intr h i v rb)"
| "xml_run cv st tu h rb (intr, XmlDelete i n) = snd (rx_delete st tu intr h i n rb)"
| "xml_run cv st tu h rb (intr, XmlClear) = snd (rx_clear st tu intr h rb)"
| "xml_run cv st tu h rb (intr, XmlInsertBlock n as vs) =
     snd (rx_insert_xml_text (conv_to_s cv) (conv_to_hash cv) (conv_to_ary cv) st tu intr h n as vs rb)"
| "xml_run cv st tu h rb (intr, XmlAppend vs) =
     snd (rx_append (conv_to_s cv) (conv_to_hash cv) (conv_to_ary cv) st tu intr h vs rb)"
| "xml_run cv st tu h rb (intr, XmlReplace vs) =
     snd (rx_replace (conv_to_s cv) (conv_to_hash cv) (conv_to_ary cv) st tu intr h vs rb)"
| "xml_run cv st tu h rb (intr, XmlAppendText s mk) = snd (rx_append_text (conv_to_s cv) st tu intr h s mk rb)"
| "xml_run cv st tu h rb (intr, XmlDeleteBlock n) = snd (rx_delete_xml_text st tu intr h n rb)"

datatype 'id handle_call =
    OnArray 'id "string option \<times> array_call"
  | OnMap 'id "string option \<times> map_call"
  | OnText 'id "string option \<times> text_call"
  | OnXml "'id rb_xml_text" "string option \<times> xml_call"

fun handle_run ::
  "conversions \<Rightarrow> yrs \<Rightarrow> ('d, 'id) yrs_store \<Rightarrow> ('d \<Rightarrow> 'd \<Rightarrow> bytes option) \<Rightarrow> 'd rb_doc \<Rightarrow> 'id handle_call \<Rightarrow> 'd rb_doc" where
  "handle_run cv y st tu rb (OnArray a call) = array_run (conv_to_s cv) y st tu a rb call"
| "handle_run cv y st tu rb (OnMap m call) = map_run (conv_to_s cv) y st tu m rb call"
| "handle_run cv y st tu rb (OnText t call) = text_run st tu t rb call"
| "handle_run cv y st tu rb (OnXml h call) = xml_run cv st tu h rb call"

section \<open>One transaction per call\<close>

definition commits_once :: "('d \<Rightarrow> 'd \<Rightarrow> bytes option) \<Rightarrow> 'd rb_doc \<Rightarrow> 'd rb_doc \<Rightarrow> bool" where
  "commits_once tu rb rb' \<longleftrightarrow> rb' = rb \<or> (\<exists>d. rb' = local_write tu rb d)"

lemma local_op_commits: "local_op tu f \<Longrightarrow> commits_once tu rb (snd (f rb))"
  using local_op.oper_commits [of tu f rb] by (auto simp: commits_once_def)

lemma snd_apfst_commits: "commits_once tu rb (snd p) \<Longrightarrow> commits_once tu rb (snd (apfst g p))"
  by simp

lemmas handle_ops =
  ra_pu.local_op_axioms ra_ins.local_op_axioms ra_txt.local_op_axioms ra_put.local_op_axioms ra_del.local_op_axioms
  ra_clr.local_op_axioms rm_put.local_op_axioms rm_txt.local_op_axioms rm_del.local_op_axioms rm_clr.local_op_axioms
  rt_ins.local_op_axioms rt_psh.local_op_axioms rt_del.local_op_axioms rt_clr.local_op_axioms
  rx_attr.local_op_axioms rx_ins.local_op_axioms rx_emb.local_op_axioms rx_del.local_op_axioms rx_clr.local_op_axioms
  rx_blk.local_op_axioms rx_cont.local_op_axioms rx_apt.local_op_axioms rx_dblk.local_op_axioms

lemma array_run_commits: "commits_once tu rb (array_run to_s y st tu a rb (intr, call))"
  by (cases call) (simp_all add: handle_ops [THEN local_op_commits])

lemma map_run_commits: "commits_once tu rb (map_run to_s y st tu m rb (intr, call))"
  by (cases call) (simp_all add: handle_ops [THEN local_op_commits])

lemma text_run_commits: "commits_once tu rb (text_run st tu t rb (intr, call))"
  by (cases call) (simp_all add: handle_ops [THEN local_op_commits])

lemma xml_run_commits: "commits_once tu rb (xml_run cv st tu h rb (intr, call))"
  by (cases call) (simp_all add: handle_ops [THEN local_op_commits] rx_append_def rx_replace_def)

lemma handle_run_commits: "commits_once tu rb (handle_run cv y st tu rb call)"
  by (cases call)
    (auto simp: array_run_commits map_run_commits text_run_commits xml_run_commits)

section \<open>What a sequence leaves\<close>

text \<open>The updates yrs reports for the changes of a sequence of calls.\<close>

fun reported :: "('d \<Rightarrow> 'd \<Rightarrow> bytes option) \<Rightarrow> ('d rb_doc \<Rightarrow> 'c \<Rightarrow> 'd rb_doc) \<Rightarrow> 'd rb_doc \<Rightarrow> 'c list \<Rightarrow> bytes list" where
  "reported tu run rb [] = []"
| "reported tu run rb (call # calls) =
     (case tu (ydoc rb) (ydoc (run rb call)) of Some u \<Rightarrow> [u] | None \<Rightarrow> [])
     @ reported tu run (run rb call) calls"

lemma commits_once_unsent:
  assumes "\<And>d. tu d d = None" and "commits_once tu rb rb'"
  shows "unsent rb' = unsent rb @ (case tu (ydoc rb) (ydoc rb') of Some u \<Rightarrow> [u] | None \<Rightarrow> [])"
proof (cases "rb' = rb")
  case False
  then obtain d where "rb' = local_write tu rb d" using assms(2) by (auto simp: commits_once_def)
  then show ?thesis by (simp add: local_write_def commit_txn_def on_commit_def split: option.split)
qed (simp add: assms(1))

lemma calls_unsent:
  assumes "\<And>d. tu d d = None" and "\<And>rb call. commits_once tu rb (run rb call)"
  shows "unsent (foldl run rb calls) = unsent rb @ reported tu run rb calls"
  by (induction calls arbitrary: rb) (simp_all add: commits_once_unsent [OF assms(1) assms(2)])

end
