(* ===== verification/SampleStore.thy ===== *)
theory SampleStore
  imports ArrayHandle MapHandle TextHandle XmlTree
begin

text \<open>
  A small store in which the hypotheses about yrs hold, to apply the theorems to: one array, one
  map, and a list of nodes whose index is their identity.  New blocks are added at the end of
  the list, and a node whose items are not characters, embeds or blocks is not found.
\<close>

record sample_doc =
  sd_nodes :: "(attr_list \<times> nat item list) list"
  sd_array :: "nat slot list"
  sd_map :: "(string \<times> nat slot) list"

fun in_out :: "in_value \<Rightarrow> out" where
  "in_out (InAny a) = OAny a"
| "in_out (InMap m) = OYMap (map (\<lambda>(k, v). (k, in_out v)) m)"

fun prelim_out :: "prelim \<Rightarrow> out" where
  "prelim_out (PIn v) = in_out v"
| "prelim_out (PAny a) = OAny a"
| "prelim_out (PMap m) = in_out (InMap m)"
| "prelim_out (PText s) = OYText [(OAny (AString s), None)]"
| "prelim_out (PXmlText s) = OYText [(OAny (AString s), None)]"

definition sample_yrs :: yrs where
  "sample_yrs = plain_yrs\<lparr>ytext_string :=
     (\<lambda>d. concat (map (\<lambda>(v, _). case out_string v of Some s \<Rightarrow> s | None \<Rightarrow> []) d))\<rparr>"

definition slot_of :: "prelim \<Rightarrow> nat slot" where
  "slot_of p = \<lparr>slot_out = prelim_out p, slot_id = 0\<rparr>"

fun item_diff :: "nat item \<Rightarrow> out \<times> run_attrs option" where
  "item_diff (IChar c) = (OAny (AString c), None)"
| "item_diff (IEmbed p) = (p, None)"
| "item_diff (IBlock i) = (OYXmlText (XmlText [] []), None)"

fun valid_item :: "nat item \<Rightarrow> bool" where
  "valid_item (IChar c) = (chars c = [c])"
| "valid_item (IEmbed p) = (case p of OAny (AString _) \<Rightarrow> False | OYXmlText _ \<Rightarrow> False | _ \<Rightarrow> True)"
| "valid_item (IBlock i) = True"

definition node_at :: "sample_doc \<Rightarrow> nat \<Rightarrow> (attr_list \<times> nat item list) option" where
  "node_at d t =
     (if t < length (sd_nodes d) \<and> list_all valid_item (snd (sd_nodes d ! t)) then Some (sd_nodes d ! t) else None)"

definition cut_at :: "nat \<Rightarrow> nat item list \<Rightarrow> nat" where
  "cut_at n is = cover (map item_units is) n"

definition edit_node ::
  "nat \<Rightarrow> (attr_list \<times> nat item list \<Rightarrow> attr_list \<times> nat item list) \<Rightarrow> sample_doc \<Rightarrow> sample_doc" where
  "edit_node t f d = d\<lparr>sd_nodes := (sd_nodes d)[t := f (sd_nodes d ! t)]\<rparr>"

definition put_items :: "nat \<Rightarrow> nat item list \<Rightarrow> nat item list \<Rightarrow> nat item list" where
  "put_items n new is = take (cut_at n is) is @ new @ drop (cut_at n is) is"

definition take_items :: "nat \<Rightarrow> nat \<Rightarrow> nat item list \<Rightarrow> nat item list" where
  "take_items n m is = take (cut_at n is) is @ drop (cut_at m (drop (cut_at n is) is)) (drop (cut_at n is) is)"

definition sample_embed :: "nat \<Rightarrow> nat \<Rightarrow> prelim \<Rightarrow> (sample_doc, nat) txn" where
  "sample_embed t n p d =
     (case p of
        PXmlText s \<Rightarrow>
          (let i = length (sd_nodes d); d' = edit_node t (map_prod id (put_items n [IBlock i])) d
           in (Inr i, d'\<lparr>sd_nodes := sd_nodes d' @ [([], map IChar (chars s))]\<rparr>))
      | _ \<Rightarrow> (Inr 0, edit_node t (map_prod id (put_items n [IEmbed (prelim_out p)])) d))"

definition sample_store :: "(sample_doc, nat) yrs_store" where
  "sample_store = \<lparr>
     array_at = (\<lambda>d _. Some (sd_array d)),
     ya_insert = (\<lambda>_ i p d. (Inr 0, d\<lparr>sd_array := take i (sd_array d) @ slot_of p # drop i (sd_array d)\<rparr>)),
     ya_remove = (\<lambda>_ i d. (Inr (), d\<lparr>sd_array := take i (sd_array d) @ drop (Suc i) (sd_array d)\<rparr>)),
     ya_remove_range = (\<lambda>_ i n d. (Inr (), d\<lparr>sd_array := take i (sd_array d) @ drop (i + n) (sd_array d)\<rparr>)),
     map_at = (\<lambda>d _. if distinct (map fst (sd_map d)) then Some (sd_map d) else None),
     ym_insert = (\<lambda>_ k p d. (Inr 0, d\<lparr>sd_map := AList.update k (slot_of p) (sd_map d)\<rparr>)),
     ym_remove = (\<lambda>_ k d. (Inr (), d\<lparr>sd_map := AList.delete k (sd_map d)\<rparr>)),
     ym_clear = (\<lambda>_ d. (Inr (), d\<lparr>sd_map := []\<rparr>)),
     text_at = (\<lambda>d t. map_option (\<lambda>(as, is). map item_diff is) (node_at d t)),
     xml_at = (\<lambda>d t. map_option (\<lambda>(as, is). XmlText as (map item_diff is)) (node_at d t)),
     block_ids = (\<lambda>d t. case node_at d t of Some (as, is) \<Rightarrow> item_blocks is | None \<Rightarrow> []),
     tx_len = (\<lambda>d t. case node_at d t of Some (as, is) \<Rightarrow> iunits is | None \<Rightarrow> 0),
     tx_string = (\<lambda>d t. []),
     tx_insert = (\<lambda>t n s d. (Inr (), edit_node t (map_prod id (put_items n (map IChar (chars s)))) d)),
     tx_remove_range = (\<lambda>t n m d. (Inr (), edit_node t (map_prod id (take_items n m)) d)),
     tx_insert_embed = sample_embed,
     tx_insert_attribute = (\<lambda>t k v d. (Inr (), edit_node t (map_prod (AList.update k (in_out v)) id) d)),
     sticky_index = (\<lambda>d t at assoc. Some \<lparr>pos_scope = Relative \<lparr>id_client = t, id_clock = at\<rparr>, pos_assoc = assoc\<rparr>),
     sticky_from_type = (\<lambda>d t assoc. \<lparr>pos_scope = Nested \<lparr>id_client = t, id_clock = 0\<rparr>, pos_assoc = assoc\<rparr>),
     get_offset = (\<lambda>d p. case pos_scope p of
         Relative i \<Rightarrow> Some (id_client i, id_clock i) | Nested i \<Rightarrow> Some (id_client i, 0) | Root _ \<Rightarrow> Some (0, 0)),
     get_or_insert = (\<lambda>_ _ d. (0, d)),
     root_id = (\<lambda>_. 0)\<rparr>"

section \<open>Arrays and maps\<close>

lemma rd_in_out: "rd_out_to_any sample_yrs (in_out v) = in_any v"
proof (induction v rule: in_out.induct)
  case (2 m)
  then have "map (\<lambda>(k, v). (k, rd_out_to_any sample_yrs v)) (map (\<lambda>(k, v). (k, in_out v)) m)
      = map (\<lambda>(k, v). (k, in_any v)) m"
    by (auto intro!: map_cong)
  then show ?case by (simp del: map_map)
qed simp

lemma rd_prelim_out: "rd_out_to_any sample_yrs (prelim_out p) = prelim_any p"
  by (cases p) (simp_all add: rd_in_out del: in_out.simps in_any.simps, simp_all add: sample_yrs_def)

lemma slot_of_reads: "same_any (rd_out_to_any sample_yrs (slot_out (slot_of p))) (prelim_any p)"
  by (simp add: slot_of_def rd_prelim_out same_any.scalar)

lemma slot_id_of [simp]: "slot_id (slot_of p) = 0"
  by (simp add: slot_of_def)

lemma sample_array_laws: "array_laws sample_yrs sample_store a"
proof -
  have "\<exists>x. 0 = slot_id x \<and> take i xs @ slot_of p # drop i xs = take i xs @ x # drop i xs
      \<and> same_any (rd_out_to_any sample_yrs (slot_out x)) (prelim_any p)" for i xs p
    by (intro exI [of _ "slot_of p"]) (simp add: slot_of_reads)
  then show ?thesis by (auto simp: array_laws_def sample_store_def)
qed

lemma sample_map_laws: "map_laws sample_yrs sample_store m"
proof -
  have "\<exists>x. 0 = slot_id x \<and> (map_of kvs)(k \<mapsto> slot_of p) = (map_of kvs)(k \<mapsto> x)
      \<and> same_any (rd_out_to_any sample_yrs (slot_out x)) (prelim_any p)" for k kvs p
    by (intro exI [of _ "slot_of p"]) (simp add: slot_of_reads)
  then show ?thesis
    by (auto simp: map_laws_def sample_store_def distinct_update update_conv' distinct_delete delete_conv'
        split: if_splits)
qed

section \<open>Nodes\<close>

fun item_cell :: "nat item \<Rightarrow> cell" where
  "item_cell (IChar c) = CChar c"
| "item_cell (IEmbed p) = CPiece p"
| "item_cell (IBlock i) = CPiece (OYXmlText (XmlText [] []))"

lemma char_is_char: "c \<in> set (chars s) \<Longrightarrow> chars c = [c]"
proof (induction s rule: chars.induct)
  case (2 b bs)
  have "chars (b # takeWhile is_cont_byte bs) = [b # takeWhile is_cont_byte bs]"
  proof -
    have "takeWhile is_cont_byte (takeWhile is_cont_byte bs) = takeWhile is_cont_byte bs"
      "dropWhile is_cont_byte (takeWhile is_cont_byte bs) = []"
      by (simp_all add: takeWhile_eq_all_conv dropWhile_eq_Nil_conv) (auto dest: set_takeWhileD)
    then show ?thesis by (simp only: chars.simps)
  qed
  with 2 show ?case by auto
qed simp

lemma valid_chars: "list_all valid_item (map IChar (chars s))"
  by (auto simp: list_all_iff char_is_char)

lemma cells_of_items: "list_all valid_item is \<Longrightarrow> seq_cells (map item_diff is) = map item_cell is"
proof (induction "is")
  case (Cons i "is")
  then show ?case
    by (cases i) (auto simp: seq_cells_def pieces_def piece_cell_list_def split: out.splits any.splits)
qed (simp add: seq_cells_def pieces_def)

lemma weave_items: "list_all valid_item is \<Longrightarrow> weave (map item_cell is) (item_blocks is) = is"
proof (induction "is")
  case (Cons i "is")
  show ?case
  proof (cases i)
    case (IEmbed p)
    with Cons.prems have "\<forall>x. p \<noteq> OYXmlText x" by auto
    with IEmbed Cons show ?thesis by (simp add: weave_other)
  qed (use Cons in auto)
qed simp

lemma units_of_items: "units_of (map item_cell is) = iunits is"
proof -
  have "cell_units (item_cell i) = item_units i" for i by (cases i) auto
  then show ?thesis by (simp add: units_of_def iunits_def comp_def)
qed

lemma node_sample: "node sample_store d t = node_at d t"
  by (auto simp: node_def sample_store_def node_at_def cells_of_items weave_items split: prod.split option.split)

lemma cut_prefix: "cut_at (iunits pre) (pre @ post) = length pre"
proof -
  have "0 < item_units i" for i :: "nat item" by (cases i) (simp_all add: len_utf16_def)
  then have "\<forall>w \<in> set (map item_units (pre @ post)). 0 < w" by auto
  from cover_prefix [OF this, of "length pre"] show ?thesis by (simp add: cut_at_def iunits_def)
qed

lemma put_items_prefix: "put_items (iunits pre) new (pre @ post) = pre @ new @ post"
  by (simp add: put_items_def cut_prefix)

lemma take_items_prefix: "take_items (iunits pre) (iunits mid) (pre @ mid @ post) = pre @ post"
  by (simp add: take_items_def cut_prefix)

lemma node_edit:
  assumes "node_at d t = Some (as, is)" and "list_all valid_item (snd (f (as, is)))"
  shows "node_at (edit_node t f d) t = Some (f (as, is))" "u \<noteq> t \<Longrightarrow> node_at (edit_node t f d) u = node_at d u"
  using assms by (auto simp: node_at_def edit_node_def split: if_splits)

lemma node_at_valid: "node_at d t = Some (as, is) \<Longrightarrow> list_all valid_item is"
  by (auto simp: node_at_def split: if_splits)

lemma prelim_map_valid: "valid_item (IEmbed (prelim_out (PMap m)))"
  by simp

lemma sample_view: "view_laws sample_store"
proof -
  have "length (item_blocks is) = length (xml_texts_of (pieces (map item_diff is)))
      \<and> OAny (AString []) \<notin> set (pieces (map item_diff is))" if "list_all valid_item is" for "is"
    using that
  proof (induction "is")
    case (Cons i "is")
    then show ?case by (cases i) (auto simp: pieces_def split: out.splits any.splits)
  qed (simp add: pieces_def)
  then show ?thesis
    using node_at_valid
    by (fastforce simp: view_laws_def sample_store_def embedded_xml_texts_def cells_of_items units_of_items)
qed

lemma sample_insert: "insert_law sample_store"
  unfolding insert_law_def unchanged_but_def node_sample
proof (intro allI impI)
  fix d t as pre post s assume nd: "node_at d t = Some (as, pre @ post)"
  let ?f = "map_prod id (put_items (iunits pre) (map IChar (chars s)))"
  have "list_all valid_item (snd (?f (as, pre @ post)))"
    using node_at_valid [OF nd] valid_chars by (simp add: put_items_prefix)
  from node_edit [where f = ?f, OF nd this] show "\<exists>d'. tx_insert sample_store t (iunits pre) s d = (Inr (), d')
      \<and> node_at d' t = Some (as, pre @ map IChar (chars s) @ post) \<and> (\<forall>u. u \<notin> {t} \<longrightarrow> node_at d' u = node_at d u)"
    by (simp add: sample_store_def put_items_prefix)
qed

lemma sample_remove: "remove_law sample_store"
  unfolding remove_law_def node_sample
proof (intro allI impI)
  fix d t as and pre mid post :: "nat item list" assume nd: "node_at d t = Some (as, pre @ mid @ post)"
  let ?f = "map_prod id (take_items (iunits pre) (iunits mid))"
  have "list_all valid_item (snd (?f (as, pre @ mid @ post)))"
    using node_at_valid [OF nd] by (simp add: take_items_prefix)
  from node_edit(1) [where f = ?f, OF nd this] show "\<exists>d'. tx_remove_range sample_store t (iunits pre) (iunits mid) d = (Inr (), d')
      \<and> node_at d' t = Some (as, pre @ post)"
    by (simp add: sample_store_def take_items_prefix)
qed

lemma sample_attribute: "attribute_law sample_yrs sample_store"
  unfolding attribute_law_def unchanged_but_def node_sample
proof (intro allI impI)
  fix d t as "is" v and k :: string assume nd: "node_at d t = Some (as, is)"
  let ?f = "map_prod (AList.update k (in_out v)) id"
  have "list_all valid_item (snd (?f (as, is)))" using node_at_valid [OF nd] by simp
  from node_edit [where f = ?f, OF nd this] show "\<exists>d' as' p. tx_insert_attribute sample_store t k v d = (Inr (), d')
      \<and> node_at d' t = Some (as', is) \<and> map_of as' = (map_of as)(k \<mapsto> p)
      \<and> same_any (rd_out_to_any sample_yrs p) (in_any v) \<and> (\<forall>u. u \<notin> {t} \<longrightarrow> node_at d' u = node_at d u)"
    by (auto simp: sample_store_def update_conv' rd_in_out same_any.scalar intro!: exI [of _ "in_out v"])
qed

lemma sample_embeds: "embed_law sample_yrs sample_store"
  unfolding embed_law_def unchanged_but_def node_sample
proof (intro allI impI)
  fix d t as pre post m assume nd: "node_at d t = Some (as, pre @ post)"
  let ?c = "prelim_out (PMap m)"
  let ?f = "map_prod id (put_items (iunits pre) [IEmbed ?c])"
  have "list_all valid_item (snd (?f (as, pre @ post)))"
    using node_at_valid [OF nd] by (simp add: put_items_prefix)
  from node_edit [where f = ?f, OF nd this] have e: "node_at (edit_node t ?f d) t = Some (as, pre @ IEmbed ?c # post)"
    "\<forall>u. u \<notin> {t} \<longrightarrow> node_at (edit_node t ?f d) u = node_at d u"
    by (simp_all add: put_items_prefix)
  have "same_any (rd_out_to_any sample_yrs ?c) (in_any (InMap m))"
    using rd_prelim_out [of "PMap m"] by (simp add: same_any.scalar)
  with e show "\<exists>d' c i. tx_insert_embed sample_store t (iunits pre) (PMap m) d = (Inr i, d')
      \<and> node_at d' t = Some (as, pre @ IEmbed c # post) \<and> same_any (rd_out_to_any sample_yrs c) (in_any (InMap m))
      \<and> (\<forall>u. u \<notin> {t} \<longrightarrow> node_at d' u = node_at d u)"
    by (intro exI [of _ "edit_node t ?f d"] exI [of _ ?c] exI [of _ 0]) (simp add: sample_store_def sample_embed_def)
qed

lemma sample_block: "block_law sample_store"
  unfolding block_law_def unchanged_but_def node_sample
proof (intro allI impI)
  fix d t as pre post assume nd: "node_at d t = Some (as, pre @ post)"
  let ?c = "length (sd_nodes d)"
  let ?f = "map_prod id (put_items (iunits pre) [IBlock ?c])"
  let ?d = "edit_node t ?f d" let ?d' = "?d\<lparr>sd_nodes := sd_nodes ?d @ [([], [])]\<rparr>"
  have "list_all valid_item (snd (?f (as, pre @ post)))"
    using node_at_valid [OF nd] by (simp add: put_items_prefix)
  note e = node_edit [where f = ?f, OF nd this]
  have len: "length (sd_nodes ?d) = ?c" by (simp add: edit_node_def)
  have old: "node_at ?d' u = node_at ?d u" if "u \<noteq> ?c" for u
    using that len by (simp add: node_at_def nth_append)
  have "t \<noteq> ?c" using nd by (auto simp: node_at_def split: if_splits)
  then have "node_at ?d' t = Some (as, pre @ IBlock ?c # post)" using e(1) old by (simp add: put_items_prefix)
  moreover have "node_at ?d' ?c = Some ([], [])" using len by (simp add: node_at_def nth_append)
  moreover have "node_at d ?c = None" by (simp add: node_at_def)
  ultimately show "\<exists>d' c. tx_insert_embed sample_store t (iunits pre) (PXmlText []) d = (Inr c, d') \<and> node_at d c = None
      \<and> node_at d' t = Some (as, pre @ IBlock c # post) \<and> node_at d' c = Some ([], [])
      \<and> (\<forall>u. u \<notin> {t, c} \<longrightarrow> node_at d' u = node_at d u)"
    using old e(2) by (intro exI [of _ ?d'] exI [of _ ?c]) (simp add: sample_store_def sample_embed_def Let_def)
qed

lemma sample_tree_laws: "tree_laws sample_yrs sample_store"
  by (simp add: tree_laws_def sample_view sample_insert sample_remove sample_attribute sample_embeds sample_block)

section \<open>Texts\<close>

lemma item_cell_append:
  "map item_cell is = pre @ post \<Longrightarrow> \<exists>p q. is = p @ q \<and> map item_cell p = pre \<and> map item_cell q = post"
  by (metis map_eq_append_conv)

lemma look_cells:
  assumes "xml_look sample_store t d = Some seq"
  obtains as "is" where "node_at d t = Some (as, is)" "seq = map item_diff is" "seq_cells seq = map item_cell is"
  using assms node_at_valid by (fastforce simp: sample_store_def cells_of_items)

lemma look_node: "node_at d t = Some (as, is) \<Longrightarrow> xml_look sample_store t d = Some (map item_diff is)"
  by (simp add: sample_store_def)

lemma sample_text_laws: "text_laws sample_store (xml_look sample_store t) t"
  unfolding text_laws_def
proof (intro conjI allI impI)
  fix d seq assume "xml_look sample_store t d = Some seq"
  then show "tx_len sample_store d t = units_of (seq_cells seq)"
    by (rule look_cells) (simp add: sample_store_def units_of_items)
next
  fix d seq pre post s assume seq: "xml_look sample_store t d = Some seq" "seq_cells seq = pre @ post"
  then obtain as p q where nd: "node_at d t = Some (as, p @ q)" "map item_cell p = pre" "map item_cell q = post"
    by (metis look_cells item_cell_append)
  obtain d' where d': "tx_insert sample_store t (iunits p) s d = (Inr (), d')"
    "node_at d' t = Some (as, p @ map IChar (chars s) @ q)"
    using sample_insert nd(1) unfolding insert_law_def node_sample by blast
  have "seq_cells (map item_diff (p @ map IChar (chars s) @ q)) = pre @ map CChar (chars s) @ post"
    using cells_of_items [OF node_at_valid [OF d'(2)]] nd by (simp add: comp_def)
  with d' nd(2) look_node [OF d'(2)] show "\<exists>d' seq'. tx_insert sample_store t (units_of pre) s d = (Inr (), d')
      \<and> xml_look sample_store t d' = Some seq' \<and> seq_cells seq' = pre @ map CChar (chars s) @ post"
    by (metis units_of_items)
next
  fix d seq pre mid post assume seq: "xml_look sample_store t d = Some seq" "seq_cells seq = pre @ mid @ post" and ne: "mid \<noteq> []"
  then obtain as p m q where nd: "node_at d t = Some (as, p @ m @ q)" "map item_cell p = pre" "map item_cell m = mid"
    "map item_cell q = post"
    by (metis look_cells item_cell_append)
  have "m \<noteq> []" using ne nd(3) by auto
  then obtain d' where d': "tx_remove_range sample_store t (iunits p) (iunits m) d = (Inr (), d')"
    "node_at d' t = Some (as, p @ q)"
    using sample_remove nd(1) unfolding remove_law_def node_sample by blast
  have "seq_cells (map item_diff (p @ q)) = pre @ post"
    using cells_of_items [OF node_at_valid [OF d'(2)]] nd by simp
  with d' nd look_node [OF d'(2)] show "\<exists>d' seq'. tx_remove_range sample_store t (units_of pre) (units_of mid) d = (Inr (), d')
      \<and> xml_look sample_store t d' = Some seq' \<and> seq_cells seq' = pre @ post"
    by (metis units_of_items)
qed

lemma text_at_sample: "(\<lambda>d. text_at sample_store d t) = xml_look sample_store t"
  by (auto simp: sample_store_def fun_eq_iff option.map_comp intro!: option.map_cong)

end
