(* ===== verification/Presence.thy ===== *)
theory Presence
  imports DocSync RubyBindings "HOL-Library.Word"
begin

text \<open>
  The presence handle of \<open>src/ext/yrby/src/lib.rs\<close> (\<open>RbAwareness\<close>): one definition per method,
  prefixed \<open>aw_\<close>.  yrs's \<open>Awareness\<close> is a parameter, its operations are fields of \<open>yrs_awareness\<close>;
  an \<open>AwarenessUpdate\<close> is concrete, since \<open>clear_local_state\<close> builds one: client, clock and JSON.
  Clocks are \<open>u32\<close>, and the addition of \<open>clear_local_state\<close> wraps, as in a release build.

  The lemmas: the frame that clears a presence is one well-formed message that routes as
  presence, and a peer that follows the awareness protocol drops the client and keeps it dropped.
\<close>

type_synonym aw_entries = "(nat \<times> 32 word \<times> string) list"

text \<open>\<open>iter\<close> yields a client, its clock and its data.\<close>

record 'a yrs_awareness =
  ya_new :: "nat option \<Rightarrow> 'a"
  ya_client :: "'a \<Rightarrow> nat"
  ya_iter :: "'a \<Rightarrow> (nat \<times> 32 word \<times> string option) list"
  ya_set_local :: "'a \<Rightarrow> json \<Rightarrow> (string + unit) \<times> 'a"
  ya_clean_local :: "'a \<Rightarrow> 'a"
  ya_update :: "'a \<Rightarrow> string + aw_entries"
  ya_apply :: "'a \<Rightarrow> aw_entries \<Rightarrow> (string + unit) \<times> 'a"

definition aw_new ::
  "(rvalue \<Rightarrow> int option) \<Rightarrow> 'a yrs_awareness \<Rightarrow> rvalue list \<Rightarrow> bind_error + 'a" where
  "aw_new to_int aw args =
     (case args of
        [] \<Rightarrow> Inr (ya_new aw None)
      | RNil # _ \<Rightarrow> Inr (ya_new aw None)
      | arg # _ \<Rightarrow> map_sum id (\<lambda>n. ya_new aw (Some (nat n))) (try_int to_int 0 (2 ^ 64 - 1) arg))"

definition aw_client_id :: "'a yrs_awareness \<Rightarrow> 'a \<Rightarrow> nat" where
  "aw_client_id aw a = ya_client aw a"

definition aw_frame ::
  "('doc, 'upd, 'sv, aw_entries) yrs_sync \<Rightarrow> 'a yrs_awareness \<Rightarrow> 'a \<Rightarrow> string + bytes" where
  "aw_frame c aw a = bind_sum (ya_update aw a) (\<lambda>update. Inr (encode_message c (MAwareness update)))"

definition aw_set_local_state ::
  "('doc, 'upd, 'sv, aw_entries) yrs_sync \<Rightarrow> 'a yrs_awareness \<Rightarrow> (string \<Rightarrow> string + json) \<Rightarrow> string \<Rightarrow> 'a
     \<Rightarrow> (string + bytes) \<times> 'a" where
  "aw_set_local_state c aw from_str js a =
     (case from_str js of
        Inl e \<Rightarrow> (Inl (''Y::Awareness state must be JSON: '' @ e), a)
      | Inr value \<Rightarrow>
          (case ya_set_local aw a value of
             (Inl e, a') \<Rightarrow> (Inl e, a')
           | (Inr _, a') \<Rightarrow> (aw_frame c aw a', a')))"

definition own_clock :: "'a yrs_awareness \<Rightarrow> 'a \<Rightarrow> 32 word" where
  "own_clock aw a =
     (case List.find (\<lambda>(client, _). client = ya_client aw a) (ya_iter aw a) of
        Some (_, clock, _) \<Rightarrow> clock
      | None \<Rightarrow> 0)"

definition aw_clear_local_state ::
  "('doc, 'upd, 'sv, aw_entries) yrs_sync \<Rightarrow> 'a yrs_awareness \<Rightarrow> 'a \<Rightarrow> (string + bytes) \<times> 'a" where
  "aw_clear_local_state c aw a =
     (let i = ya_client aw a; clock = own_clock aw a; a' = ya_clean_local aw a
      in (Inr (encode_message c (MAwareness [(i, clock + 1, ''null'')])), a'))"

definition aw_apply_update ::
  "('doc, 'upd, 'sv, aw_entries) yrs_sync \<Rightarrow> 'a yrs_awareness \<Rightarrow> bytes \<Rightarrow> 'a \<Rightarrow> (string + bool) \<times> 'a" where
  "aw_apply_update c aw frame a =
     (case decode_message c frame of
        Inl e \<Rightarrow> (Inl e, a)
      | Inr (MAwareness update, _) \<Rightarrow>
          (let (r, a') = ya_apply aw a update in (map_sum id (\<lambda>_. True) r, a'))
      | Inr _ \<Rightarrow> (Inr False, a))"

definition aw_clocks :: "'a yrs_awareness \<Rightarrow> 'a \<Rightarrow> rhash" where
  "aw_clocks aw a =
     foldl (\<lambda>out (client, clock, _). AList.update (RInteger (int client)) (RInteger (uint clock)) out) [] (ya_iter aw a)"

fun states_loop ::
  "(string \<Rightarrow> string + json) \<Rightarrow> (nat \<times> string option) list \<Rightarrow> rhash \<Rightarrow> string + rhash" where
  "states_loop from_str [] out = Inr out"
| "states_loop from_str ((i, data) # entries) out =
     bind_sum (case data of
         Some js \<Rightarrow> map_sum (\<lambda>e. ''presence state is not JSON: '' @ e) json_to_ruby (from_str js)
       | None \<Rightarrow> Inr RNil) (\<lambda>value.
     states_loop from_str entries (AList.update (RInteger (int i)) value out))"

definition aw_states :: "'a yrs_awareness \<Rightarrow> (string \<Rightarrow> string + json) \<Rightarrow> 'a \<Rightarrow> string + rhash" where
  "aw_states aw from_str a =
     states_loop from_str (map (\<lambda>(i, _, data). (i, data)) (ya_iter aw a)) []"

section \<open>A cleared presence reaches the peers\<close>

definition client_entry :: "'a yrs_awareness \<Rightarrow> 'a \<Rightarrow> nat \<Rightarrow> (32 word \<times> string option) option" where
  "client_entry aw a i = map_of (ya_iter aw a) i"

definition client_state :: "'a yrs_awareness \<Rightarrow> 'a \<Rightarrow> nat \<Rightarrow> string option" where
  "client_state aw a i = Option.bind (client_entry aw a i) snd"

text \<open>What the awareness protocol makes of one client's entry when an update has one for it: a higher
  clock wins, and so does a null state at the same clock; an older entry is ignored.  A null state
  for an unknown client may be recorded or not.\<close>

fun entry_merges ::
  "(32 word \<times> string option) option \<Rightarrow> (32 word \<times> string) option \<Rightarrow> (32 word \<times> string option) option \<Rightarrow> bool" where
  "entry_merges old None now = (now = old)"
| "entry_merges None (Some (k, js)) now =
     (now = Some (k, if js = ''null'' then None else Some js) \<or> js = ''null'' \<and> now = None)"
| "entry_merges (Some (k', data)) (Some (k, js)) now =
     (now = (if k' < k \<or> k' = k \<and> js = ''null'' \<and> data \<noteq> None
             then Some (k, if js = ''null'' then None else Some js)
             else Some (k', data)))"

text \<open>Every client of an update is merged that way except the receiver's own, whose state no update
  removes: about that entry nothing is assumed.\<close>

definition presence_law :: "'a yrs_awareness \<Rightarrow> bool" where
  "presence_law aw \<longleftrightarrow>
     (\<forall>b es. distinct (map fst es) \<longrightarrow>
        (\<exists>b'. ya_apply aw b es = (Inr (), b') \<and> ya_client aw b' = ya_client aw b
           \<and> (\<forall>i. i \<noteq> ya_client aw b \<longrightarrow> entry_merges (client_entry aw b i) (map_of es i) (client_entry aw b' i))))"

lemma word_succ_less:
  fixes c :: "32 word"
  assumes "k \<le> c" and "c \<noteq> - 1"
  shows "k < c + 1"
proof -
  have "1 + c \<noteq> 0" using assms(2) by (metis add_eq_0_iff)
  then have "unat (1 + c) = Suc (unat c)" by (rule unatSuc)
  with assms(1) show ?thesis by (simp add: word_less_nat_alt word_le_nat_alt add.commute)
qed

text \<open>An awareness message decodes to itself.\<close>

definition aw_frame_law :: "('doc, 'upd, 'sv, aw_entries) yrs_sync \<Rightarrow> bool" where
  "aw_frame_law c \<longleftrightarrow> (\<forall>u. decode_message c (encode_message c (MAwareness u)) = Inr (MAwareness u, []))"

lemma clear_frame:
  assumes "aw_frame_law c"
  shows "\<exists>frame. aw_clear_local_state c aw a = (Inr frame, ya_clean_local aw a)
    \<and> decode_message c frame = Inr (MAwareness [(ya_client aw a, own_clock aw a + 1, ''null'')], [])
    \<and> classify_message c frame = 3"
  using assms by (auto simp: aw_frame_law_def aw_clear_local_state_def classify_message_def Let_def)

lemma apply_frame:
  assumes "aw_frame_law c" and "presence_law aw" and "distinct (map fst es)"
  obtains b' where "aw_apply_update c aw (encode_message c (MAwareness es)) b = (Inr True, b')"
    "ya_client aw b' = ya_client aw b"
    "\<And>i. i \<noteq> ya_client aw b \<Longrightarrow> entry_merges (client_entry aw b i) (map_of es i) (client_entry aw b' i)"
proof -
  obtain b' where "ya_apply aw b es = (Inr (), b')" "ya_client aw b' = ya_client aw b"
    "\<forall>i. i \<noteq> ya_client aw b \<longrightarrow> entry_merges (client_entry aw b i) (map_of es i) (client_entry aw b' i)"
    using assms(2,3) unfolding presence_law_def by blast
  with that [of b'] show ?thesis using assms(1) by (simp add: aw_frame_law_def aw_apply_update_def)
qed

lemma clear_reaches_peer:
  assumes frames: "aw_frame_law c" and law: "presence_law aw" and max: "own_clock aw a \<noteq> - 1"
    and other: "ya_client aw b \<noteq> ya_client aw a"
    and peer: "\<forall>k data. client_entry aw b (ya_client aw a) = Some (k, data) \<longrightarrow> k \<le> own_clock aw a"
  shows "\<exists>frame b'. fst (aw_clear_local_state c aw a) = Inr frame \<and> message_kind c None frame = Inr 3
    \<and> aw_apply_update c aw frame b = (Inr True, b') \<and> ya_client aw b' = ya_client aw b
    \<and> client_entry aw b' (ya_client aw a) \<in> {None, Some (own_clock aw a + 1, None)}
    \<and> (client_entry aw b (ya_client aw a) \<noteq> None \<longrightarrow> client_entry aw b' (ya_client aw a) \<noteq> None)
    \<and> (\<forall>i. i \<notin> {ya_client aw a, ya_client aw b} \<longrightarrow> client_entry aw b' i = client_entry aw b i)"
proof -
  let ?i = "ya_client aw a" and ?es = "[(ya_client aw a, own_clock aw a + 1, ''null'')]"
  have frame: "fst (aw_clear_local_state c aw a) = Inr (encode_message c (MAwareness ?es))"
    by (simp add: aw_clear_local_state_def Let_def)
  have kind: "message_kind c None (encode_message c (MAwareness ?es)) = Inr 3"
    using frames by (simp add: aw_frame_law_def message_kind_def classify_message_def nogvl_def)
  obtain b' where b': "aw_apply_update c aw (encode_message c (MAwareness ?es)) b = (Inr True, b')"
    "ya_client aw b' = ya_client aw b"
    "\<And>i. i \<noteq> ya_client aw b \<Longrightarrow> entry_merges (client_entry aw b i) (map_of ?es i) (client_entry aw b' i)"
    using apply_frame [OF frames law, of ?es b] by auto
  have "client_entry aw b' ?i \<in> {None, Some (own_clock aw a + 1, None)}
      \<and> (client_entry aw b ?i \<noteq> None \<longrightarrow> client_entry aw b' ?i \<noteq> None)"
  proof (cases "client_entry aw b ?i")
    case None
    with b'(3) [of ?i] other show ?thesis by auto
  next
    case (Some e)
    obtain k data where e: "e = (k, data)" by (cases e)
    have "k < own_clock aw a + 1" using peer Some e word_succ_less [OF _ max] by simp
    with b'(3) [of ?i] other Some e show ?thesis by auto
  qed
  moreover have "client_entry aw b' i = client_entry aw b i" if "i \<notin> {?i, ya_client aw b}" for i
    using b'(3) [of i] that by simp
  ultimately show ?thesis using frame kind b'(1,2) by blast
qed

text \<open>A removed entry stays removed under older updates.\<close>

lemma late_frame_ignored:
  assumes "aw_frame_law c" and "presence_law aw" and "distinct (map fst es)" and "i \<noteq> ya_client aw b"
    and "client_entry aw b i = Some (k, None)" and "\<And>k' js. map_of es i = Some (k', js) \<Longrightarrow> k' \<le> k"
  shows "client_state aw (snd (aw_apply_update c aw (encode_message c (MAwareness es)) b)) i = None"
proof -
  obtain b' where b': "aw_apply_update c aw (encode_message c (MAwareness es)) b = (Inr True, b')"
    "entry_merges (client_entry aw b i) (map_of es i) (client_entry aw b' i)"
    using apply_frame [OF assms(1-3)] assms(4) by metis
  then show ?thesis
    using assms(5,6) by (cases "map_of es i") (auto simp: client_state_def not_less [symmetric])
qed

section \<open>A presence to apply the lemmas to\<close>

text \<open>A client and the entries it keeps, applied as the awareness protocol says; a removal of the
  client's own state makes it renew the state.\<close>

definition sample_merge ::
  "nat \<Rightarrow> (nat \<times> 32 word \<times> string option) list \<Rightarrow> nat \<times> 32 word \<times> string
     \<Rightarrow> (nat \<times> 32 word \<times> string option) list" where
  "sample_merge own entries e =
     (case e of (i, k, js) \<Rightarrow>
        (let new = AList.update i (k, if js = ''null'' then None else Some js) entries
         in case map_of entries i of
              None \<Rightarrow> new
            | Some (k', data) \<Rightarrow>
                if k' < k \<or> k' = k \<and> js = ''null'' \<and> data \<noteq> None
                then if i = own \<and> js = ''null'' \<and> data \<noteq> None then AList.update i (k + 1, data) entries else new
                else entries))"

definition sample_apply ::
  "nat \<times> (nat \<times> 32 word \<times> string option) list \<Rightarrow> aw_entries
     \<Rightarrow> (string + unit) \<times> nat \<times> (nat \<times> 32 word \<times> string option) list" where
  "sample_apply a es = (Inr (), fst a, foldl (sample_merge (fst a)) (snd a) es)"

definition sample_awareness :: "(nat \<times> (nat \<times> 32 word \<times> string option) list) yrs_awareness" where
  "sample_awareness = \<lparr>
     ya_new = (\<lambda>client. (case client of Some i \<Rightarrow> i | None \<Rightarrow> 0, [])),
     ya_client = fst, ya_iter = snd,
     ya_set_local = (\<lambda>a _. (Inr (), a)),
     ya_clean_local = (\<lambda>(i, entries). (i, filter (\<lambda>(j, _). j \<noteq> i) entries)),
     ya_update = (\<lambda>a. Inr []),
     ya_apply = sample_apply\<rparr>"

lemma sample_merge_other: "fst e \<noteq> i \<Longrightarrow> map_of (sample_merge own entries e) i = map_of entries i"
  by (cases e) (auto simp: sample_merge_def update_conv' Let_def split: option.split)

lemma sample_merge_entry:
  "i \<noteq> own \<Longrightarrow> entry_merges (map_of entries i) (Some (k, js)) (map_of (sample_merge own entries (i, k, js)) i)"
  by (auto simp: sample_merge_def update_conv' Let_def split: option.split)

lemma sample_fold_other: "i \<notin> fst ` set es \<Longrightarrow> map_of (foldl (sample_merge own) entries es) i = map_of entries i"
  by (induction es arbitrary: entries) (auto simp: sample_merge_other)

lemma sample_fold:
  "distinct (map fst es) \<Longrightarrow> i \<noteq> own \<Longrightarrow>
    entry_merges (map_of entries i) (map_of es i) (map_of (foldl (sample_merge own) entries es) i)"
proof (induction es arbitrary: entries)
  case (Cons e es)
  obtain j k js where e: "e = (j, k, js)" by (cases e)
  show ?case
  proof (cases "j = i")
    case True
    have "map_of (foldl (sample_merge own) (sample_merge own entries e) es) i = map_of (sample_merge own entries e) i"
      using Cons.prems(1) e True by (intro sample_fold_other) auto
    with True e Cons.prems(2) sample_merge_entry [of i own entries k js] show ?thesis by simp
  next
    case False
    with e Cons.IH [of "sample_merge own entries e"] Cons.prems sample_merge_other [of e i own entries] show ?thesis by simp
  qed
qed simp

lemma sample_presence: "presence_law sample_awareness"
  unfolding presence_law_def
proof (intro allI impI)
  fix b :: "nat \<times> (nat \<times> 32 word \<times> string option) list" and es :: aw_entries
  assume "distinct (map fst es)"
  from sample_fold [OF this, of _ "fst b" "snd b"]
  show "\<exists>b'. ya_apply sample_awareness b es = (Inr (), b') \<and> ya_client sample_awareness b' = ya_client sample_awareness b
      \<and> (\<forall>i. i \<noteq> ya_client sample_awareness b \<longrightarrow>
          entry_merges (client_entry sample_awareness b i) (map_of es i) (client_entry sample_awareness b' i))"
    by (simp add: sample_awareness_def sample_apply_def client_entry_def)
qed

text \<open>A codec for presence messages alone.\<close>

definition encode_entry :: "nat \<times> 32 word \<times> string \<Rightarrow> bytes" where
  "encode_entry e = (case e of (i, k, js) \<Rightarrow> [i, unat k, length js] @ map of_char js)"

fun decode_entries :: "nat \<Rightarrow> bytes \<Rightarrow> aw_entries \<times> bytes" where
  "decode_entries (Suc n) (i # k # len # bs) =
     (let (es, rest) = decode_entries n (drop len bs)
      in ((i, of_nat k, map char_of (take len bs)) # es, rest))"
| "decode_entries _ bs = ([], bs)"

definition presence_sync :: "(unit, unit, unit, aw_entries) yrs_sync" where
  "presence_sync =
     \<lparr>decode_update = (\<lambda>_. Inr ()), upd_state_vector = id, upd_state_vector_lower = id,
      upd_delete_set_empty = (\<lambda>_. True), upd_insertions = (\<lambda>_. []), sv_default = (), sv_is_empty = (\<lambda>_. True),
      sv_get = (\<lambda>_ _. 0), sv_ge = (\<lambda>_ _. True), decode_sv = (\<lambda>_. Inr ()), encode_sv = (\<lambda>_. []), doc_new = (),
      doc_state_vector = id, encode_state_as_update = (\<lambda>_ _. []), doc_apply_update = (\<lambda>d _. Inr d),
      apply_leaves = (\<lambda>d _. d), pending_update = (\<lambda>_. False), pending_ds = (\<lambda>_. False), prune_pending = id,
      merge_updates_v1 = (\<lambda>us. Inr (concat us)),
      decode_message = (\<lambda>bs. case bs of
          n # rest \<Rightarrow> (let (es, left) = decode_entries n rest in Inr (MAwareness es, left)) | [] \<Rightarrow> Inl ''end of buffer''),
      read_messages = (\<lambda>_. []),
      encode_message = (\<lambda>m. case m of MAwareness es \<Rightarrow> length es # concat (map encode_entry es) | _ \<Rightarrow> [])\<rparr>"

lemma decode_encode_entries: "decode_entries (length es) (concat (map encode_entry es)) = (es, [])"
  by (induction es) (auto simp: encode_entry_def comp_def)

lemma presence_frames: "aw_frame_law presence_sync"
  by (simp add: aw_frame_law_def presence_sync_def decode_encode_entries)

end
