(* ===== verification/HandleProps.thy ===== *)
theory HandleProps
  imports HandleCalls SampleStore Presence
begin

text \<open>
  The properties of the live handles, of finding blocks and of presence, with an example for each
  that has hypotheses: \<open>sample_store\<close> is the store the examples use.
\<close>

section \<open>Examples\<close>

text \<open>A root (node 0) with the block node 1 in it; the block holds a marker and three characters,
  the second of two UTF-16 units.\<close>

definition sample_items :: "nat item list" where
  "sample_items = [IEmbed (OYMap []), IChar ''a'', IChar (map char_of [240, 159, 152, 128 :: nat]), IChar ''b'']"

definition sample_rb :: "sample_doc rb_doc" where
  "sample_rb =
     \<lparr>ydoc = \<lparr>sd_nodes = [([], [IBlock 1]), ([], sample_items)], sd_array = [], sd_map = []\<rparr>, unsent = []\<rparr>"

definition sample_conversions :: conversions where
  "sample_conversions = \<lparr>conv_to_s = (\<lambda>_. Inr ''object''), conv_to_hash = (\<lambda>_. None), conv_to_ary = (\<lambda>_. None)\<rparr>"

lemma sample_node0: "node_at (ydoc sample_rb) 0 = Some ([], [IBlock 1])"
  by (simp add: sample_rb_def node_at_def)

lemma sample_node1: "node_at (ydoc sample_rb) 1 = Some ([], sample_items)"
  by (simp add: sample_rb_def node_at_def sample_items_def is_cont_byte_def)

section \<open>Handles refine Ruby's collections\<close>

text \<open>C10. A \<open>Y::Array\<close> handle is Ruby's Array wherever Ruby's is in range: after any sequence of \<open>push\<close>,
  \<open>insert\<close>, \<open>insert_text\<close>, \<open>[]=\<close>, \<open>delete_at\<close> and \<open>clear\<close>, with positive and negative indexes, values that
  do not convert, and calls that an interrupt follows, it reads as the list the same calls make of a
  Ruby Array, \<open>size\<close> is that list's, and \<open>[]\<close>, \<open>delete_at\<close> and \<open>[]=\<close> return what Ruby's do.  Out of range
  it differs, and exactly so: \<open>insert\<close> goes to the nearer end (Ruby pads with nil or raises an
  \<open>IndexError\<close>) and \<open>[]=\<close> raises a \<open>Y::Error\<close> and changes nothing (Ruby pads or raises).\<close>

theorem array_handle_refines:
  assumes "array_laws y st a" and "reads_as y st a (ydoc rb) vs"
    and "rb' = foldl (array_run to_s y st tu a) rb calls"
    and "vs' = foldl (\<lambda>vs (intr, call). array_spec to_s vs call) vs calls"
  shows "\<exists>ws. ra_snapshot y st None a rb' = Inr ws \<and> list_all2 same_any ws vs' \<and> ra_size st None a rb' = Inr (length vs')
    \<and> (\<forall>i. ra_get y st None a i rb' = Inr (any_or_nil (ruby_at i ws))
         \<and> fst (ra_delete_at y st tu None a i rb') = Inr (any_or_nil (ruby_at i ws))
         \<and> (\<forall>v iv. ruby_to_invalue to_s v = Inr iv \<longrightarrow> fst (ra_set to_s st tu None a i v rb')
              = (if ruby_at i ws = None then Inl (YErr ''index out of range'') else Inr v)))"
proof -
  have r: "reads_as y st a (ydoc rb') vs'"
    unfolding assms(3,4) using assms(2)
  proof (induction calls arbitrary: rb vs)
    case (Cons c calls)
    obtain intr call where c: "c = (intr, call)" by force
    from array_run_reads [OF assms(1) Cons.prems] show ?case by (simp add: c) (rule Cons.IH)
  qed simp
  then obtain xs where xs: "array_at st (ydoc rb') a = Some xs" "list_all2 (\<lambda>x v. same_any (rd_out_to_any y (slot_out x)) v) xs vs'"
    by (auto simp: reads_as_def)
  then obtain ws where ws: "ra_snapshot y st None a rb' = Inr ws" "list_all2 same_any ws vs'" "ra_size st None a rb' = Inr (length vs')"
    by (auto simp: ra_snapshot_def ra_size_def nogvl_read_def nogvl_def list_all2_map1 dest: list_all2_lengthD)
  with ra_results [OF assms(1) r ws(1)] show ?thesis by blast
qed

definition sample_array_calls :: "(string option \<times> array_call) list" where
  "sample_array_calls =
    [(None, CallPush (RInteger 1)), (Some ''interrupt'', CallInsert (-2) (RString ''x'')), (None, CallPush (RSymbol ''s'')),
         (None, CallSet (-1) RNil), (None, CallInsertText 9 ''t''), (None, CallInsert (-9) RTrue), (None, CallDeleteAt (-3)),
         (None, CallSet 7 RNil)]"

lemma sample_array_spec:
  "foldl (\<lambda>vs (intr, call). array_spec (\<lambda>_. Inl ToSFailed) vs call) [] sample_array_calls = [ABool True, ANull, AString ''t'']"
  by (simp add: sample_array_calls_def ruby_to_invalue_def invalue_at.simps to_i64_def i64_min_def i64_max_def MAX_NESTING_def
      key_to_string_def insert_clamped_def ruby_insert_def ruby_gap_def ruby_set_def ruby_delete_at_def ruby_cut_def back_cut_def
      numeral_eq_Suc)

theorem array_handle_refines_witness:
  "\<exists>rb' ws. rb' = foldl (array_run (\<lambda>_. Inl ToSFailed) sample_yrs sample_store (\<lambda>_ _. None) 0) sample_rb sample_array_calls
    \<and> ra_snapshot sample_yrs sample_store None 0 rb' = Inr ws \<and> list_all2 same_any ws [ABool True, ANull, AString ''t'']
    \<and> ra_get sample_yrs sample_store None 0 (-3) rb' = Inr (any_or_nil (Some (ws ! 0)))
    \<and> fst (ra_set (\<lambda>_. Inl ToSFailed) sample_store (\<lambda>_ _. None) None 0 (-4) RNil rb') = Inl (YErr ''index out of range'')"
proof -
  let ?rb = "foldl (array_run (\<lambda>_. Inl ToSFailed) sample_yrs sample_store (\<lambda>_ _. None) 0) sample_rb sample_array_calls"
  have r: "reads_as sample_yrs sample_store 0 (ydoc sample_rb) []"
    by (simp add: reads_as_def sample_store_def sample_rb_def)
  obtain ws where ws: "ra_snapshot sample_yrs sample_store None 0 ?rb = Inr ws"
    "list_all2 same_any ws [ABool True, ANull, AString ''t'']"
    "\<And>i. ra_get sample_yrs sample_store None 0 i ?rb = Inr (any_or_nil (ruby_at i ws))"
    "\<And>i v iv. ruby_to_invalue (\<lambda>_. Inl ToSFailed) v = Inr iv \<Longrightarrow>
       fst (ra_set (\<lambda>_. Inl ToSFailed) sample_store (\<lambda>_ _. None) None 0 i v ?rb)
         = (if ruby_at i ws = None then Inl (YErr ''index out of range'') else Inr v)"
    using array_handle_refines [OF sample_array_laws r refl refl, where to_s = "\<lambda>_. Inl ToSFailed" and tu = "\<lambda>_ _. None"
        and calls = sample_array_calls] unfolding sample_array_spec by blast
  obtain x y z where xyz: "ws = [x, y, z]" using ws(2) by (auto simp: list_all2_Cons2)
  have "ruby_at (-3) ws = Some x" "ruby_at (-4) ws = None"
    by (simp_all add: xyz ruby_at_def ruby_cut_def back_cut_def numeral_eq_Suc)
  moreover have "ruby_to_invalue (\<lambda>_. Inl ToSFailed) RNil = Inr (IAny ANull)"
    by (simp add: ruby_to_invalue_def invalue_at.simps MAX_NESTING_def)
  ultimately show ?thesis using ws xyz by (intro exI [of _ ?rb] exI [of _ ws]) simp
qed

text \<open>C11. A \<open>Y::Map\<close> handle is a finite map: after any sequence of \<open>[]=\<close>, \<open>set_text\<close>, \<open>delete\<close> and \<open>clear\<close>,
  with keys and values that do not convert and calls that an interrupt follows, its entries, its
  keys and its size are those of the map the same calls make.\<close>

theorem map_handle_refines:
  assumes "map_laws y st m" and "map_reads y st m (ydoc rb) f"
  shows "\<exists>kvs. rm_snapshot y st None m (foldl (map_run to_s y st tu m) rb calls) = Inr kvs
    \<and> distinct (map fst kvs) \<and> rm_keys st None m (foldl (map_run to_s y st tu m) rb calls) = Inr (map fst kvs)
    \<and> rm_size st None m (foldl (map_run to_s y st tu m) rb calls)
      = Inr (card (dom (foldl (\<lambda>f (intr, call). map_spec to_s f call) f calls)))
    \<and> (\<forall>k. rel_option same_any (map_of kvs k) (foldl (\<lambda>f (intr, call). map_spec to_s f call) f calls k))"
proof -
  have "map_reads y st m (ydoc (foldl (map_run to_s y st tu m) rb calls))
      (foldl (\<lambda>f (intr, call). map_spec to_s f call) f calls)"
    using assms(2)
  proof (induction calls arbitrary: rb f)
    case (Cons c calls)
    obtain intr call where c: "c = (intr, call)" by force
    from map_run_reads [OF assms(1) Cons.prems] show ?case by (simp add: c) (rule Cons.IH)
  qed simp
  then show ?thesis by (rule map_reads_snapshot [OF assms(1)])
qed

theorem map_handle_refines_witness:
  "\<exists>kvs. rm_snapshot sample_yrs sample_store None 0
      (foldl (map_run (\<lambda>_. Inl ToSFailed) sample_yrs sample_store (\<lambda>_ _. None) 0) sample_rb
        [(None, MapSet (RString ''k'') RTrue), (None, MapSetText (RString ''t'') ''x''), (None, MapDelete (RString ''k'')),
         (None, MapSet (RSymbol ''s'') RNil)]) = Inr kvs
    \<and> rel_option same_any (map_of kvs ''t'') (Some (AString ''x'')) \<and> rel_option same_any (map_of kvs ''k'') None"
proof -
  have r: "map_reads sample_yrs sample_store 0 (ydoc sample_rb) Map.empty"
    by (simp add: map_reads_def sample_store_def sample_rb_def)
  let ?calls = "[(None, MapSet (RString ''k'') RTrue), (None, MapSetText (RString ''t'') ''x''), (None, MapDelete (RString ''k'')),
         (None, MapSet (RSymbol ''s'') RNil)]"
  have "foldl (\<lambda>f (intr, call). map_spec (\<lambda>_. Inl ToSFailed) f call) Map.empty ?calls = [''t'' \<mapsto> AString ''x'']"
    by (auto simp: ruby_to_invalue_def invalue_at.simps MAX_NESTING_def key_to_string_def)
  with map_handle_refines [OF sample_map_laws r, where to_s = "\<lambda>_. Inl ToSFailed" and tu = "\<lambda>_ _. None" and calls = ?calls]
  obtain kvs where "rm_snapshot sample_yrs sample_store None 0
      (foldl (map_run (\<lambda>_. Inl ToSFailed) sample_yrs sample_store (\<lambda>_ _. None) 0) sample_rb ?calls) = Inr kvs"
    "\<forall>k. rel_option same_any (map_of kvs k) ([''t'' \<mapsto> AString ''x''] k)" by auto
  moreover have "rel_option same_any (map_of kvs ''t'') ([''t'' \<mapsto> AString ''x''] ''t'')"
    "rel_option same_any (map_of kvs ''k'') ([''t'' \<mapsto> AString ''x''] ''k'')" using calculation(2) by blast+
  ultimately show ?thesis by (intro exI [of _ kvs]) (simp del: option.rel_sel)
qed

text \<open>C12. A \<open>Y::Text\<close> handle is Ruby's String: after any sequence of \<open>push\<close>, \<open>insert\<close>, \<open>delete\<close> and \<open>clear\<close> in
  character indexes, positive and negative, it holds the characters that \<open>String#insert\<close> and
  \<open>String#slice!\<close> leave, never splitting a character of two UTF-16 units, and \<open>length\<close> and \<open>empty?\<close>
  agree.  Out of range, where \<open>String#insert\<close> raises an \<open>IndexError\<close>, the text goes to the nearer end;
  where \<open>slice!\<close> returns nil, nothing is removed.\<close>

theorem text_handle_refines:
  assumes "text_laws st (\<lambda>d. text_at st d t) t" and "text_reads st t (ydoc rb) cs"
  shows "text_reads st t (ydoc (foldl (text_run st tu t) rb calls)) (foldl (\<lambda>cs (intr, call). text_spec cs call) cs calls)
    \<and> rt_length st None t (foldl (text_run st tu t) rb calls)
      = Inr (length (foldl (\<lambda>cs (intr, call). text_spec cs call) cs calls))
    \<and> rt_is_empty st None t (foldl (text_run st tu t) rb calls)
      = Inr (foldl (\<lambda>cs (intr, call). text_spec cs call) cs calls = [])"
proof -
  have "text_reads st t (ydoc (foldl (text_run st tu t) rb calls)) (foldl (\<lambda>cs (intr, call). text_spec cs call) cs calls)"
    using assms(2)
  proof (induction calls arbitrary: rb cs)
    case (Cons c calls)
    obtain intr call where c: "c = (intr, call)" by force
    from text_run_reads [OF assms(1) Cons.prems] show ?case by (simp add: c) (rule Cons.IH)
  qed simp
  with text_reads_length [OF assms(1) this] show ?thesis by blast
qed

definition sample_text_calls :: "(string option \<times> text_call) list" where
  "sample_text_calls =
    [(None, TextInsert 2 ''x''), (Some ''interrupt'', TextDelete (-2) 1), (None, TextInsert (-2) ''y''), (None, TextPush ''z''),
     (None, TextInsert 99 ''w''), (None, TextInsert (-99) ''v''), (None, TextDelete 99 1)]"

theorem text_handle_refines_witness:
  "text_reads sample_store 1 (ydoc (foldl (text_run sample_store (\<lambda>_ _. None) 1) sample_rb sample_text_calls))
    [CChar ''v'', CPiece (OYMap []), CChar ''a'', CChar ''x'', CChar ''y'', CChar ''b'', CChar ''z'', CChar ''w'']"
proof -
  have laws: "text_laws sample_store (\<lambda>d. text_at sample_store d 1) 1"
    unfolding text_at_sample by (rule sample_text_laws)
  have r: "text_reads sample_store 1 (ydoc sample_rb) (map item_cell sample_items)"
    using cells_of_items [OF node_at_valid [OF sample_node1]] sample_node1 by (simp add: text_reads_def sample_store_def)
  have "foldl (\<lambda>cs (intr, call). text_spec cs call) (map item_cell sample_items) sample_text_calls
    = [CChar ''v'', CPiece (OYMap []), CChar ''a'', CChar ''x'', CChar ''y'', CChar ''b'', CChar ''z'', CChar ''w'']"
    by (simp add: sample_text_calls_def sample_items_def insert_clamped_def ruby_insert_def ruby_gap_def ruby_slice_def ruby_cut_def
        back_cut_def is_cont_byte_def numeral_eq_Suc)
  with text_handle_refines [OF laws r, where tu = "\<lambda>_ _. None" and calls = sample_text_calls] show ?thesis by simp
qed

section \<open>Values through handles\<close>

text \<open>C36. A plain value nested at most \<open>MAX_NESTING\<close> (100) levels that is read out of a document and written
  back through a handle is the same value, except that a whole float within the safe range becomes an
  integer and \<open>undefined\<close> null.  yrs is given exactly that: a live map for a map, also inside a map,
  and a plain value for an array and all in it; the array it is pushed to and the map it is set in
  read it back, and keep the rest.\<close>

theorem value_round_trip:
  assumes "any_plain v" and "any_depth v \<le> MAX_NESTING"
    and "array_laws y st a" and "reads_as y st a (ydoc rb) vs" and "map_laws y st m" and "map_reads y st m (ydoc rb) f"
  shows "(\<exists>iv. ruby_to_invalue to_s (any_to_ruby v) = Inr iv \<and> to_in iv = written_as v)
    \<and> (\<exists>rb'. ra_push to_s st tu None a (any_to_ruby v) rb = (Inr a, rb') \<and> reads_as y st a (ydoc rb') (vs @ [any_norm v]))
    \<and> (\<exists>rb'. rm_set to_s st tu None m (RString k) (any_to_ruby v) rb = (Inr (any_to_ruby v), rb')
         \<and> map_reads y st m (ydoc rb') (f(k \<mapsto> any_norm v)))"
proof -
  obtain iv where iv: "ruby_to_invalue to_s (any_to_ruby v) = Inr iv" "invalue_to_any iv = any_norm v" "to_in iv = written_as v"
    using any_round_trip [of v 0 to_s] assms(1,2) by (auto simp: ruby_to_invalue_def)
  have p: "prelim_any (PIn (to_in iv)) = any_norm v" using iv(2) by (simp add: in_any_to_in)
  obtain i d where "ra_insert_body st a (-1) (PIn (to_in iv)) (ydoc rb) = (Inr i, d)" "reads_as y st a d (vs @ [any_norm v])"
    using ra_insert_body_reads [OF assms(3,4), of "-1" "PIn (to_in iv)"] unfolding p insert_at_end by blast
  moreover obtain j e where "rm_set_body st m k (PIn (to_in iv)) (ydoc rb) = (Inr j, e)" "map_reads y st m e (f(k \<mapsto> any_norm v))"
    using rm_set_body_reads [OF assms(5,6), of k "PIn (to_in iv)"] unfolding p by blast
  ultimately show ?thesis
    using iv
    by (simp add: ra_push_def ra_insert_at_def rm_set_def with_value_def key_to_string_def write_txn_def guarded_def nogvl_def
        bind_txn_def ret_def)
qed

definition sample_value :: any where
  "sample_value = AMap [(''k'', AArray [ANumber (NInt 5), AUndefined]), (''m'', AMap [(''s'', AString ''s'')])]"

theorem value_round_trip_witness:
  "(\<exists>iv. ruby_to_invalue (\<lambda>_. Inl ToSFailed) (any_to_ruby sample_value) = Inr iv
      \<and> to_in iv = InMap [(''k'', InAny (AArray [ANumber (NInt 5), ANull])), (''m'', InMap [(''s'', InAny (AString ''s''))])])
    \<and> (\<exists>rb'. ra_push (\<lambda>_. Inl ToSFailed) sample_store (\<lambda>_ _. None) None 0 (any_to_ruby sample_value) sample_rb = (Inr 0, rb')
         \<and> reads_as sample_yrs sample_store 0 (ydoc rb')
             [AMap [(''k'', AArray [ANumber (NInt 5), ANull]), (''m'', AMap [(''s'', AString ''s'')])]])"
proof -
  have "reads_as sample_yrs sample_store 0 (ydoc sample_rb) []" "map_reads sample_yrs sample_store 0 (ydoc sample_rb) Map.empty"
    by (simp_all add: reads_as_def map_reads_def sample_store_def sample_rb_def)
  from value_round_trip [of sample_value, OF _ _ sample_array_laws this(1) sample_map_laws this(2),
      of "\<lambda>_. Inl ToSFailed" "\<lambda>_ _. None"]
  show ?thesis by (simp add: sample_value_def i64_min_def i64_max_def MAX_NESTING_def)
qed

section \<open>Writes through handles\<close>

text \<open>Every write through a live handle is one local transaction: after any sequence of calls on
  arrays, maps, texts and rich-text blocks, whether they succeed, fail or are followed by an
  interrupt, the unsent updates are the earlier ones followed by exactly what yrs reported for each
  call, in order, so \<open>Doc#edit\<close> neither misses nor repeats a write.\<close>

theorem handle_writes_unsent:
  assumes "\<And>d. tu d d = None"
  shows "unsent (foldl (handle_run cv y st tu) rb calls) = unsent rb @ reported tu (handle_run cv y st tu) rb calls"
  using assms by (rule calls_unsent) (rule handle_run_commits)

theorem handle_writes_unsent_witness:
  "unsent (foldl (handle_run sample_conversions sample_yrs sample_store (\<lambda>d d'. if d = d' then None else Some [7])) sample_rb
      [OnArray 0 (None, CallPush RNil), OnText 1 (None, TextDelete 9 1), OnXml \<lparr>xt_id = 1, xt_root = ''root''\<rparr> (None, XmlClear)])
    = [[7], [7]]"
  by (subst handle_writes_unsent)
    (simp_all add: sample_rb_def sample_store_def ra_push_def ra_insert_at_def ruby_to_invalue_def invalue_at.simps
      MAX_NESTING_def sample_conversions_def with_value_def write_txn_def ra_insert_body_def bind_txn_def resolve_or_def
      ret_def local_write_def commit_txn_def on_commit_def insert_index_def clamp_def Let_def rt_delete_def rt_delete_body_def
      node_at_def sample_items_def is_cont_byte_def delete_span_def char_len_def pieces_def rx_clear_def resolve_block_def
      remove_all_def read_txn_def edit_node_def take_items_def cut_at_def len_utf16_def code_point_def slot_of_def)




end
