(* ===== verification/BlockProps.thy ===== *)
theory BlockProps
  imports HandleProps
begin

text \<open>
  The properties of rich-text blocks: content, markers, inserting and deleting blocks, finding them
  again, carets, and of presence.
\<close>

lemma sample_tree_node1: "node sample_store (ydoc sample_rb) 1 = Some ([], sample_items)"
  unfolding node_sample by (rule sample_node1)

lemma sample_tree_node0: "node sample_store (ydoc sample_rb) 0 = Some ([], [IBlock 1])"
  by (simp add: node_sample sample_node0)

lemma sample_root_ids: "block_ids sample_store (ydoc sample_rb) 0 = [1]"
  by (simp add: sample_store_def sample_node0)

lemma write_txn_Inr: "f (ydoc rb) = (Inr r, d') \<Longrightarrow> write_txn tu None rb f = (Inr r, local_write tu rb d')"
  by (simp add: write_txn_def guarded_def nogvl_def)

section \<open>Content\<close>

text \<open>C13. \<open>append\<close> and \<open>replace\<close> write exactly their content in one transaction: the block keeps its
  attributes and, after \<open>append\<close>, what it held, and then holds the pieces in order, each nested block a
  new node with its attributes and its own content; other blocks stay as they were.\<close>

theorem content_written:
  assumes "tree_laws y st" and "node st (ydoc rb) (xt_id h) = Some (as, is)"
    and "read_all to_s to_hash to_ary vs 0 = Inr ps"
  shows "\<exists>d' is' d'' is''.
      rx_append to_s to_hash to_ary st tu None h vs rb = (Inr (Inr h), local_write tu rb d')
    \<and> node st d' (xt_id h) = Some (as, is @ is') \<and> content_holds y st d' (fresh st (ydoc rb)) ps is'
    \<and> (\<forall>u. u \<noteq> xt_id h \<longrightarrow> node st (ydoc rb) u \<noteq> None \<longrightarrow> node st d' u = node st (ydoc rb) u)
    \<and> rx_replace to_s to_hash to_ary st tu None h vs rb = (Inr (Inr h), local_write tu rb d'')
    \<and> node st d'' (xt_id h) = Some (as, is'') \<and> content_holds y st d'' UNIV ps is''"
proof -
  obtain d' is' where a: "write_content_body st (xt_id h) ps False (ydoc rb) = (Inr (), d')"
    "node st d' (xt_id h) = Some (as, is @ is')" "content_holds y st d' (fresh st (ydoc rb)) ps is'" "grown st (xt_id h) (ydoc rb) d'"
    using write_content_holds [OF assms(1,2), of ps False] by auto
  obtain d0 d'' is'' where r: "write_content_body st (xt_id h) ps True (ydoc rb) = (Inr (), d'')"
    "node st d'' (xt_id h) = Some (as, is'')" "content_holds y st d'' (fresh st d0) ps is''"
    using write_content_holds [OF assms(1,2), of ps True] by auto
  have "content_holds y st d'' UNIV ps is''" by (rule content_holds_stable [OF refl subset_UNIV r(3)])
  with a r show ?thesis
    using assms(3)
    by (auto simp: rx_append_def rx_replace_def rx_write_content_def with_piece_def write_txn_Inr grown_def)
qed

theorem content_written_witness:
  "\<exists>d' is' c as inner.
      rx_append (\<lambda>_. Inl ToSFailed) (\<lambda>_. None) (\<lambda>_. None) sample_store (\<lambda>_ _. None) None \<lparr>xt_id = 1, xt_root = ''root''\<rparr>
        [RString ''x'', RArray [RHash [], RArray [RString ''y'']]] sample_rb
      = (Inr (Inr \<lparr>xt_id = 1, xt_root = ''root''\<rparr>), local_write (\<lambda>_ _. None) sample_rb d')
    \<and> node sample_store d' 1 = Some ([], sample_items @ [IChar ''x'', IBlock c])
    \<and> node sample_store d' c = Some (as, [IChar ''y''])"
proof -
  let ?h = "\<lparr>xt_id = 1 :: nat, xt_root = ''root''\<rparr>"
  have ps: "read_all (\<lambda>_. Inl ToSFailed) (\<lambda>_. None) (\<lambda>_. None) [RString ''x'', RArray [RHash [], RArray [RString ''y'']]] 0
      = Inr [PieceText ''x'', PieceBlock [] [PieceText ''y'']]"
    by (simp add: read_all.simps piece_read.simps MAX_NESTING_def as_hash_def as_array_def piece_pairs_def hash_pairs_def)
  have nd: "node sample_store (ydoc sample_rb) (xt_id ?h) = Some ([], sample_items)"
    using sample_tree_node1 by simp
  from content_written [OF sample_tree_laws nd ps, where tu = "\<lambda>_ _. None"] show ?thesis by fastforce
qed

text \<open>C16. Text that \<open>append_text\<close> adds always has a text node to belong to: in a block where every
  character follows a marker or another character, the marker goes in exactly when the block is empty
  or ends with an embedded block, and the property holds again afterwards.\<close>

theorem appended_text_is_marked:
  assumes "tree_laws y st" and "node st (ydoc rb) (xt_id h) = Some (as, is)" and "marked False is"
    and "hash_pairs to_s mk = Inr es"
  shows "\<exists>d' new. rx_append_text to_s st tu None h s mk rb = (Inr h, local_write tu rb d')
    \<and> node st d' (xt_id h) = Some (as, is @ new @ map IChar (chars s)) \<and> marked False (is @ new @ map IChar (chars s))
    \<and> (if is = [] \<or> ends_block is then \<exists>c. new = [IEmbed c] \<and> same_any (rd_out_to_any y c) (invalue_to_any (IMap es))
       else new = [])"
proof -
  obtain d' new where d': "append_text_body st (xt_id h) s es (ydoc rb) = (Inr (), d')"
    "node st d' (xt_id h) = Some (as, is @ new @ map IChar (chars s))"
    "if is = [] \<or> ends_block is then \<exists>c. new = [IEmbed c] \<and> same_any (rd_out_to_any y c) (invalue_to_any (IMap es)) else new = []"
    using append_text_marks [OF assms(1,2), of s es] by blast
  have "marked False (is @ new @ map IChar (chars s))"
    using d'(3) assms(3) marked_chars [of "chars s"] by (auto simp: marked_append split: if_splits)
  moreover have "rx_append_text to_s st tu None h s mk rb = (Inr h, local_write tu rb d')"
    using d'(1) assms(4) by (simp add: rx_append_text_def with_value_def write_txn_Inr)
  ultimately show ?thesis using d' by blast
qed

theorem appended_text_is_marked_witness:
  "\<exists>d' c. rx_append_text (\<lambda>_. Inl ToSFailed) sample_store (\<lambda>_ _. None) None \<lparr>xt_id = 0, xt_root = ''root''\<rparr> ''x'' [] sample_rb
      = (Inr \<lparr>xt_id = 0, xt_root = ''root''\<rparr>, local_write (\<lambda>_ _. None) sample_rb d')
    \<and> node sample_store d' 0 = Some ([], [IBlock 1, IEmbed c, IChar ''x''])"
proof -
  let ?h = "\<lparr>xt_id = 0 :: nat, xt_root = ''root''\<rparr>"
  have nd: "node sample_store (ydoc sample_rb) (xt_id ?h) = Some ([], [IBlock 1])" by (simp add: sample_tree_node0)
  have e: "hash_pairs (\<lambda>_. Inl ToSFailed) [] = Inr []" by (simp add: hash_pairs_def)
  have "marked False [IBlock 1 :: nat item]" by simp
  from appended_text_is_marked [OF sample_tree_laws nd this e, where tu = "\<lambda>_ _. None" and s = "''x''"] show ?thesis
    by (fastforce simp: ends_block_def)
qed

text \<open>C37. Content read from Ruby nests at most \<open>MAX_NESTING\<close> blocks deep, and a block whose content
  contains the block itself is refused instead of recursing for ever.\<close>

theorem content_nesting:
  "(\<forall>ps. read_all to_s to_hash to_ary vs 0 = Inr ps \<longrightarrow> (\<forall>p \<in> set ps. piece_depth p \<le> MAX_NESTING))
   \<and> rx_append to_s to_hash to_ary st tu intr h [cyclic_block 0] rb = (Inl BlocksTooDeep, rb)"
proof -
  have "read_all to_s to_hash to_ary [cyclic_block 0] 0 = Inl BlocksTooDeep"
    by (simp add: read_all.simps cyclic_block_refused MAX_NESTING_def)
  then show ?thesis
    using read_nesting(1) [of to_s to_hash to_ary vs 0]
    by (auto simp: rx_append_def rx_write_content_def with_piece_def)
qed

theorem content_nesting_witness:
  "read_all (\<lambda>_. Inl ToSFailed) (\<lambda>_. None) (\<lambda>_. None) [RArray [RHash [], RArray []]] 0 = Inr [PieceBlock [] []]
   \<and> piece_depth (PieceBlock [] []) \<le> MAX_NESTING
   \<and> fst (rx_append (\<lambda>_. Inl ToSFailed) (\<lambda>_. None) (\<lambda>_. None) sample_store (\<lambda>_ _. None) None
       \<lparr>xt_id = 1, xt_root = ''root''\<rparr> [cyclic_block 0] sample_rb) = Inl BlocksTooDeep"
proof -
  have ps: "read_all (\<lambda>_. Inl ToSFailed) (\<lambda>_. None) (\<lambda>_. None) [RArray [RHash [], RArray []]] 0 = Inr [PieceBlock [] []]"
    by (simp add: read_all.simps piece_read.simps MAX_NESTING_def as_hash_def as_array_def piece_pairs_def hash_pairs_def)
  show ?thesis
    using content_nesting [of "\<lambda>_. Inl ToSFailed" "\<lambda>_. None" "\<lambda>_. None" "[RArray [RHash [], RArray []]]" sample_store
        "\<lambda>_ _. None" None "\<lparr>xt_id = 1, xt_root = ''root''\<rparr>" sample_rb] ps by simp
qed

section \<open>Blocks by ordinal\<close>

text \<open>C17. \<open>insert_xml_text\<close> puts a new block before the block whose ordinal is asked for, counting from the
  end when negative and last when past the end: the blocks of the parent are the old ones in order
  with the new one in that place, everything else of the parent stays, and the handle returned names
  the new block, which has the attributes and the content given.\<close>

theorem block_inserted_at_ordinal:
  assumes "tree_laws y st" and "node st (ydoc rb) (xt_id h) = Some (as, is)"
    and "hash_pairs to_s attributes = Inr es" and "read_all to_s to_hash to_ary vs 0 = Inr ps"
  shows "\<exists>d' c pre post. rx_insert_xml_text to_s to_hash to_ary st tu None h n attributes vs rb
        = (Inr (Inr \<lparr>xt_id = c, xt_root = xt_root h\<rparr>), local_write tu rb d')
    \<and> is = pre @ post \<and> node st d' (xt_id h) = Some (as, pre @ [IBlock c] @ post)
    \<and> (let ids = block_ids st (ydoc rb) (xt_id h); i = insert_index n (length ids)
       in block_ids st d' (xt_id h) = take i ids @ [c] @ drop i ids)
    \<and> piece_holds y st d' (fresh st (ydoc rb)) (PieceBlock es ps) [IBlock c]
    \<and> (\<forall>u. u \<noteq> xt_id h \<longrightarrow> node st (ydoc rb) u \<noteq> None \<longrightarrow> node st d' u = node st (ydoc rb) u)"
proof -
  let ?ids = "block_ids st (ydoc rb) (xt_id h)" let ?i = "insert_index n (length ?ids)"
  obtain d' c pre post where d': "insert_block_body st (xt_id h) n es ps (ydoc rb) = (Inr c, d')" "is = pre @ post"
    "node st d' (xt_id h) = Some (as, pre @ [IBlock c] @ post)" "item_blocks pre = take ?i ?ids" "item_blocks post = drop ?i ?ids"
    "piece_holds y st d' (fresh st (ydoc rb)) (PieceBlock es ps) [IBlock c]" "grown st (xt_id h) (ydoc rb) d'"
    using insert_block_holds [OF assms(1,2), of n es ps] by blast
  have "block_ids st d' (xt_id h) = item_blocks (pre @ [IBlock c] @ post)"
    using node_Some [OF assms(1) d'(3)] by metis
  then have "block_ids st d' (xt_id h) = take ?i ?ids @ [c] @ drop ?i ?ids" using d'(4,5) by simp
  moreover have "rx_insert_xml_text to_s to_hash to_ary st tu None h n attributes vs rb
      = (Inr (Inr \<lparr>xt_id = c, xt_root = xt_root h\<rparr>), local_write tu rb d')"
    using d'(1) assms(3,4) by (simp add: rx_insert_xml_text_def with_piece_def piece_pairs_def write_txn_Inr rx_child_def)
  ultimately show ?thesis using d' unfolding grown_def Let_def by blast
qed

theorem block_inserted_at_ordinal_witness:
  "\<exists>d' c. rx_insert_xml_text (\<lambda>_. Inl ToSFailed) (\<lambda>_. None) (\<lambda>_. None) sample_store (\<lambda>_ _. None) None
        \<lparr>xt_id = 0, xt_root = ''root''\<rparr> (-2) [] [RString ''y''] sample_rb
      = (Inr (Inr \<lparr>xt_id = c, xt_root = ''root''\<rparr>), local_write (\<lambda>_ _. None) sample_rb d')
    \<and> block_ids sample_store d' 0 = [c, 1]"
proof -
  let ?h = "\<lparr>xt_id = 0 :: nat, xt_root = ''root''\<rparr>"
  have nd: "node sample_store (ydoc sample_rb) (xt_id ?h) = Some ([], [IBlock 1])" by (simp add: sample_tree_node0)
  have e: "hash_pairs (\<lambda>_. Inl ToSFailed) [] = Inr []" by (simp add: hash_pairs_def)
  have ps: "read_all (\<lambda>_. Inl ToSFailed) (\<lambda>_. None) (\<lambda>_. None) [RString ''y''] 0 = Inr [PieceText ''y'']"
    by (simp add: read_all.simps piece_read.simps MAX_NESTING_def)
  from block_inserted_at_ordinal [OF sample_tree_laws nd e ps, where tu = "\<lambda>_ _. None" and n = "-2"] show ?thesis
    by (fastforce simp: sample_root_ids insert_index_def clamp_def Let_def)
qed

text \<open>C18. \<open>delete_xml_text\<close> removes exactly the block with the ordinal asked for, counting from the end when
  negative, and says whether there was one; the other blocks and everything between them stay.\<close>

theorem block_deleted_at_ordinal:
  assumes "tree_laws y st" and "node st (ydoc rb) (xt_id h) = Some (as, is)"
  shows "case element_index n (length (block_ids st (ydoc rb) (xt_id h))) of
      None \<Rightarrow> rx_delete_xml_text st tu None h n rb = (Inr False, local_write tu rb (ydoc rb))
    | Some i \<Rightarrow> (\<exists>d' pre post. rx_delete_xml_text st tu None h n rb = (Inr True, local_write tu rb d')
        \<and> is = pre @ IBlock (block_ids st (ydoc rb) (xt_id h) ! i) # post \<and> node st d' (xt_id h) = Some (as, pre @ post)
        \<and> block_ids st d' (xt_id h)
          = take i (block_ids st (ydoc rb) (xt_id h)) @ drop (Suc i) (block_ids st (ydoc rb) (xt_id h)))"
proof (cases "element_index n (length (block_ids st (ydoc rb) (xt_id h)))")
  case None
  then show ?thesis
    using delete_block_holds [OF assms, of n] by (simp add: rx_delete_xml_text_def write_txn_Inr)
next
  case (Some i)
  let ?ids = "block_ids st (ydoc rb) (xt_id h)"
  from delete_block_holds [OF assms, of n] Some obtain d' pre post where
    d': "delete_block_body st (xt_id h) n (ydoc rb) = (Inr True, d')" "is = pre @ IBlock (?ids ! i) # post"
    "node st d' (xt_id h) = Some (as, pre @ post)" "item_blocks pre = take i ?ids" "item_blocks post = drop (Suc i) ?ids"
    by auto
  have "block_ids st d' (xt_id h) = item_blocks (pre @ post)" using node_Some [OF assms(1) d'(3)] by metis
  then have "block_ids st d' (xt_id h) = take i ?ids @ drop (Suc i) ?ids" using d'(4,5) by simp
  moreover have "rx_delete_xml_text st tu None h n rb = (Inr True, local_write tu rb d')"
    using d'(1) by (simp add: rx_delete_xml_text_def write_txn_Inr)
  ultimately show ?thesis using Some d' by auto
qed

theorem block_deleted_at_ordinal_witness:
  "\<exists>d'. rx_delete_xml_text sample_store (\<lambda>_ _. None) None \<lparr>xt_id = 0, xt_root = ''root''\<rparr> (-1) sample_rb
      = (Inr True, local_write (\<lambda>_ _. None) sample_rb d') \<and> block_ids sample_store d' 0 = []"
proof -
  let ?h = "\<lparr>xt_id = 0 :: nat, xt_root = ''root''\<rparr>"
  have nd: "node sample_store (ydoc sample_rb) (xt_id ?h) = Some ([], [IBlock 1])" by (simp add: sample_tree_node0)
  from block_deleted_at_ordinal [OF sample_tree_laws nd, where tu = "\<lambda>_ _. None" and n = "-1"] show ?thesis
    by (auto simp: sample_root_ids element_index_def Let_def)
qed

section \<open>Positions\<close>

text \<open>C26. A caret survives its way through awareness: the relative position of a character index of a
  text, written as the hash editors exchange and read back, is at that index, clamped as
  \<open>String#insert\<close> clamps it, for either association.\<close>

theorem caret_comes_back:
  assumes "text_laws st (\<lambda>d. text_at st d t) t" and "sticky_laws st (ydoc rb) t" and "text_at st (ydoc rb) t = Some seq"
    and "\<And>s. try_string (RString s) = Some s"
  shows "\<exists>p. rt_native_relative_position st None t index assoc rb = Inr p
    \<and> rt_index_at to_int try_string st None t p rb = Inr (Some (insert_index index (char_len seq)))"
  using rt_caret [OF assms(2,3,4,1)] by blast

theorem caret_comes_back_witness:
  "\<exists>p. rt_native_relative_position sample_store None 1 (-2) ''before'' sample_rb = Inr p
    \<and> rt_index_at (\<lambda>_. None) (\<lambda>v. case v of RString s \<Rightarrow> Some s | _ \<Rightarrow> None) sample_store None 1 p sample_rb = Inr (Some 3)"
proof -
  have laws: "text_laws sample_store (\<lambda>d. text_at sample_store d 1) 1"
    unfolding text_at_sample by (rule sample_text_laws)
  have "tx_len sample_store (ydoc sample_rb) 1 \<le> 5"
    using sample_node1 by (simp add: sample_store_def sample_items_def len_utf16_def code_point_def)
  then have sticky: "sticky_laws sample_store (ydoc sample_rb) 1"
    by (auto simp: sticky_laws_def sample_store_def scope_fits_def id_fits_def u32_max_def)
  have seq: "text_at sample_store (ydoc sample_rb) 1 = Some (map item_diff sample_items)"
    using sample_node1 by (simp add: sample_store_def)
  have "insert_index (-2) (char_len (map item_diff sample_items)) = 3"
    using cells_of_items [OF node_at_valid [OF sample_node1]]
    by (simp add: char_len_cells) (simp add: sample_items_def insert_index_def clamp_def)
  with caret_comes_back [OF laws sticky seq, where try_string = "\<lambda>v. case v of RString s \<Rightarrow> Some s | _ \<Rightarrow> None"
      and index = "-2" and assoc = "''before''" and to_int = "\<lambda>_. None"]
  show ?thesis by simp
qed

text \<open>C24. \<open>block_at\<close> returns for every position it can read, and answers with the ordinal of the first
  top-level block of the root that the position's branch is in, at any depth, or nil when it is in
  none; the search ends because a document is a finite tree.\<close>

theorem block_at_decides:
  assumes "blocks_ranked st (ydoc rb) rank" and "sticky_from_ruby to_int try_string position = Inr p"
    and "get_offset st (ydoc rb) p = Some (branch, i)" and "root_block st lk (ydoc rb) root = Some r"
  shows "\<exists>found. block_at to_int try_string st lk None rb position root = Some (Inr found)
    \<and> (let blocks = block_ids st (ydoc rb) r in
         case found of
           None \<Rightarrow> \<forall>b \<in> set blocks. \<not> inside st (ydoc rb) b branch
         | Some n \<Rightarrow> n < length blocks \<and> inside st (ydoc rb) (blocks ! n) branch
             \<and> (\<forall>m < n. \<not> inside st (ydoc rb) (blocks ! m) branch))"
proof -
  let ?bs = "block_ids st (ydoc rb) r" and ?in = "\<lambda>b. inside st (ydoc rb) b branch"
  let ?n = "length (takeWhile (\<lambda>b. \<not> ?in b) ?bs)"
  have first: "?n < length ?bs \<and> ?in (?bs ! ?n) \<and> (\<forall>m < ?n. \<not> ?in (?bs ! m))" if ex: "\<exists>b \<in> set ?bs. ?in b"
  proof (intro conjI allI impI)
    have "takeWhile (\<lambda>b. \<not> ?in b) ?bs \<noteq> ?bs" using ex by (auto simp: takeWhile_eq_all_conv)
    then show n: "?n < length ?bs"
      by (metis length_takeWhile_le le_neq_implies_less le_refl take_all takeWhile_eq_take)
    show "?in (?bs ! ?n)" using nth_length_takeWhile [OF n] by simp
    show "\<not> ?in (?bs ! m)" if "m < ?n" for m
      using that set_takeWhileD [of "takeWhile (\<lambda>b. \<not> ?in b) ?bs ! m"] by (metis nth_mem takeWhile_nth)
  qed
  have "block_at to_int try_string st lk None rb position root = Some (Inr (if \<exists>b \<in> set ?bs. ?in b then Some ?n else None))"
    using assms(2-4) block_position_first [OF assms(1), of branch ?bs 0]
    by (simp add: block_at_def block_at_closure_def nogvl_read_def nogvl_def)
  with first show ?thesis by (auto simp: Let_def)
qed

definition sample_roots :: "(sample_doc, nat) yrs_roots" where
  "sample_roots = \<lparr>new_doc = (\<lambda>_. \<lparr>sd_nodes = [([], [])], sd_array = [], sd_map = []\<rparr>), doc_client = (\<lambda>_. 0),
     root_refs = (\<lambda>_. [''root'']), root_text_string = (\<lambda>_ _. None), root_fragment = (\<lambda>_ _. Some []),
     root_map_entries = (\<lambda>_ _. None), root_array_items = (\<lambda>_ _. None),
     xml_parent = (\<lambda>_ t. if t = 1 then Some 0 else None), is_root_branch = (\<lambda>t. t = 0), is_xml_text = (\<lambda>_ _. True)\<rparr>"

definition sample_position :: rhash where
  "sample_position = position_to_ruby \<lparr>pos_scope = Nested \<lparr>id_client = 1, id_clock = 0\<rparr>, pos_assoc = After\<rparr>"

definition only_strings :: "rvalue \<Rightarrow> string option" where
  "only_strings v = (case v of RString s \<Rightarrow> Some s | _ \<Rightarrow> None)"

lemma sample_position_read:
  "sticky_from_ruby (\<lambda>_. None) only_strings sample_position
    = Inr \<lparr>pos_scope = Nested \<lparr>id_client = 1, id_clock = 0\<rparr>, pos_assoc = After\<rparr>"
  unfolding sample_position_def
  by (rule position_round_trip) (simp_all add: scope_fits_def id_fits_def u32_max_def only_strings_def)

theorem block_at_decides_witness:
  "\<exists>found. block_at (\<lambda>_. None) only_strings sample_store sample_roots None sample_rb sample_position ''root'' = Some (Inr found)
    \<and> found = Some 0"
proof -
  have "block_ids sample_store (ydoc sample_rb) b = (if b = 0 then [1] else [])" for b
    by (simp add: sample_store_def sample_rb_def node_at_def sample_items_def nth_Cons split: nat.split)
  then have rank: "blocks_ranked sample_store (ydoc sample_rb) (\<lambda>b. if b = 0 then 1 else 0)"
    by (simp add: blocks_ranked_def)
  have off: "get_offset sample_store (ydoc sample_rb) \<lparr>pos_scope = Nested \<lparr>id_client = 1, id_clock = 0\<rparr>, pos_assoc = After\<rparr>
      = Some (1, 0)"
    by (simp add: sample_store_def)
  have root: "root_block sample_store sample_roots (ydoc sample_rb) ''root'' = Some 0"
    by (simp add: root_block_def sample_roots_def sample_store_def)
  from block_at_decides [OF rank sample_position_read off root] obtain found where
    f: "block_at (\<lambda>_. None) only_strings sample_store sample_roots None sample_rb sample_position ''root'' = Some (Inr found)"
    "case found of None \<Rightarrow> \<not> inside sample_store (ydoc sample_rb) 1 1 | Some n \<Rightarrow> n < 1"
    by (auto simp: sample_root_ids Let_def split: option.splits)
  then have "found = Some 0" by (cases found) (auto intro: inside.here)
  with f(1) show ?thesis by blast
qed

text \<open>C25. An anchor finds its block: the position that names a block resolves to a handle on that very
  block as long as the block is in its root, however deep, and whatever \<open>find\<close> returns is a block that
  exists and lies under the root asked for.\<close>

theorem anchor_finds_block:
  assumes "xml_at st (ydoc rb) (xt_id h) = Some x"
    and "get_offset st (ydoc rb) (sticky_from_type st (ydoc rb) (xt_id h) After) = Some (xt_id h, n)"
    and "scope_fits (pos_scope (sticky_from_type st (ydoc rb) (xt_id h) After))" and "is_xml_text lk (ydoc rb) (xt_id h)"
    and "(xt_id h, root_id st (xt_root h)) \<in> {(b, p). xml_parent lk (ydoc rb) b = Some p}\<^sup>*"
    and "xml_parent lk (ydoc rb) (root_id st (xt_root h)) = None" and "\<And>s. try_string (RString s) = Some s"
  shows "(\<exists>position. rx_native_block_position st None h rb = Inr position
      \<and> find_block to_int try_string st lk None rb position (xt_root h) = Some (Inr (Some h)))
    \<and> (\<forall>position root h'. find_block to_int try_string st lk None rb position root = Some (Inr (Some h')) \<longrightarrow>
         xml_at st (ydoc rb) (xt_id h') \<noteq> None \<and> xt_root h' = root
         \<and> top_branch lk (ydoc rb) (xt_id h') = Some (root_id st root))"
proof -
  let ?p = "sticky_from_type st (ydoc rb) (xt_id h) After"
  have "top_branch lk (ydoc rb) (xt_id h) = Some (root_id st (xt_root h))"
    using assms(5)
  proof (induction rule: converse_rtrancl_induct)
    case base
    then show ?case using assms(6) by (simp add: top_branch.simps)
  next
    case (step b p)
    then show ?case by (simp add: top_branch.simps [of lk _ b])
  qed
  then have "find_block to_int try_string st lk None rb (position_to_ruby ?p) (xt_root h) = Some (Inr (Some h))"
    using assms(1,2,4) position_round_trip [OF assms(3,7), of to_int]
    by (simp add: find_block_def find_closure_def nogvl_read_def nogvl_def handle_def)
  moreover have "rx_native_block_position st None h rb = Inr (position_to_ruby ?p)"
    using assms(1) by (simp add: rx_native_block_position_def guarded_def nogvl_def ok_or_def)
  moreover have "xml_at st (ydoc rb) (xt_id h') \<noteq> None \<and> xt_root h' = root
      \<and> top_branch lk (ydoc rb) (xt_id h') = Some (root_id st root)"
    if "find_block to_int try_string st lk None rb position root = Some (Inr (Some h'))" for position root h'
    using that
    by (auto simp: find_block_def find_closure_def nogvl_read_def nogvl_def handle_def Let_def bind_eq_Some_conv
        split: sum.splits option.splits if_splits prod.splits)
  ultimately show ?thesis by blast
qed

theorem anchor_finds_block_witness:
  "\<exists>position. rx_native_block_position sample_store None \<lparr>xt_id = 1, xt_root = ''root''\<rparr> sample_rb = Inr position
    \<and> find_block (\<lambda>_. None) only_strings sample_store sample_roots None sample_rb position ''root''
      = Some (Inr (Some \<lparr>xt_id = 1, xt_root = ''root''\<rparr>))"
proof -
  let ?h = "\<lparr>xt_id = 1 :: nat, xt_root = ''root''\<rparr>"
  have x: "xml_at sample_store (ydoc sample_rb) (xt_id ?h) = Some (XmlText [] (map item_diff sample_items))"
    using sample_node1 by (simp add: sample_store_def)
  have "(xt_id ?h, root_id sample_store (xt_root ?h)) \<in> {(b, p). xml_parent sample_roots (ydoc sample_rb) b = Some p}\<^sup>*"
    by (rule r_into_rtrancl) (simp add: sample_store_def sample_roots_def)
  then show ?thesis
    using anchor_finds_block [OF x, where lk = sample_roots and try_string = only_strings and to_int = "\<lambda>_. None" and n = 0]
    by (simp add: sample_store_def sample_roots_def scope_fits_def id_fits_def u32_max_def only_strings_def)
qed

section \<open>Presence\<close>

text \<open>C38. Clearing a presence reaches the other peers: the frame \<open>clear_local_state\<close> returns is one message
  that routes as presence; a peer with another client id and a clock for this client that is not
  ahead accepts it, drops the client's state, advancing its clock, and keeps everyone else's; and a presence frame sent
  earlier that arrives late does not bring the state back where the client had been seen.  The
  client's clock is taken to be below \<open>u32::MAX\<close>, where the code's addition would wrap.\<close>

theorem cleared_presence_drops:
  assumes "aw_frame_law c" and "presence_law aw" and "own_clock aw a \<noteq> - 1"
    and "ya_client aw b \<noteq> ya_client aw a"
    and "\<forall>k data. client_entry aw b (ya_client aw a) = Some (k, data) \<longrightarrow> k \<le> own_clock aw a"
  shows "\<exists>frame b'. fst (aw_clear_local_state c aw a) = Inr frame \<and> message_kind c None frame = Inr 3
    \<and> aw_apply_update c aw frame b = (Inr True, b')
    \<and> client_entry aw b' (ya_client aw a) \<in> {None, Some (own_clock aw a + 1, None)}
    \<and> client_state aw b' (ya_client aw a) = None
    \<and> (\<forall>i. i \<notin> {ya_client aw a, ya_client aw b} \<longrightarrow> client_entry aw b' i = client_entry aw b i)
    \<and> (\<forall>es. client_entry aw b (ya_client aw a) \<noteq> None \<longrightarrow> distinct (map fst es) \<longrightarrow>
          (\<forall>k js. map_of es (ya_client aw a) = Some (k, js) \<longrightarrow> k \<le> own_clock aw a) \<longrightarrow>
          client_state aw (snd (aw_apply_update c aw (encode_message c (MAwareness es)) b')) (ya_client aw a) = None)"
proof -
  obtain frame b' where b': "fst (aw_clear_local_state c aw a) = Inr frame" "message_kind c None frame = Inr 3"
    "aw_apply_update c aw frame b = (Inr True, b')" "ya_client aw b' = ya_client aw b"
    "client_entry aw b' (ya_client aw a) \<in> {None, Some (own_clock aw a + 1, None)}"
    "client_entry aw b (ya_client aw a) \<noteq> None \<longrightarrow> client_entry aw b' (ya_client aw a) \<noteq> None"
    "\<forall>i. i \<notin> {ya_client aw a, ya_client aw b} \<longrightarrow> client_entry aw b' i = client_entry aw b i"
    using clear_reaches_peer [OF assms] by blast
  moreover have "client_state aw (snd (aw_apply_update c aw (encode_message c (MAwareness es)) b')) (ya_client aw a) = None"
    if seen: "client_entry aw b (ya_client aw a) \<noteq> None" and es: "distinct (map fst es)"
      and old: "\<forall>k js. map_of es (ya_client aw a) = Some (k, js) \<longrightarrow> k \<le> own_clock aw a" for es
  proof (rule late_frame_ignored [OF assms(1,2) es])
    show "client_entry aw b' (ya_client aw a) = Some (own_clock aw a + 1, None)" using b'(5,6) seen by blast
    show "k' \<le> own_clock aw a + 1" if "map_of es (ya_client aw a) = Some (k', js)" for k' js
      using old that word_succ_less [OF _ assms(3), of k'] by fastforce
  qed (use b'(4) assms(4) in simp)
  moreover have "client_state aw b' (ya_client aw a) = None" using b'(5) by (auto simp: client_state_def)
  ultimately show ?thesis by blast
qed

theorem cleared_presence_drops_witness:
  "\<exists>frame b'. fst (aw_clear_local_state presence_sync sample_awareness (1, [(1, 4, Some ''{}'')])) = Inr frame
    \<and> aw_apply_update presence_sync sample_awareness frame (2, [(1, 4, Some ''{}''), (3, 9, Some ''{}'')]) = (Inr True, b')
    \<and> client_state sample_awareness b' 1 = None \<and> client_entry sample_awareness b' 3 = Some (9, Some ''{}'')
    \<and> client_state sample_awareness (snd (aw_apply_update presence_sync sample_awareness
          (encode_message presence_sync (MAwareness [(1, 4, ''{}'')])) b')) 1 = None"
proof -
  let ?a = "(1 :: nat, [(1 :: nat, 4 :: 32 word, Some ''{}'')])" let ?b = "(2 :: nat, [(1 :: nat, 4 :: 32 word, Some ''{}''), (3, 9, Some ''{}'')])"
  have clock: "own_clock sample_awareness ?a = 4" by (simp add: own_clock_def sample_awareness_def)
  have ids: "ya_client sample_awareness ?a = 1" "ya_client sample_awareness ?b = 2" by (simp_all add: sample_awareness_def)
  have entries: "client_entry sample_awareness ?b 1 = Some (4, Some ''{}'')" "client_entry sample_awareness ?b 3 = Some (9, Some ''{}'')"
    by (simp_all add: client_entry_def sample_awareness_def)
  obtain frame b' where b': "fst (aw_clear_local_state presence_sync sample_awareness ?a) = Inr frame"
    "aw_apply_update presence_sync sample_awareness frame ?b = (Inr True, b')" "client_state sample_awareness b' 1 = None"
    "\<forall>i. i \<notin> {1, 2} \<longrightarrow> client_entry sample_awareness b' i = client_entry sample_awareness ?b i"
    "\<forall>es. distinct (map fst es) \<longrightarrow> (\<forall>k js. map_of es 1 = Some (k, js) \<longrightarrow> k \<le> 4) \<longrightarrow>
        client_state sample_awareness (snd (aw_apply_update presence_sync sample_awareness
          (encode_message presence_sync (MAwareness es)) b')) 1 = None"
    using cleared_presence_drops [OF presence_frames sample_presence, of ?a ?b, unfolded clock ids entries] by auto
  moreover have "client_entry sample_awareness b' 3 = Some (9, Some ''{}'')" using b'(4) entries(2) by simp
  moreover have "client_state sample_awareness (snd (aw_apply_update presence_sync sample_awareness
      (encode_message presence_sync (MAwareness [(1, 4, ''{}'')])) b')) 1 = None"
    using b'(5) [THEN spec, of "[(1, 4, ''{}'')]"] by simp
  ultimately show ?thesis by blast
qed

end
