(* ===== verification/Dispatch.thy ===== *)
theory Dispatch
  imports HandleCalls
begin

text \<open>
  The methods the extension registers with Ruby (\<open>init\<close> in \<open>src/ext/yrby/src/lib.rs\<close> and the four
  \<open>define\<close> functions of \<open>array.rs\<close>, \<open>map.rs\<close>, \<open>text.rs\<close> and \<open>xml_text.rs\<close>): one table per class, with each
  method's name, visibility, arity and the Rust method it calls, and, for the handle classes, what
  a call by name does.

  Ruby looks the name up, refuses a private method called on an explicit receiver, and checks the
  number of arguments; magnus then converts each argument, in order, to the parameter's type
  (an argument: \<open>arg_int\<close>, \<open>arg_str\<close>, \<open>arg_hash\<close>, \<open>arg_ary\<close>), and only then the method runs.
\<close>

section \<open>Tables and lookup\<close>

datatype visibility = Public | Private

text \<open>A negative arity takes any number of arguments.\<close>

type_synonym 'op method_row = "string \<times> visibility \<times> int \<times> 'op"

datatype lookup_error = NoMethod | PrivateCall | WrongArguments

definition find_method :: "'op method_row list \<Rightarrow> bool \<Rightarrow> string \<Rightarrow> nat \<Rightarrow> lookup_error + 'op" where
  "find_method rows explicit_receiver name argc =
     (case map_of (rev rows) name of
        None \<Rightarrow> Inl NoMethod
      | Some (vis, arity, op) \<Rightarrow>
          if vis = Private \<and> explicit_receiver then Inl PrivateCall
          else if 0 \<le> arity \<and> int argc \<noteq> arity then Inl WrongArguments
          else Inr op)"

datatype array_method =
    ArrGet | ArrSet | ArrGetMap | ArrGetArray | ArrGetText | ArrPush | ArrInsert | ArrInsertText | ArrDeleteAt
  | ArrClear | ArrSize | ArrIsEmpty | ArrToA | ArrEach

definition array_define :: "array_method method_row list" where
  "array_define =
    [(''[]'', Public, 1, ArrGet),
     (''get'', Public, 1, ArrGet),
     (''[]='', Public, 2, ArrSet),
     (''get_map'', Public, 1, ArrGetMap),
     (''get_array'', Public, 1, ArrGetArray),
     (''get_text'', Public, 1, ArrGetText),
     (''push'', Public, 1, ArrPush),
     (''<<'', Public, 1, ArrPush),
     (''insert'', Public, 2, ArrInsert),
     (''native_insert_text'', Public, 2, ArrInsertText),
     (''delete_at'', Public, 1, ArrDeleteAt),
     (''clear'', Public, 0, ArrClear),
     (''size'', Public, 0, ArrSize),
     (''length'', Public, 0, ArrSize),
     (''empty?'', Public, 0, ArrIsEmpty),
     (''to_a'', Public, 0, ArrToA),
     (''each'', Public, 0, ArrEach)]"

datatype map_method =
    MapMGet | MapMGetMap | MapMGetArray | MapMGetText | MapMSet | MapMSetText | MapMDelete | MapMClear | MapMHasKey
  | MapMSize | MapMKeys | MapMToH | MapMEach

definition map_define :: "map_method method_row list" where
  "map_define =
    [(''[]'', Public, 1, MapMGet),
     (''get'', Public, 1, MapMGet),
     (''get_map'', Public, 1, MapMGetMap),
     (''get_array'', Public, 1, MapMGetArray),
     (''get_text'', Public, 1, MapMGetText),
     (''[]='', Public, 2, MapMSet),
     (''set'', Public, 2, MapMSet),
     (''native_set_text'', Public, 2, MapMSetText),
     (''delete'', Public, 1, MapMDelete),
     (''clear'', Public, 0, MapMClear),
     (''key?'', Public, 1, MapMHasKey),
     (''has_key?'', Public, 1, MapMHasKey),
     (''size'', Public, 0, MapMSize),
     (''length'', Public, 0, MapMSize),
     (''keys'', Public, 0, MapMKeys),
     (''to_h'', Public, 0, MapMToH),
     (''each'', Public, 0, MapMEach)]"

datatype text_method =
    TxtToS | TxtPush | TxtInsert | TxtDelete | TxtClear | TxtLength | TxtIsEmpty | TxtIndexAt | TxtRelativePosition

definition text_define :: "text_method method_row list" where
  "text_define =
    [(''to_s'', Public, 0, TxtToS),
     (''to_str'', Public, 0, TxtToS),
     (''push'', Public, 1, TxtPush),
     (''<<'', Public, 1, TxtPush),
     (''insert'', Public, 2, TxtInsert),
     (''delete'', Public, 2, TxtDelete),
     (''clear'', Public, 0, TxtClear),
     (''length'', Public, 0, TxtLength),
     (''size'', Public, 0, TxtLength),
     (''empty?'', Public, 0, TxtIsEmpty),
     (''index_at'', Public, 1, TxtIndexAt),
     (''native_relative_position'', Private, 2, TxtRelativePosition)]"

datatype xml_text_method =
    XtToS | XtText | XtLength | XtIsEmpty | XtRootName | XtAttributes | XtCount | XtEndsWith | XtSetAttribute | XtInsert
  | XtInsertEmbed | XtAppend | XtReplace | XtAppendText | XtXmlText | XtDelete | XtClear | XtInsertXmlText | XtDeleteXmlText
  | XtRelativePosition | XtBlockPosition

definition xml_text_define :: "xml_text_method method_row list" where
  "xml_text_define =
    [(''to_s'', Public, 0, XtToS),
     (''to_str'', Public, 0, XtToS),
     (''text'', Public, 0, XtText),
     (''length'', Public, 0, XtLength),
     (''size'', Public, 0, XtLength),
     (''empty?'', Public, 0, XtIsEmpty),
     (''root_name'', Public, 0, XtRootName),
     (''attributes'', Public, 0, XtAttributes),
     (''xml_text_count'', Public, 0, XtCount),
     (''ends_with_xml_text?'', Public, 0, XtEndsWith),
     (''set_attribute'', Public, 2, XtSetAttribute),
     (''insert'', Public, 2, XtInsert),
     (''insert_embed'', Public, 2, XtInsertEmbed),
     (''append'', Public, 1, XtAppend),
     (''replace'', Public, 1, XtReplace),
     (''append_text'', Public, 2, XtAppendText),
     (''xml_text'', Public, 1, XtXmlText),
     (''delete'', Public, 2, XtDelete),
     (''clear'', Public, 0, XtClear),
     (''native_insert_xml_text'', Private, 3, XtInsertXmlText),
     (''delete_xml_text'', Public, 1, XtDeleteXmlText),
     (''native_relative_position'', Private, 2, XtRelativePosition),
     (''native_block_position'', Private, 0, XtBlockPosition)]"

section \<open>The other classes\<close>

datatype doc_method =
    DocEncodeStateVector | DocEncodeState | DocApplyUpdate | DocClientId | DocApplyUpdateChanges | DocBlockAt | DocFind
  | DocTakeUnsent | DocKeepUnsent | DocRootNames | DocReadText | DocReadXml | DocReadMap | DocReadArray | DocPending
  | DocCompacted | DocGetMap | DocGetArray | DocGetText | DocGetXmlText | DocUpdateReady | DocUpdateAdvances
  | DocSyncStep1 | DocHandleSyncMessage

definition doc_define :: "doc_method method_row list" where
  "doc_define =
    [(''encode_state_vector'', Public, 0, DocEncodeStateVector),
     (''encode_state_as_update'', Public, -1, DocEncodeState),
     (''apply_update'', Public, 1, DocApplyUpdate),
     (''client_id'', Public, 0, DocClientId),
     (''apply_update_changes'', Public, 2, DocApplyUpdateChanges),
     (''native_block_at'', Private, 2, DocBlockAt),
     (''native_find'', Private, 2, DocFind),
     (''native_take_unsent'', Private, 0, DocTakeUnsent),
     (''native_keep_unsent'', Private, 1, DocKeepUnsent),
     (''root_names'', Public, 0, DocRootNames),
     (''read_text'', Public, 1, DocReadText),
     (''read_xml'', Public, 1, DocReadXml),
     (''read_map'', Public, 1, DocReadMap),
     (''read_array'', Public, 1, DocReadArray),
     (''pending?'', Public, 0, DocPending),
     (''compacted_state_update'', Public, 0, DocCompacted),
     (''get_map'', Public, 1, DocGetMap),
     (''get_array'', Public, 1, DocGetArray),
     (''get_text'', Public, 1, DocGetText),
     (''get_xml_text'', Public, 1, DocGetXmlText),
     (''update_ready?'', Public, 1, DocUpdateReady),
     (''update_advances?'', Public, 1, DocUpdateAdvances),
     (''sync_step1'', Public, 0, DocSyncStep1),
     (''handle_sync_message'', Public, 1, DocHandleSyncMessage)]"

datatype renderer_method = ToHtml | NodeTypes

text \<open>\<open>NativeLexical\<close> and \<open>NativeProseMirror\<close> register the same names.\<close>

definition renderer_define :: "renderer_method method_row list" where
  "renderer_define = [(''to_html'', Public, -1, ToHtml), (''node_types'', Public, -1, NodeTypes)]"

datatype awareness_method = AwClientId | AwSetLocalState | AwClearLocalState | AwApplyUpdate | AwStates | AwClocks

definition awareness_define :: "awareness_method method_row list" where
  "awareness_define =
    [(''client_id'', Public, 0, AwClientId),
     (''set_local_state'', Public, 1, AwSetLocalState),
     (''clear_local_state'', Public, 0, AwClearLocalState),
     (''apply_update'', Public, 1, AwApplyUpdate),
     (''states'', Public, 0, AwStates),
     (''clocks'', Public, 0, AwClocks)]"

text \<open>The module functions and the message constants of \<open>Y\<close>.\<close>

datatype module_function = WrapUpdate | MessageKind | UpdateFromMessage

definition module_define :: "module_function method_row list" where
  "module_define =
    [(''wrap_update'', Public, 1, WrapUpdate),
     (''message_kind'', Public, 1, MessageKind),
     (''update_from_message'', Public, 1, UpdateFromMessage)]"

definition message_constants :: "(string \<times> nat) list" where
  "message_constants =
    [(''MSG_SYNC'', 0), (''MSG_AWARENESS'', 1), (''MSG_SYNC_STEP1'', 0), (''MSG_SYNC_STEP2'', 1), (''MSG_SYNC_UPDATE'', 2)]"

text \<open>No class registers a name twice.\<close>

lemma distinct_names:
  "distinct (map fst array_define)" "distinct (map fst map_define)" "distinct (map fst text_define)"
  "distinct (map fst xml_text_define)" "distinct (map fst doc_define)" "distinct (map fst renderer_define)"
  "distinct (map fst awareness_define)" "distinct (map fst module_define)"
  by (simp_all add: array_define_def map_define_def text_define_def xml_text_define_def doc_define_def renderer_define_def
      awareness_define_def module_define_def)

section \<open>Calls by name\<close>

text \<open>What a method hands back to Ruby.\<close>

datatype 'id returned_value =
    RetValue rvalue
  | RetSelf
  | RetHandle root_kind 'id
  | RetBlock "'id rb_xml_text"
  | RetEnumerator

datatype call_error =
    Lookup lookup_error
  | ArgType string
  | OpError handle_error
  | ContentError piece_error
  | SyncError string

text \<open>What the calls are given: the Ruby conversions magnus and the values code run, and yrs.\<close>

record ('d, 'id) native_env =
  arg_int :: "rvalue \<Rightarrow> string + int"
  arg_str :: "rvalue \<Rightarrow> string + string"
  arg_hash :: "rvalue \<Rightarrow> string + rhash"
  arg_ary :: "rvalue \<Rightarrow> string + rvalue list"
  env_conv :: conversions
  env_int :: "rvalue \<Rightarrow> int option"
  env_string :: "rvalue \<Rightarrow> string option"
  env_out :: "out \<Rightarrow> string"
  env_yrs :: yrs
  env_store :: "('d, 'id) yrs_store"
  env_tu :: "'d \<Rightarrow> 'd \<Rightarrow> bytes option"

text \<open>The result of a native method and the state it leaves.\<close>

type_synonym ('s, 'r) native_result = "(call_error + 'r) \<times> 's"

type_synonym ('d, 'id) call_result = "('d rb_doc, 'id returned_value) native_result"

definition with_arg :: "string + 'v \<Rightarrow> 's \<Rightarrow> ('v \<Rightarrow> ('s, 'r) native_result) \<Rightarrow> ('s, 'r) native_result" where
  "with_arg v s f = (case v of Inl e \<Rightarrow> (Inl (ArgType e), s) | Inr x \<Rightarrow> f x)"

definition reads :: "('a \<Rightarrow> 'r) \<Rightarrow> handle_error + 'a \<Rightarrow> 's \<Rightarrow> ('s, 'r) native_result" where
  "reads f r s = (map_sum OpError f r, s)"

definition writes :: "('a \<Rightarrow> 'id returned_value) \<Rightarrow> (handle_error + 'a) \<times> 'd rb_doc \<Rightarrow> ('d, 'id) call_result" where
  "writes f p = apfst (map_sum OpError f) p"

definition writes_content ::
  "('a \<Rightarrow> 'id returned_value) \<Rightarrow> (piece_error + handle_error + 'a) \<times> 'd rb_doc \<Rightarrow> ('d, 'id) call_result" where
  "writes_content f p =
     apfst (\<lambda>r. case r of Inl e \<Rightarrow> Inl (ContentError e) | Inr x \<Rightarrow> map_sum OpError f x) p"

definition ret_bool :: "bool \<Rightarrow> 'id returned_value" where
  "ret_bool b = RetValue (if b then RTrue else RFalse)"

definition ret_nat :: "nat \<Rightarrow> 'id returned_value" where
  "ret_nat n = RetValue (RInteger (int n))"

definition ret_str :: "string \<Rightarrow> 'id returned_value" where
  "ret_str s = RetValue (RString s)"

definition ret_nil :: "unit \<Rightarrow> 'id returned_value" where
  "ret_nil u = RetValue RNil"

definition ret_hash :: "rhash \<Rightarrow> 'id returned_value" where
  "ret_hash h = RetValue (RHash h)"

definition ret_option :: "('a \<Rightarrow> 'id returned_value) \<Rightarrow> 'a option \<Rightarrow> 'id returned_value" where
  "ret_option f x = (case x of Some a \<Rightarrow> f a | None \<Rightarrow> RetValue RNil)"

definition ret_each :: "each_result \<Rightarrow> 'id returned_value" where
  "ret_each r = (case r of Enumerator \<Rightarrow> RetEnumerator | EachDone \<Rightarrow> RetSelf)"

text \<open>The parameters of a Rust method; Ruby has checked how many there are.\<close>

definition args0 :: "rvalue list \<Rightarrow> 's \<Rightarrow> ('s, 'r) native_result \<Rightarrow> ('s, 'r) native_result" where
  "args0 args s r = (case args of [] \<Rightarrow> r | _ \<Rightarrow> (Inl (Lookup WrongArguments), s))"

definition args1 :: "rvalue list \<Rightarrow> 's \<Rightarrow> (rvalue \<Rightarrow> ('s, 'r) native_result) \<Rightarrow> ('s, 'r) native_result" where
  "args1 args s f = (case args of [v] \<Rightarrow> f v | _ \<Rightarrow> (Inl (Lookup WrongArguments), s))"

definition args2 :: "rvalue list \<Rightarrow> 's \<Rightarrow> (rvalue \<Rightarrow> rvalue \<Rightarrow> ('s, 'r) native_result) \<Rightarrow> ('s, 'r) native_result" where
  "args2 args s f = (case args of [v, w] \<Rightarrow> f v w | _ \<Rightarrow> (Inl (Lookup WrongArguments), s))"

definition args3 ::
  "rvalue list \<Rightarrow> 's \<Rightarrow> (rvalue \<Rightarrow> rvalue \<Rightarrow> rvalue \<Rightarrow> ('s, 'r) native_result) \<Rightarrow> ('s, 'r) native_result" where
  "args3 args s f = (case args of [v, w, x] \<Rightarrow> f v w x | _ \<Rightarrow> (Inl (Lookup WrongArguments), s))"

fun array_native ::
  "('d, 'id) native_env \<Rightarrow> string option \<Rightarrow> (rvalue list \<Rightarrow> ('d rb_doc, rvalue) txn) option \<Rightarrow> 'id \<Rightarrow> array_method
     \<Rightarrow> rvalue list \<Rightarrow> 'd rb_doc \<Rightarrow> ('d, 'id) call_result" where
  "array_native env intr block a ArrGet args rb =
     args1 args rb (\<lambda>i. with_arg (arg_int env i) rb (\<lambda>i. reads RetValue (ra_get (env_yrs env) (env_store env) intr a i rb) rb))"
| "array_native env intr block a ArrSet args rb =
     args2 args rb (\<lambda>i v. with_arg (arg_int env i) rb (\<lambda>i.
       writes RetValue (ra_set (conv_to_s (env_conv env)) (env_store env) (env_tu env) intr a i v rb)))"
| "array_native env intr block a ArrGetMap args rb =
     args1 args rb (\<lambda>i. with_arg (arg_int env i) rb (\<lambda>i. reads (ret_option (RetHandle KMap)) (ra_get_map (env_store env) intr a i rb) rb))"
| "array_native env intr block a ArrGetArray args rb =
     args1 args rb (\<lambda>i. with_arg (arg_int env i) rb (\<lambda>i. reads (ret_option (RetHandle KArray)) (ra_get_array (env_store env) intr a i rb) rb))"
| "array_native env intr block a ArrGetText args rb =
     args1 args rb (\<lambda>i. with_arg (arg_int env i) rb (\<lambda>i. reads (ret_option (RetHandle KText)) (ra_get_text (env_store env) intr a i rb) rb))"
| "array_native env intr block a ArrPush args rb =
     args1 args rb (\<lambda>v. writes (\<lambda>_. RetSelf) (ra_push (conv_to_s (env_conv env)) (env_store env) (env_tu env) intr a v rb))"
| "array_native env intr block a ArrInsert args rb =
     args2 args rb (\<lambda>i v. with_arg (arg_int env i) rb (\<lambda>i.
       writes (\<lambda>_. RetSelf) (ra_insert (conv_to_s (env_conv env)) (env_store env) (env_tu env) intr a i v rb)))"
| "array_native env intr block a ArrInsertText args rb =
     args2 args rb (\<lambda>i s. with_arg (arg_int env i) rb (\<lambda>i. with_arg (arg_str env s) rb (\<lambda>s.
       writes (RetHandle KText) (ra_insert_text (env_store env) (env_tu env) intr a i s rb))))"
| "array_native env intr block a ArrDeleteAt args rb =
     args1 args rb (\<lambda>i. with_arg (arg_int env i) rb (\<lambda>i.
       writes RetValue (ra_delete_at (env_yrs env) (env_store env) (env_tu env) intr a i rb)))"
| "array_native env intr block a ArrClear args rb = args0 args rb (writes ret_nil (ra_clear (env_store env) (env_tu env) intr a rb))"
| "array_native env intr block a ArrSize args rb = args0 args rb (reads ret_nat (ra_size (env_store env) intr a rb) rb)"
| "array_native env intr block a ArrIsEmpty args rb = args0 args rb (reads ret_bool (ra_is_empty (env_store env) intr a rb) rb)"
| "array_native env intr block a ArrToA args rb = args0 args rb (reads RetValue (ra_to_a (env_yrs env) (env_store env) intr a rb) rb)"
| "array_native env intr block a ArrEach args rb = args0 args rb (writes ret_each (ra_each (env_yrs env) (env_store env) intr a rb (map_option (\<lambda>b v. b [v]) block) rb))"

fun map_native ::
  "('d, 'id) native_env \<Rightarrow> string option \<Rightarrow> (rvalue list \<Rightarrow> ('d rb_doc, rvalue) txn) option \<Rightarrow> 'id \<Rightarrow> map_method
     \<Rightarrow> rvalue list \<Rightarrow> 'd rb_doc \<Rightarrow> ('d, 'id) call_result" where
  "map_native env intr block m MapMGet args rb =
     args1 args rb (\<lambda>k. reads RetValue (rm_get (conv_to_s (env_conv env)) (env_yrs env) (env_store env) intr m k rb) rb)"
| "map_native env intr block m MapMGetMap args rb =
     args1 args rb (\<lambda>k. reads (ret_option (RetHandle KMap)) (rm_get_map (conv_to_s (env_conv env)) (env_store env) intr m k rb) rb)"
| "map_native env intr block m MapMGetArray args rb =
     args1 args rb (\<lambda>k. reads (ret_option (RetHandle KArray)) (rm_get_array (conv_to_s (env_conv env)) (env_store env) intr m k rb) rb)"
| "map_native env intr block m MapMGetText args rb =
     args1 args rb (\<lambda>k. reads (ret_option (RetHandle KText)) (rm_get_text (conv_to_s (env_conv env)) (env_store env) intr m k rb) rb)"
| "map_native env intr block m MapMSet args rb =
     args2 args rb (\<lambda>k v. writes RetValue (rm_set (conv_to_s (env_conv env)) (env_store env) (env_tu env) intr m k v rb))"
| "map_native env intr block m MapMSetText args rb =
     args2 args rb (\<lambda>k s. with_arg (arg_str env s) rb (\<lambda>s.
       writes (RetHandle KText) (rm_set_text (conv_to_s (env_conv env)) (env_store env) (env_tu env) intr m k s rb)))"
| "map_native env intr block m MapMDelete args rb =
     args1 args rb (\<lambda>k. writes RetValue (rm_delete (conv_to_s (env_conv env)) (env_yrs env) (env_store env) (env_tu env) intr m k rb))"
| "map_native env intr block m MapMClear args rb = args0 args rb (writes ret_nil (rm_clear (env_store env) (env_tu env) intr m rb))"
| "map_native env intr block m MapMHasKey args rb =
     args1 args rb (\<lambda>k. reads ret_bool (rm_has_key (conv_to_s (env_conv env)) (env_store env) intr m k rb) rb)"
| "map_native env intr block m MapMSize args rb = args0 args rb (reads ret_nat (rm_size (env_store env) intr m rb) rb)"
| "map_native env intr block m MapMKeys args rb = args0 args rb (reads (\<lambda>ks. RetValue (RArray (map RString ks))) (rm_keys (env_store env) intr m rb) rb)"
| "map_native env intr block m MapMToH args rb = args0 args rb (reads RetValue (rm_to_h (env_yrs env) (env_store env) intr m rb) rb)"
| "map_native env intr block m MapMEach args rb = args0 args rb (writes ret_each (rm_each (env_yrs env) (env_store env) intr m rb (map_option (\<lambda>b (k, v). b [k, v]) block) rb))"

fun text_native ::
  "('d, 'id) native_env \<Rightarrow> string option \<Rightarrow> 'id \<Rightarrow> text_method \<Rightarrow> rvalue list \<Rightarrow> 'd rb_doc \<Rightarrow> ('d, 'id) call_result" where
  "text_native env intr t TxtToS args rb = args0 args rb (reads ret_str (rt_to_s (env_store env) intr t rb) rb)"
| "text_native env intr t TxtPush args rb =
     args1 args rb (\<lambda>s. with_arg (arg_str env s) rb (\<lambda>s. writes (\<lambda>_. RetSelf) (rt_push (env_store env) (env_tu env) intr t s rb)))"
| "text_native env intr t TxtInsert args rb =
     args2 args rb (\<lambda>i s. with_arg (arg_int env i) rb (\<lambda>i. with_arg (arg_str env s) rb (\<lambda>s.
       writes (\<lambda>_. RetSelf) (rt_insert (env_store env) (env_tu env) intr t i s rb))))"
| "text_native env intr t TxtDelete args rb =
     args2 args rb (\<lambda>i n. with_arg (arg_int env i) rb (\<lambda>i. with_arg (arg_int env n) rb (\<lambda>n.
       writes ret_nil (rt_delete (env_store env) (env_tu env) intr t i n rb))))"
| "text_native env intr t TxtClear args rb = args0 args rb (writes ret_nil (rt_clear (env_store env) (env_tu env) intr t rb))"
| "text_native env intr t TxtLength args rb = args0 args rb (reads ret_nat (rt_length (env_store env) intr t rb) rb)"
| "text_native env intr t TxtIsEmpty args rb = args0 args rb (reads ret_bool (rt_is_empty (env_store env) intr t rb) rb)"
| "text_native env intr t TxtIndexAt args rb =
     args1 args rb (\<lambda>p. with_arg (arg_hash env p) rb (\<lambda>p.
       reads (ret_option ret_nat) (rt_index_at (env_int env) (env_string env) (env_store env) intr t p rb) rb))"
| "text_native env intr t TxtRelativePosition args rb =
     args2 args rb (\<lambda>i s. with_arg (arg_int env i) rb (\<lambda>i. with_arg (arg_str env s) rb (\<lambda>s.
       reads ret_hash (rt_native_relative_position (env_store env) intr t i s rb) rb)))"

fun xml_text_native ::
  "('d, 'id) native_env \<Rightarrow> string option \<Rightarrow> 'id rb_xml_text \<Rightarrow> xml_text_method \<Rightarrow> rvalue list \<Rightarrow> 'd rb_doc
     \<Rightarrow> ('d, 'id) call_result" where
  "xml_text_native env intr h XtToS args rb = args0 args rb (reads ret_str (rx_to_s (env_store env) intr h rb) rb)"
| "xml_text_native env intr h XtText args rb = args0 args rb (reads ret_str (rx_text (env_store env) intr h rb) rb)"
| "xml_text_native env intr h XtLength args rb = args0 args rb (reads ret_nat (rx_length (env_store env) intr h rb) rb)"
| "xml_text_native env intr h XtIsEmpty args rb = args0 args rb (reads ret_bool (rx_is_empty (env_store env) intr h rb) rb)"
| "xml_text_native env intr h XtRootName args rb = args0 args rb ((Inr (ret_str (rx_root_name h)), rb))"
| "xml_text_native env intr h XtAttributes args rb = args0 args rb (reads ret_hash (rx_attributes (env_out env) (env_store env) intr h rb) rb)"
| "xml_text_native env intr h XtCount args rb = args0 args rb (reads ret_nat (rx_xml_text_count (env_store env) intr h rb) rb)"
| "xml_text_native env intr h XtEndsWith args rb = args0 args rb (reads ret_bool (rx_ends_with_xml_text (env_store env) intr h rb) rb)"
| "xml_text_native env intr h XtSetAttribute args rb =
     args2 args rb (\<lambda>k v. with_arg (arg_str env k) rb (\<lambda>k.
       writes RetValue (rx_set_attribute (conv_to_s (env_conv env)) (env_store env) (env_tu env) intr h k v rb)))"
| "xml_text_native env intr h XtInsert args rb =
     args2 args rb (\<lambda>i s. with_arg (arg_int env i) rb (\<lambda>i. with_arg (arg_str env s) rb (\<lambda>s.
       writes ret_str (rx_insert (env_store env) (env_tu env) intr h i s rb))))"
| "xml_text_native env intr h XtInsertEmbed args rb =
     args2 args rb (\<lambda>i v. with_arg (arg_int env i) rb (\<lambda>i.
       writes RetValue (rx_insert_embed (conv_to_s (env_conv env)) (env_store env) (env_tu env) intr h i v rb)))"
| "xml_text_native env intr h XtAppend args rb =
     args1 args rb (\<lambda>vs. with_arg (arg_ary env vs) rb (\<lambda>vs.
       writes_content (\<lambda>_. RetSelf) (rx_append (conv_to_s (env_conv env)) (conv_to_hash (env_conv env))
         (conv_to_ary (env_conv env)) (env_store env) (env_tu env) intr h vs rb)))"
| "xml_text_native env intr h XtReplace args rb =
     args1 args rb (\<lambda>vs. with_arg (arg_ary env vs) rb (\<lambda>vs.
       writes_content (\<lambda>_. RetSelf) (rx_replace (conv_to_s (env_conv env)) (conv_to_hash (env_conv env))
         (conv_to_ary (env_conv env)) (env_store env) (env_tu env) intr h vs rb)))"
| "xml_text_native env intr h XtAppendText args rb =
     args2 args rb (\<lambda>s mk. with_arg (arg_str env s) rb (\<lambda>s. with_arg (arg_hash env mk) rb (\<lambda>mk.
       writes (\<lambda>_. RetSelf) (rx_append_text (conv_to_s (env_conv env)) (env_store env) (env_tu env) intr h s mk rb))))"
| "xml_text_native env intr h XtXmlText args rb =
     args1 args rb (\<lambda>n. with_arg (arg_int env n) rb (\<lambda>n. reads (ret_option RetBlock) (rx_xml_text (env_store env) intr h n rb) rb))"
| "xml_text_native env intr h XtDelete args rb =
     args2 args rb (\<lambda>i n. with_arg (arg_int env i) rb (\<lambda>i. with_arg (arg_int env n) rb (\<lambda>n.
       writes ret_nil (rx_delete (env_store env) (env_tu env) intr h i n rb))))"
| "xml_text_native env intr h XtClear args rb = args0 args rb (writes ret_nil (rx_clear (env_store env) (env_tu env) intr h rb))"
| "xml_text_native env intr h XtInsertXmlText args rb =
     args3 args rb (\<lambda>n as vs. with_arg (arg_int env n) rb (\<lambda>n. with_arg (arg_hash env as) rb (\<lambda>as. with_arg (arg_ary env vs) rb (\<lambda>vs.
       writes_content RetBlock (rx_insert_xml_text (conv_to_s (env_conv env)) (conv_to_hash (env_conv env))
         (conv_to_ary (env_conv env)) (env_store env) (env_tu env) intr h n as vs rb)))))"
| "xml_text_native env intr h XtDeleteXmlText args rb =
     args1 args rb (\<lambda>n. with_arg (arg_int env n) rb (\<lambda>n.
       writes ret_bool (rx_delete_xml_text (env_store env) (env_tu env) intr h n rb)))"
| "xml_text_native env intr h XtRelativePosition args rb =
     args2 args rb (\<lambda>i s. with_arg (arg_int env i) rb (\<lambda>i. with_arg (arg_str env s) rb (\<lambda>s.
       reads ret_hash (rx_native_relative_position (env_store env) intr h i s rb) rb)))"
| "xml_text_native env intr h XtBlockPosition args rb = args0 args rb (reads ret_hash (rx_native_block_position (env_store env) intr h rb) rb)"

section \<open>A call from Ruby\<close>

datatype 'id receiver = YArray 'id | YMap 'id | YText 'id | YXmlText "'id rb_xml_text"

definition send_to ::
  "'op method_row list \<Rightarrow> ('op \<Rightarrow> rvalue list \<Rightarrow> 's \<Rightarrow> ('s, 'r) native_result) \<Rightarrow> bool \<Rightarrow> string \<Rightarrow> rvalue list
     \<Rightarrow> 's \<Rightarrow> ('s, 'r) native_result" where
  "send_to rows native explicit_receiver name args s =
     (case find_method rows explicit_receiver name (length args) of
        Inl e \<Rightarrow> (Inl (Lookup e), s)
      | Inr op \<Rightarrow> native op args s)"

definition ruby_call ::
  "('d, 'id) native_env \<Rightarrow> string option \<Rightarrow> (rvalue list \<Rightarrow> ('d rb_doc, rvalue) txn) option \<Rightarrow> bool \<Rightarrow> 'id receiver \<Rightarrow> string
     \<Rightarrow> rvalue list \<Rightarrow> 'd rb_doc \<Rightarrow> ('d, 'id) call_result" where
  "ruby_call env intr block explicit_receiver recv name args rb =
     (case recv of
        YArray a \<Rightarrow> send_to array_define (array_native env intr block a) explicit_receiver name args rb
      | YMap m \<Rightarrow> send_to map_define (map_native env intr block m) explicit_receiver name args rb
      | YText t \<Rightarrow> send_to text_define (text_native env intr t) explicit_receiver name args rb
      | YXmlText h \<Rightarrow> send_to xml_text_define (xml_text_native env intr h) explicit_receiver name args rb)"

section \<open>One transaction per call\<close>

lemma commits_once_refl [simp]: "commits_once tu rb rb"
  by (simp add: commits_once_def)

lemma commits_with_arg: "(\<And>x. commits_once tu rb (snd (f x))) \<Longrightarrow> commits_once tu rb (snd (with_arg v rb f))"
  by (simp add: with_arg_def split: sum.split)

lemma commits_args:
  "commits_once tu rb (snd r) \<Longrightarrow> commits_once tu rb (snd (args0 args rb r))"
  "(\<And>v. commits_once tu rb (snd (f v))) \<Longrightarrow> commits_once tu rb (snd (args1 args rb f))"
  "(\<And>v w. commits_once tu rb (snd (g v w))) \<Longrightarrow> commits_once tu rb (snd (args2 args rb g))"
  "(\<And>v w x. commits_once tu rb (snd (h v w x))) \<Longrightarrow> commits_once tu rb (snd (args3 args rb h))"
  by (simp_all add: args0_def args1_def args2_def args3_def split: list.split)

lemma commits_reads: "commits_once tu rb (snd (reads f r rb))"
  by (simp add: reads_def)

lemma commits_writes:
  "commits_once tu rb (snd p) \<Longrightarrow> commits_once tu rb (snd (writes f p))"
  "commits_once tu rb (snd q) \<Longrightarrow> commits_once tu rb (snd (writes_content g q))"
  by (simp_all add: writes_def writes_content_def)

lemma commits_each: "commits_once tu rb (snd (each_with None snapshot rb))"
  by (simp add: each_with_def)

lemma commits_content:
  "commits_once tu rb (snd (rx_append to_s to_hash to_ary st tu intr h vs rb))"
  "commits_once tu rb (snd (rx_replace to_s to_hash to_ary st tu intr h vs rb))"
  by (simp_all add: rx_append_def rx_replace_def handle_ops [THEN local_op_commits])

lemmas commits_rules = commits_with_arg commits_args commits_reads commits_writes commits_content
  handle_ops [THEN local_op_commits]

lemma array_native_commits: "commits_once (env_tu env) rb (snd (array_native env intr None a op args rb))"
  by (cases op) (simp_all add: commits_rules ra_each_def commits_each)

lemma map_native_commits: "commits_once (env_tu env) rb (snd (map_native env intr None m op args rb))"
  by (cases op) (simp_all add: commits_rules rm_each_def commits_each)

lemma text_native_commits: "commits_once (env_tu env) rb (snd (text_native env intr t op args rb))"
  by (cases op) (simp_all add: commits_rules)

lemma xml_text_native_commits: "commits_once (env_tu env) rb (snd (xml_text_native env intr h op args rb))"
  by (cases op) (simp_all add: commits_rules commits_args(1))

section \<open>Refused calls\<close>

text \<open>The errors raised while Ruby values are read, before a transaction is opened.\<close>

fun refuses :: "call_error \<Rightarrow> bool" where
  "refuses (Lookup e) = True"
| "refuses (ArgType e) = True"
| "refuses (ContentError e) = True"
| "refuses (SyncError e) = False"
| "refuses (OpError e) = (case e of ValueErr v \<Rightarrow> True | _ \<Rightarrow> False)"

text \<open>A call that is refused leaves the document alone.\<close>

definition clean :: "'s \<Rightarrow> ('s, 'r) native_result \<Rightarrow> bool" where
  "clean s p \<longleftrightarrow> (\<forall>e. fst p = Inl e \<longrightarrow> refuses e \<longrightarrow> snd p = s)"

lemma clean_with_arg: "(\<And>x. clean rb (f x)) \<Longrightarrow> clean rb (with_arg v rb f)"
  by (simp add: with_arg_def clean_def split: sum.split)

lemma clean_args:
  "clean rb r \<Longrightarrow> clean rb (args0 args rb r)"
  "(\<And>v. clean rb (f v)) \<Longrightarrow> clean rb (args1 args rb f)"
  "(\<And>v w. clean rb (g v w)) \<Longrightarrow> clean rb (args2 args rb g)"
  "(\<And>v w x. clean rb (h v w x)) \<Longrightarrow> clean rb (args3 args rb h)"
  by (simp_all add: args0_def args1_def args2_def args3_def clean_def split: list.split)

lemma clean_reads: "clean rb (reads f r rb)"
  by (simp add: reads_def clean_def)

text \<open>The same for the operations: a value that cannot be read stops them first, and \<open>guarded\<close> only
  fails with an interrupt or a \<open>Y::Error\<close>.\<close>

definition value_clean :: "'d rb_doc \<Rightarrow> (handle_error + 'a) \<times> 'd rb_doc \<Rightarrow> bool" where
  "value_clean rb p \<longleftrightarrow> (\<forall>v. fst p = Inl (ValueErr v) \<longrightarrow> snd p = rb)"

definition content_clean :: "'d rb_doc \<Rightarrow> (piece_error + handle_error + 'a) \<times> 'd rb_doc \<Rightarrow> bool" where
  "content_clean rb p \<longleftrightarrow>
     (\<forall>e. fst p = Inl e \<longrightarrow> snd p = rb) \<and> (\<forall>v. fst p = Inr (Inl (ValueErr v)) \<longrightarrow> snd p = rb)"

lemma guarded_no_value: "guarded intr r \<noteq> Inl (ValueErr e)"
  by (cases intr; cases r) (simp_all add: guarded_def nogvl_def)

lemma map_sum_Inl_iff:
  "map_sum f g r = Inl e \<longleftrightarrow> (\<exists>x. r = Inl x \<and> e = f x)" "Inl e = map_sum f g r \<longleftrightarrow> (\<exists>x. r = Inl x \<and> e = f x)"
  by (cases r; auto)+

lemma value_clean_rules:
  "value_clean rb (write_txn tu intr rb f)"
  "(\<And>x. value_clean rb (g x)) \<Longrightarrow> value_clean rb (with_value v rb g)"
  "value_clean rb p \<Longrightarrow> value_clean rb (apfst (map_sum id h) p)"
  "value_clean rb (each_with block snapshot rb)"
  by (auto simp: value_clean_def write_txn_def guarded_no_value with_value_def map_sum_Inl_iff each_with_def
      split: prod.split sum.split option.split)

lemma content_clean_rules:
  "(\<And>x. content_clean rb (g x)) \<Longrightarrow> content_clean rb (with_piece v rb g)"
  "content_clean rb (apfst (\<lambda>r. Inr (map_sum id h r)) (write_txn tu intr rb f))"
  "content_clean rb (apfst Inr (write_txn tu intr rb f))"
  "content_clean rb p \<Longrightarrow> content_clean rb (apfst (map_sum id (map_sum id k)) p)"
  by (auto simp: content_clean_def write_txn_def guarded_no_value with_piece_def map_sum_Inl_iff
      split: prod.split sum.split elim!: map_sum_InrE)

lemma clean_writes:
  "value_clean rb p \<Longrightarrow> clean rb (writes f p)"
  "content_clean rb q \<Longrightarrow> clean rb (writes_content g q)"
  by (auto simp: clean_def writes_def writes_content_def value_clean_def content_clean_def map_sum_Inl_iff
      split: handle_error.splits sum.splits)

lemma clean_Inr: "clean rb (Inr x, rb)"
  by (simp add: clean_def)

lemmas clean_rules = clean_with_arg clean_args clean_reads clean_writes clean_Inr value_clean_rules content_clean_rules

lemma array_native_clean: "clean rb (array_native env intr block a op args rb)"
  by (cases op)
    (simp_all add: clean_rules ra_set_def ra_push_def ra_insert_def ra_insert_at_def ra_insert_text_def ra_delete_at_def
      ra_clear_def ra_each_def)

lemma map_native_clean: "clean rb (map_native env intr block m op args rb)"
  by (cases op)
    (simp_all add: clean_rules rm_set_def rm_set_text_def rm_delete_def rm_clear_def rm_each_def)

lemma text_native_clean: "clean rb (text_native env intr t op args rb)"
  by (cases op)
    (simp_all add: clean_rules rt_push_def rt_insert_def rt_insert_at_def rt_delete_def rt_clear_def)

lemma xml_text_native_clean: "clean rb (xml_text_native env intr h op args rb)"
  by (cases op)
    (simp_all add: clean_rules rx_set_attribute_def rx_insert_def rx_insert_embed_def rx_append_def rx_replace_def
      rx_write_content_def rx_append_text_def rx_delete_def rx_clear_def rx_insert_xml_text_def rx_delete_xml_text_def)

section \<open>The contract of a class\<close>

text \<open>What a table promises: a name is registered once, so a call reaches the method registered
  under it.\<close>

locale method_table =
  fixes rows :: "'op method_row list"
  assumes names_once: "distinct (map fst rows)"
begin

lemma row_found: "(name, row) \<in> set rows \<Longrightarrow> map_of (rev rows) name = Some row"
  using names_once by (simp add: map_of_eq_Some_iff rev_map [symmetric])

lemma find_public:
  assumes "(name, Public, arity, op) \<in> set rows" and "0 \<le> arity \<Longrightarrow> int n = arity"
  shows "find_method rows e name n = Inr op"
  using row_found [OF assms(1)] assms(2) by (auto simp: find_method_def)

lemma find_private:
  assumes "(name, Private, arity, op) \<in> set rows"
  shows "find_method rows True name n = Inl PrivateCall"
    and "(0 \<le> arity \<Longrightarrow> int n = arity) \<Longrightarrow> find_method rows False name n = Inr op"
  using row_found [OF assms(1)] by (auto simp: find_method_def)

end

text \<open>A class: its methods, refusing their arguments, have not touched the receiver's state.\<close>

locale native_class = method_table rows
  for rows :: "'op method_row list" +
  fixes native :: "'op \<Rightarrow> rvalue list \<Rightarrow> 's \<Rightarrow> ('s, 'r) native_result"
  assumes native_clean: "clean s (native op args s)"
begin

lemma call_clean: "clean s (send_to rows native e name args s)"
  using native_clean by (simp add: send_to_def clean_def split: sum.split)

lemma public_runs:
  assumes "(name, Public, arity, op) \<in> set rows" and "0 \<le> arity \<Longrightarrow> int (length args) = arity"
  shows "send_to rows native e name args s = native op args s"
  using find_public [OF assms] by (simp add: send_to_def)

lemma private_refused:
  assumes "(name, Private, arity, op) \<in> set rows"
  shows "send_to rows native True name args s = (Inl (Lookup PrivateCall), s)"
  using find_private(1) [OF assms] by (simp add: send_to_def)

end

text \<open>A class whose methods, called without a block, commit at most one local transaction each.\<close>

locale native_writer = native_class rows native
  for rows :: "'op method_row list" and native :: "'op \<Rightarrow> rvalue list \<Rightarrow> 'd rb_doc \<Rightarrow> ('d rb_doc, 'r) native_result" +
  fixes tu :: "'d \<Rightarrow> 'd \<Rightarrow> bytes option"
  assumes native_commits: "commits_once tu rb (snd (native op args rb))"
begin

lemma call_commits: "commits_once tu rb (snd (send_to rows native e name args rb))"
  using native_commits by (simp add: send_to_def split: sum.split)

end

interpretation arr: native_class array_define "array_native env intr block a" for env intr block a
  by unfold_locales (rule distinct_names array_native_clean)+

interpretation mp: native_class map_define "map_native env intr block m" for env intr block m
  by unfold_locales (rule distinct_names map_native_clean)+

interpretation tx: native_class text_define "text_native env intr t" for env intr t
  by unfold_locales (rule distinct_names text_native_clean)+

interpretation xt: native_class xml_text_define "xml_text_native env intr h" for env intr h
  by unfold_locales (rule distinct_names xml_text_native_clean)+

interpretation arr_w: native_writer array_define "array_native env intr None a" "env_tu env" for env intr a
  by unfold_locales (rule array_native_commits)

interpretation mp_w: native_writer map_define "map_native env intr None m" "env_tu env" for env intr m
  by unfold_locales (rule map_native_commits)

interpretation tx_w: native_writer text_define "text_native env intr t" "env_tu env" for env intr t
  by unfold_locales (rule text_native_commits)

interpretation xt_w: native_writer xml_text_define "xml_text_native env intr h" "env_tu env" for env intr h
  by unfold_locales (rule xml_text_native_commits)

lemma ruby_call_clean: "clean rb (ruby_call env intr block e recv name args rb)"
  by (cases recv) (simp_all add: ruby_call_def arr.call_clean mp.call_clean tx.call_clean xt.call_clean)

lemma ruby_call_commits: "commits_once (env_tu env) rb (snd (ruby_call env intr None e recv name args rb))"
  by (cases recv)
    (simp_all add: ruby_call_def arr_w.call_commits mp_w.call_commits tx_w.call_commits xt_w.call_commits)

text \<open>A sequence of calls: interrupt, explicit receiver, receiver, name and arguments of each.\<close>

definition ruby_run ::
  "('d, 'id) native_env \<Rightarrow> 'd rb_doc \<Rightarrow> string option \<times> bool \<times> 'id receiver \<times> string \<times> rvalue list \<Rightarrow> 'd rb_doc" where
  "ruby_run env rb call = (case call of (intr, e, recv, name, args) \<Rightarrow> snd (ruby_call env intr None e recv name args rb))"

lemma ruby_run_commits: "commits_once (env_tu env) rb (ruby_run env rb call)"
  by (simp add: ruby_run_def ruby_call_commits split: prod.split)

end
