(* ===== verification/PmMarkup.thy ===== *)
theory PmMarkup
  imports ProseMirror
begin

text \<open>
  The output of the ProseMirror renderer is well-formed markup: every function of
  \<open>ProseMirror\<close> that writes to the emitter writes a string of the grammar \<open>markup\<close> over the
  vocabulary \<open>pm_vocab\<close>, the built-in tags and attributes and those the rules name.  The
  block loop is covered by interpreting \<open>block_walker\<close>.
\<close>

definition node_rule_tags :: "rules \<Rightarrow> string set" where
  "node_rule_tags rs = {t. \<exists>k v as tx c. (k, Declarative t v as tx c) \<in> set (nodes rs)}"

definition node_rule_voids :: "rules \<Rightarrow> string set" where
  "node_rule_voids rs = {t. \<exists>k as tx c. (k, Declarative t True as tx c) \<in> set (nodes rs)}"

definition node_rule_attrs :: "rules \<Rightarrow> string set" where
  "node_rule_attrs rs =
     {n. \<exists>k t v as tx c. (k, Declarative t v as tx c) \<in> set (nodes rs) \<and> n \<in> fst ` set as}"

definition callback_types :: "rules \<Rightarrow> string set" where
  "callback_types rs = {k. \<exists>c. hm_get (nodes rs) k = Some (Callback c)}"

definition mark_rule_tags :: "rules \<Rightarrow> string set" where
  "mark_rule_tags rs = mark_tag ` snd ` set (marks rs)"

definition mark_rule_attrs :: "rules \<Rightarrow> string set" where
  "mark_rule_attrs rs = (\<Union>r \<in> snd ` set (marks rs). fst ` set (mark_attrs r))"

definition pm_vocab :: "rules \<Rightarrow> vocab" where
  "pm_vocab rs =
     \<lparr>v_tags = {''p'', ''h1'', ''h2'', ''h3'', ''h4'', ''h5'', ''h6'', ''pre'', ''code'', ''blockquote'',
        ''ul'', ''ol'', ''li'', ''table'', ''tbody'', ''tr'', ''th'', ''td'', ''a'', ''span'', ''strong'',
        ''em'', ''s'', ''u'', ''mark'', ''sub'', ''sup''} \<union> node_rule_tags rs \<union> mark_rule_tags rs,
      v_voids = {''hr'', ''br'', ''img''} \<union> node_rule_voids rs,
      v_attrs = {''class'', ''start'', ''colspan'', ''rowspan'', ''src'', ''alt'', ''title'', ''target'',
        ''rel'', ''href'', ''style''} \<union> node_rule_attrs rs \<union> mark_rule_attrs rs,
      v_deferred = callback_types rs\<rparr>"

definition rule_in :: "vocab \<Rightarrow> string \<Rightarrow> node_rule \<Rightarrow> bool" where
  "rule_in voc nt r = (case r of
      Callback _ \<Rightarrow> nt \<in> v_deferred voc
    | Declarative t v as tx c \<Rightarrow>
        t \<in> v_tags voc \<and> (v \<longrightarrow> t \<in> v_voids voc) \<and> fst ` set as \<subseteq> v_attrs voc)"

lemma rule_in_vocab: "hm_get (nodes rs) k = Some r \<Longrightarrow> rule_in (pm_vocab rs) k r"
proof (cases r)
  case (Declarative t v as tx c)
  assume "hm_get (nodes rs) k = Some r"
  from map_of_SomeD [OF this] Declarative show ?thesis
    by (fastforce simp: rule_in_def pm_vocab_def node_rule_tags_def node_rule_voids_def node_rule_attrs_def)
qed (auto simp: rule_in_def pm_vocab_def callback_types_def)

section \<open>Escaping\<close>

lemma pm_escape_text_eq: "pm_escape_text s = esc_text s"
  by (induction s) (simp_all add: pm_escape_text_def esc_text_def esc_text_char_def)

lemma pm_escape_attr_eq: "pm_escape_attr s = esc_attr s"
  unfolding pm_escape_attr_def pm_escape_text_eq
  by (induction s) (simp_all add: esc_text_def esc_attr_def esc_attr_char_def esc_text_char_def)

section \<open>Marks\<close>

definition mark_pair :: "vocab \<Rightarrow> string \<times> string \<Rightarrow> bool" where
  "mark_pair voc p \<longleftrightarrow> (\<exists>t as. t \<in> v_tags voc \<and> fst ` set as \<subseteq> v_attrs voc
     \<and> fst p = open_tag t as \<and> snd p = close_tag t)"

lemma mark_pair_tag: "t \<in> v_tags voc \<Longrightarrow> mark_pair voc (tag_pair t)"
  unfolding mark_pair_def by (intro exI [of _ t] exI [of _ "[]"]) (simp add: tag_pair_def open_tag_def close_tag_def)

text \<open>The prefix of a tag written attribute by attribute.\<close>

definition attrs_prefix :: "vocab \<Rightarrow> string \<Rightarrow> string \<Rightarrow> bool" where
  "attrs_prefix voc t s \<longleftrightarrow>
     (\<exists>as. fst ` set as \<subseteq> v_attrs voc \<and> s = ''<'' @ t @ concat (map attr_str as))"

lemma attrs_prefix_start: "attrs_prefix voc t (''<'' @ t)"
  unfolding attrs_prefix_def by (rule exI [of _ "[]"]) simp

lemma attrs_prefix_add:
  "attrs_prefix voc t s \<Longrightarrow> n \<in> v_attrs voc \<Longrightarrow>
    attrs_prefix voc t (s @ '' '' @ n @ ''='' @ dquote @ esc_attr v @ dquote)"
  unfolding attrs_prefix_def
  by (elim exE, rename_tac as, rule_tac x = "as @ [(n, v)]" in exI) (auto simp: attr_str_def)

lemma attrs_prefix_foldl:
  "attrs_prefix voc t s \<Longrightarrow> (\<And>s x. attrs_prefix voc t s \<Longrightarrow> x \<in> set xs \<Longrightarrow> attrs_prefix voc t (f s x)) \<Longrightarrow>
    attrs_prefix voc t (foldl f s xs)"
proof (induction xs arbitrary: s)
  case (Cons x xs)
  have "attrs_prefix voc t (f s x)" using Cons.prems by simp
  then show ?case using Cons.prems(2) by (auto intro: Cons.IH)
qed simp

lemma attrs_prefix_pair:
  "attrs_prefix voc t s \<Longrightarrow> t \<in> v_tags voc \<Longrightarrow> mark_pair voc (s @ ''>'', ''</'' @ t @ ''>'')"
  unfolding attrs_prefix_def mark_pair_def by (auto simp: open_tag_def close_tag_def)

lemma pm_link_pair: "mark_pair (pm_vocab rs) (pm_link_open link, ''</a>'')"
proof -
  let ?v = "pm_vocab rs"
  have "attrs_prefix ?v ''a'' (foldl (pm_link_step link) ''<a''
      [''target'', ''rel'', ''class'', ''href'', ''title''])"
  proof (rule attrs_prefix_foldl)
    show "attrs_prefix ?v ''a'' ''<a''" using attrs_prefix_start [of ?v "''a''"] by simp
    show "attrs_prefix ?v ''a'' (pm_link_step link s k)"
      if "attrs_prefix ?v ''a'' s" "k \<in> set [''target'', ''rel'', ''class'', ''href'', ''title'']" for s k
    proof -
      have "k \<in> v_attrs ?v" using that(2) by (auto simp: pm_vocab_def)
      from attrs_prefix_add [OF that(1) this] that(1) show ?thesis
        by (simp add: pm_link_step_def pm_escape_attr_eq split: option.splits any.splits)
    qed
  qed
  from attrs_prefix_pair [OF this] show ?thesis
    by (simp add: pm_link_open_def pm_vocab_def)
qed

lemma pm_custom_pair:
  assumes "hm_get (marks rs) name = Some rule"
  shows "mark_pair (pm_vocab rs) (pm_custom_mark_open y rule value, ''</'' @ mark_tag rule @ ''>'')"
proof -
  let ?v = "pm_vocab rs"
  have mem: "(name, rule) \<in> set (marks rs)" using assms by (rule map_of_SomeD)
  then have tag: "mark_tag rule \<in> v_tags ?v"
    by (force simp: pm_vocab_def mark_rule_tags_def)
  have names: "fst ` set (mark_attrs rule) \<subseteq> v_attrs ?v"
    using mem by (force simp: pm_vocab_def mark_rule_attrs_def)
  let ?f = "\<lambda>out (attr, parts). case resolve_parts parts (pm_mark_ref_attr y value) of
           Some v \<Rightarrow> out @ '' '' @ attr @ ''='' @ dquote @ pm_escape_attr v @ dquote
         | None \<Rightarrow> out"
  have "attrs_prefix ?v (mark_tag rule) (foldl ?f (''<'' @ mark_tag rule) (mark_attrs rule))"
  proof (rule attrs_prefix_foldl [OF attrs_prefix_start])
    fix s x assume s: "attrs_prefix ?v (mark_tag rule) s" and x: "x \<in> set (mark_attrs rule)"
    then have "fst x \<in> v_attrs ?v" using names by auto
    from attrs_prefix_add [OF s this] s show "attrs_prefix ?v (mark_tag rule) (?f s x)"
      by (cases x) (simp add: pm_escape_attr_eq split: option.splits)
  qed
  from attrs_prefix_pair [OF this tag] show ?thesis
    by (simp add: pm_custom_mark_open_def)
qed

lemma pm_style_pair:
  "mark_pair (pm_vocab rs)
     (''<span style='' @ dquote @ pm_escape_attr css @ dquote @ ''>'', ''</span>'')"
  unfolding mark_pair_def
  by (intro exI [of _ "''span''"] exI [of _ "[(''style'', css)]"])
    (simp add: pm_vocab_def open_tag_def close_tag_def attr_str_def pm_escape_attr_eq)

lemma pm_format_stack_pairs: "p \<in> set (pm_format_stack ms rs) \<Longrightarrow> mark_pair (pm_vocab rs) p"
  unfolding pm_format_stack_def
  by (auto simp: Let_def pm_style_pair [simplified] split: if_splits option.splits any.splits
      intro!: mark_pair_tag) (auto simp: pm_vocab_def)

lemma pm_custom_stack_pairs: "p \<in> set (pm_custom_stack y ms rs) \<Longrightarrow> mark_pair (pm_vocab rs) p"
  unfolding pm_custom_stack_def
  by (auto split: option.splits dest!: sym [of "Some _"] intro: pm_custom_pair [simplified])

lemma pm_run_stack_pairs: "p \<in> set (pm_run_stack y attrs rs) \<Longrightarrow> mark_pair (pm_vocab rs) p"
proof (cases attrs)
  case (Some ms)
  have code: "mark_pair (pm_vocab rs) (tag_pair ''code'')"
    by (rule mark_pair_tag) (simp add: pm_vocab_def)
  assume "p \<in> set (pm_run_stack y attrs rs)"
  then consider "p = tag_pair ''code''" | "p \<in> set (pm_format_stack ms rs)"
    | link where "p = (pm_link_open link, ''</a>'')" | "p \<in> set (pm_custom_stack y ms rs)"
    by (auto simp: pm_run_stack_def Some split: if_splits option.splits any.splits)
  then show ?thesis
    by cases (auto intro: code pm_format_stack_pairs pm_link_pair pm_custom_stack_pairs)
qed (simp add: pm_run_stack_def)

section \<open>Text runs\<close>

text \<open>\<open>in_marks voc ps pre\<close>: \<open>pre\<close> is well-formed except that the wrappers \<open>ps\<close>
  (outermost first) are still open.\<close>

inductive in_marks :: "vocab \<Rightarrow> (string \<times> string) list \<Rightarrow> item list \<Rightarrow> bool" for voc where
  none: "markup voc pre \<Longrightarrow> in_marks voc [] pre"
| wrap: "in_marks voc ps pre \<Longrightarrow> mark_pair voc p \<Longrightarrow> markup voc body \<Longrightarrow>
     in_marks voc (ps @ [p]) (pre @ chs (fst p) @ body)"

inductive_cases in_marks_NilE: "in_marks voc [] pre"
inductive_cases in_marks_snocE: "in_marks voc (ps @ [p]) pre"

lemma in_marks_append: "in_marks voc ps pre \<Longrightarrow> markup voc m \<Longrightarrow> in_marks voc ps (pre @ m)"
proof (induction rule: in_marks.induct)
  case (none pre)
  then show ?case by (intro in_marks.none markup.m_append)
next
  case (wrap ps pre p body)
  then have "in_marks voc (ps @ [p]) (pre @ chs (fst p) @ (body @ m))"
    by (intro in_marks.wrap markup.m_append)
  then show ?case by simp
qed

lemma in_marks_open: "in_marks voc ps pre \<Longrightarrow> mark_pair voc p \<Longrightarrow> in_marks voc (ps @ [p]) (pre @ chs (fst p))"
  using in_marks.wrap [of voc ps pre p "[]"] by (simp add: markup.m_empty)

lemma in_marks_close: "in_marks voc (ps @ [p]) pre \<Longrightarrow> in_marks voc ps (pre @ chs (snd p))"
proof (erule in_marks.cases)
  fix ps' pre' p' body
  assume *: "ps @ [p] = ps' @ [p']" "pre = pre' @ chs (fst p') @ body"
    "in_marks voc ps' pre'" "mark_pair voc p'" "markup voc body"
  then obtain t as where "t \<in> v_tags voc" "fst ` set as \<subseteq> v_attrs voc"
      "fst p = open_tag t as" "snd p = close_tag t"
    by (auto simp: mark_pair_def)
  with * have "markup voc (chs (fst p) @ body @ chs (snd p))"
    by (auto intro: markup.m_element)
  with * show "in_marks voc ps (pre @ chs (snd p))"
    using in_marks_append by fastforce
qed simp

lemma in_marks_opens:
  "in_marks voc ps pre \<Longrightarrow> \<forall>p \<in> set qs. mark_pair voc p \<Longrightarrow>
    in_marks voc (ps @ qs) (pre @ chs (concat (map fst qs)))"
proof (induction qs arbitrary: ps pre)
  case (Cons q qs)
  have "in_marks voc ((ps @ [q]) @ qs) ((pre @ chs (fst q)) @ chs (concat (map fst qs)))"
    using Cons.prems by (intro Cons.IH in_marks_open) simp_all
  then show ?case by simp
qed simp

lemma in_marks_closes:
  "in_marks voc (ps @ qs) pre \<Longrightarrow> in_marks voc ps (pre @ chs (concat (map snd (rev qs))))"
proof (induction qs arbitrary: pre rule: rev_induct)
  case (snoc q qs)
  have "in_marks voc ((ps @ qs) @ [q]) pre" using snoc.prems by simp
  from snoc.IH [OF in_marks_close [OF this]] show ?case by simp
qed simp

lemma takeWhile_zip_prefix:
  "take (length (takeWhile (\<lambda>(a, b). a = b) (zip xs ys))) xs
     = take (length (takeWhile (\<lambda>(a, b). a = b) (zip xs ys))) ys"
  by (induction xs ys rule: list_induct2') auto

lemma pm_run_step_emits:
  assumes ok: "em_ok em" and st: "\<forall>p \<in> set stack. mark_pair voc p"
  shows "\<exists>xs. emits em xs (pm_run_step opn stack s em)
           \<and> (\<forall>pre. in_marks voc opn pre \<longrightarrow> in_marks voc stack (pre @ xs))"
proof -
  define k where "k = length (takeWhile (\<lambda>(a, b). a = b) (zip opn stack))"
  let ?em1 = "foldl (\<lambda>em p. push_str em (snd p)) em (rev (drop k opn))"
  let ?em2 = "foldl (\<lambda>em p. push_str em (fst p)) ?em1 (drop k stack)"
  let ?a = "chs (concat (map snd (rev (drop k opn))))"
  let ?b = "chs (concat (map fst (drop k stack)))"
  have 1: "emits em ?a ?em1" by (rule emits_pushes [OF ok])
  have 2: "emits ?em1 ?b ?em2" by (rule emits_pushes [OF emits_em_ok [OF 1]])
  have 3: "emits ?em2 (chs (esc_text s)) (push_str ?em2 (esc_text s))"
    by (rule emits_push_str [OF emits_em_ok [OF 2]])
  have "emits em (?a @ ?b @ chs (esc_text s)) (pm_run_step opn stack s em)"
    using emits_trans [OF 1 emits_trans [OF 2 3]]
    by (simp add: pm_run_step_def k_def pm_escape_text_eq Let_def)
  moreover have "in_marks voc stack (pre @ ?a @ ?b @ chs (esc_text s))" if "in_marks voc opn pre" for pre
  proof -
    have "in_marks voc (take k opn @ drop k opn) pre" using that by simp
    then have "in_marks voc (take k stack) (pre @ ?a)"
      using in_marks_closes [of voc "take k opn" "drop k opn"] takeWhile_zip_prefix [of opn stack]
      by (simp add: k_def)
    then have "in_marks voc (take k stack @ drop k stack) ((pre @ ?a) @ ?b)"
      by (rule in_marks_opens) (use st in_set_dropD in fastforce)
    then show ?thesis
      using in_marks_append [OF _ markup.m_text] by fastforce
  qed
  ultimately show ?thesis by blast
qed

lemma pm_text_runs_loop_emits:
  "em_ok em \<Longrightarrow> \<exists>xs. emits em xs (pm_text_runs_loop y rs ds opn em)
     \<and> (\<forall>pre. in_marks (pm_vocab rs) opn pre \<longrightarrow> markup (pm_vocab rs) (pre @ xs))"
proof (induction y rs ds opn em rule: pm_text_runs_loop.induct)
  case (1 y rs opn em)
  have "markup (pm_vocab rs) (pre @ chs (concat (map snd (rev opn))))"
    if "in_marks (pm_vocab rs) opn pre" for pre
    using in_marks_closes [of _ "[]" opn pre] that by (auto elim: in_marks_NilE)
  with emits_pushes [OF 1, of snd "rev opn"] show ?case by auto
next
  case (2 y rs s attrs ds opn em)
  let ?stack = "pm_run_stack y attrs rs"
  obtain xs where xs: "emits em xs (pm_run_step opn ?stack s em)"
    "\<And>pre. in_marks (pm_vocab rs) opn pre \<Longrightarrow> in_marks (pm_vocab rs) ?stack (pre @ xs)"
    using pm_run_step_emits [OF 2(2), of ?stack "pm_vocab rs" opn s] pm_run_stack_pairs by blast
  from 2(1) [OF refl emits_em_ok [OF xs(1)]] obtain zs where zs:
    "emits (pm_run_step opn ?stack s em) zs (pm_text_runs_loop y rs ds ?stack (pm_run_step opn ?stack s em))"
    "\<And>pre. in_marks (pm_vocab rs) ?stack pre \<Longrightarrow> markup (pm_vocab rs) (pre @ zs)"
    by blast
  have "emits em (xs @ zs) (pm_text_runs_loop y rs ((OAny (AString s), attrs) # ds) opn em)"
    using emits_trans [OF xs(1) zs(1)] by (simp add: Let_def)
  moreover have "markup (pm_vocab rs) (pre @ xs @ zs)" if "in_marks (pm_vocab rs) opn pre" for pre
    using zs(2) [OF xs(2) [OF that]] by simp
  ultimately show ?case by blast
qed simp_all

lemma pm_text_runs_fine: "em_ok em \<Longrightarrow> em.fine (pm_vocab rs) em (pm_render_text_runs y t em rs)"
  using pm_text_runs_loop_emits [of em y rs "tx_diff t" "[]"] in_marks.none [OF markup.m_empty]
  unfolding em.fine_def pm_render_text_runs_def by fastforce

section \<open>Inline content\<close>

lemma pm_push_attr_fine:
  assumes "em_ok em" and "n \<in> v_attrs voc"
  shows "em.attrs_fine voc em (pm_push_attr em n v)"
proof (rule em.attrs_fine_wrote [OF assms(2), of _ v])
  show "emits em (chs (attr_str (n, v))) (pm_push_attr em n v)"
    using emits_puts [OF assms(1), of "['' '', n, ''='' @ dquote, esc_attr v, dquote]"]
    by (simp add: pm_push_attr_def em_push_def attr_str_def pm_escape_attr_eq)
qed

lemma pm_rule_attrs_fine:
  "em_ok em \<Longrightarrow> fst ` set attrs \<subseteq> v_attrs voc \<Longrightarrow> em.attrs_fine voc em (pm_rule_attrs y node attrs em)"
  unfolding pm_rule_attrs_def
  by (rule em.attrs_fine_foldl)
    (auto split: option.splits intro!: pm_push_attr_fine em.attrs_fine_refl)

lemma pm_rule_text_fine: "em_ok em \<Longrightarrow> em.fine voc em (pm_rule_text y node txt em)"
  by (auto simp: pm_rule_text_def pm_escape_text_eq split: option.splits
      intro: em.fine_refl em.fine_text)

lemma pm_push_close_emits: "em_ok em \<Longrightarrow> emits em (chs (close_tag t)) (pm_push_close em t)"
  using emits_puts [of em "[''</'', t, ''>'']"]
  by (simp add: pm_push_close_def em_push_def close_tag_def)

lemma pm_lt_emits: "em_ok em \<Longrightarrow> emits em (chs (''<'' @ t)) (push_str (em_push em ''<'') t)"
  using emits_puts [of em "[''<'', t]"] by (simp add: em_push_def)

lemma pm_render_image_fine: "em_ok em \<Longrightarrow> em.fine (pm_vocab rs) em (pm_render_image e em)"
  unfolding pm_render_image_def em_push_def
proof (rule em.fine_void [of "''img''"])
  assume ok: "em_ok em"
  show "''img'' \<in> v_voids (pm_vocab rs)" by (simp add: pm_vocab_def)
  show img: "emits em (chs (''<'' @ ''img'')) (push_str em ''<img'')"
    using emits_push_str [OF ok, of "''<img''"] by simp
  show "em.attrs_fine (pm_vocab rs) (push_str em ''<img'')
     (foldl (\<lambda>em (attr, html). case pm_str_attr e attr of None \<Rightarrow> em | Some v \<Rightarrow> pm_push_attr em html v)
       (push_str em ''<img'') [(''src'', ''src''), (''alt'', ''alt''), (''title'', ''title'')])"
    by (rule em.attrs_fine_foldl [OF emits_em_ok [OF img]])
      (auto split: option.splits intro!: pm_push_attr_fine em.attrs_fine_refl; simp add: pm_vocab_def)
qed

lemma pm_br_fine: "em_ok em \<Longrightarrow> em.fine (pm_vocab rs) em (push_str em ''<br>'')"
  using markup.m_void [of "''br''" "pm_vocab rs" "[]"]
  by (intro em.fine_markup) (simp_all add: open_tag_def pm_vocab_def)

lemma pm_hr_fine: "em_ok em \<Longrightarrow> em.fine (pm_vocab rs) em (push_str em ''<hr>'')"
  using markup.m_void [of "''hr''" "pm_vocab rs" "[]"]
  by (intro em.fine_markup) (simp_all add: open_tag_def pm_vocab_def)

text \<open>A declarative rule: its opening tag, a well-formed body, its closing tag; or, for a
  void rule, the opening tag alone.\<close>

lemma pm_rule_open_emits:
  fixes voc :: vocab
  assumes "em_ok em" and "fst ` set attrs \<subseteq> v_attrs voc"
  shows "\<exists>as. fst ` set as \<subseteq> v_attrs voc \<and> emits em (chs (open_tag t as)) (pm_rule_open y e t attrs em)"
proof -
  have lt: "emits em (chs (''<'' @ t)) (push_str (em_push em ''<'') t)"
    by (rule pm_lt_emits [OF assms(1)])
  from em.wrote_open [OF lt pm_rule_attrs_fine [OF emits_em_ok [OF lt] assms(2)] refl] show ?thesis
    by (simp add: pm_rule_open_def em_push_def)
qed

lemma pm_rule_element_fine:
  assumes ok: "em_ok em" and r: "rule_in voc nt (Declarative t False attrs tx c)"
    and em1: "em1 = pm_rule_text y (el_attrs e) tx (pm_rule_open y e t attrs em)"
    and body: "em_ok em1 \<Longrightarrow> em.fine voc em1 em2"
  shows "em.fine voc em (pm_push_close em2 t)"
proof -
  from r have t: "t \<in> v_tags voc" and as: "fst ` set attrs \<subseteq> v_attrs voc"
    by (simp_all add: rule_in_def)
  let ?em0 = "pm_rule_open y e t attrs em"
  obtain xs where xs: "fst ` set xs \<subseteq> v_attrs voc" "emits em (chs (open_tag t xs)) ?em0"
    using pm_rule_open_emits [OF ok as] by blast
  have tx: "em.fine voc ?em0 em1"
    unfolding em1 by (rule pm_rule_text_fine [OF emits_em_ok [OF xs(2)]])
  have all: "em.fine voc ?em0 em2"
    by (rule em.fine_trans [OF tx body [OF em.fine_ok [OF tx]]])
  show ?thesis
    by (rule em.fine_element [OF t xs(2,1) all pm_push_close_emits [OF em.fine_ok [OF all]]])
qed

lemma pm_rule_void_fine:
  assumes "em_ok em" and "rule_in voc nt (Declarative t True attrs txt c)"
  shows "em.fine voc em (pm_rule_open y e t attrs em)"
  using pm_rule_open_emits [OF assms(1), of attrs voc t y e] assms(2)
  unfolding em.fine_def rule_in_def by (auto intro: markup.m_void)

lemma pm_inline_fine:
  "em_ok em \<Longrightarrow> em.fine (pm_vocab rs) em (pm_render_inline y e d em rs)"
  "em_ok em \<Longrightarrow> em.fine (pm_vocab rs) em (pm_render_inline_nodes y ns d em rs)"
  "em_ok em \<Longrightarrow> rule_in (pm_vocab rs) (tag e) r \<Longrightarrow>
     em.fine (pm_vocab rs) em (pm_render_rule_inline y e r d em rs)"
proof (induction y e d em rs and y ns d em rs and y e r d em rs
    rule: pm_render_inline_pm_render_inline_nodes_pm_render_rule_inline.induct)
  case (1 y t as cs depth em rs)
  then show ?case by simp
next
  case (2 y depth em rs)
  then show ?case by (simp add: em.fine_refl)
next
  case (3 y t ns depth em rs)
  then show ?case
    using pm_text_runs_fine [of em rs y t] by (auto intro: em.fine_trans em.fine_ok)
next
  case (4 y f ns depth em rs)
  then show ?case by simp
next
  case (5 y child ns depth em rs)
  let ?em1 = "case hm_get (nodes rs) (tag child) of
          Some rule \<Rightarrow> pm_render_rule_inline y child rule depth em rs
        | None \<Rightarrow>
            if tag child = ''hardBreak'' \<or> tag child = ''hard_break'' then push_str em ''<br>''
            else if tag child = ''image'' then pm_render_image child em
            else if depth < MAX_DEPTH then pm_render_inline y child (depth + 1) em rs
            else em"
  have "em.fine (pm_vocab rs) em ?em1"
    using 5(1,2,4) rule_in_vocab [of rs "tag child"]
    by (auto split: option.splits intro: pm_br_fine pm_render_image_fine em.fine_refl)
  from em.fine_trans [OF this 5(3) [OF em.fine_ok [OF this]]] show ?case
    by (simp only: pm_render_inline_nodes.simps)
next
  case (6 y e cont depth em rs)
  let ?em1 = "begin_frame em"
  let ?em2 = "if cont \<noteq> NoContent \<and> depth < MAX_DEPTH
                 then pm_render_inline y e (depth + 1) ?em1 rs else ?em1"
  have ok1: "em_ok ?em1" using 6(2) by (rule em_ok_begin_frame)
  have "em.fine (pm_vocab rs) ?em1 ?em2"
    using 6(1) ok1 by (auto intro: em.fine_refl)
  from em.fine_postponed [OF 6(2) this] 6(3) show ?case
    by (auto simp: Let_def rule_in_def split: prod.splits)
next
  case (7 y e t void attrs tx cont depth em rs)
  show ?case
  proof (cases void)
    case True
    with 7 pm_rule_void_fine [of em _ "tag e" t attrs tx cont y e] show ?thesis
      by simp
  next
    case False
    let ?em1 = "pm_rule_text y (el_attrs e) tx (pm_rule_open y e t attrs em)"
    let ?em2 = "if cont \<noteq> NoContent \<and> depth < MAX_DEPTH
                then pm_render_inline y e (depth + 1) ?em1 rs else ?em1"
    have "em_ok ?em1 \<Longrightarrow> em.fine (pm_vocab rs) ?em1 ?em2"
      using 7(1) [OF refl False refl] by (auto intro: em.fine_refl)
    from pm_rule_element_fine [OF 7(2) _ refl this, of "tag e" cont] 7(3) False show ?thesis
      by (simp add: Let_def)
  qed
qed

section \<open>Blocks\<close>

lemma pm_stray_loop_fine: "em_ok em \<Longrightarrow> em.fine (pm_vocab rs) em (pm_stray_loop y ns em rs)"
proof (induction y ns em rs rule: pm_stray_loop.induct)
  case (2 y t ns em rs)
  have t: "em.fine (pm_vocab rs) em (pm_render_text_runs y t em rs)"
    by (rule pm_text_runs_fine [OF 2(2)])
  from em.fine_trans [OF t 2(1) [OF em.fine_ok [OF t]]] show ?case by simp
qed (simp_all add: em.fine_refl)

lemma pm_stray_text_fine: "em_ok em \<Longrightarrow> em.fine (pm_vocab rs) em (pm_render_stray_text y e em rs)"
  by (simp add: pm_render_stray_text_def pm_stray_loop_fine)

interpretation pml: work_loop "pm_run y rs" "pm_vocab rs" for y rs
  by unfold_locales simp_all

abbreviation pm_opened ::
  "yrs \<Rightarrow> rules \<Rightarrow> nat \<Rightarrow> emitter \<Rightarrow> emitter \<times> xml_element work list \<Rightarrow> bool" where
  "pm_opened y rs \<equiv> pml.opened y rs"

lemma pm_block_opens_shape: "\<exists>cs. pm_block_opens e d = opens (Suc d) cs"
  by (auto simp: pm_block_opens_def opens_def)

lemma pm_opened_tail:
  "wraps (pm_vocab rs) a b \<Longrightarrow> emits em (chs a) em0 \<Longrightarrow> em.fine (pm_vocab rs) em0 em' \<Longrightarrow>
    tail = [Close b] \<or> tail = [CloseOwned b] \<Longrightarrow> pm_opened y rs d em (em', pm_block_opens e d @ tail)"
  using pml.opened_tail [of rs a b em em0 em' tail y d] pm_block_opens_shape [of e d] by auto

lemma pm_opened_children:
  assumes "wraps (pm_vocab rs) a b" and "emits em (chs a) em0"
  shows "pm_opened y rs d em (pm_push_block_children y e d b em0 [] rs)"
  unfolding pm_push_block_children_eq
  by (rule pm_opened_tail [OF assms pm_stray_text_fine [OF emits_em_ok [OF assms(2)]]]) simp

lemma pm_opened_container:
  "wraps (pm_vocab rs) a b \<Longrightarrow> em_ok em \<Longrightarrow> pm_opened y rs d em (pm_open_container y e d a b em [] rs)"
  unfolding pm_open_container_def by (rule pm_opened_children [OF _ emits_push_str])

lemma pm_inline_block_fine:
  "wraps (pm_vocab rs) a b \<Longrightarrow> em_ok em \<Longrightarrow>
    em.fine (pm_vocab rs) em (push_str (pm_render_inline y e d (push_str em a) rs) b)"
  by (rule em.fine_put_wraps [where f = "\<lambda>em. pm_render_inline y e d em rs"])
    (simp_all add: pm_inline_fine)

lemma pm_heading_fine: "em_ok em \<Longrightarrow> em.fine (pm_vocab rs) em (pm_heading y e em rs)"
proof -
  assume ok: "em_ok em"
  define level where "level = clamp 1 6 (case pm_num_attr e ''level'' of Some n \<Rightarrow> n | None \<Rightarrow> 1)"
  define t where "t = [''123456'' ! nat (level - 1)]"
  have "1 \<le> level \<and> level \<le> 6"
    unfolding level_def by (rule clamp_bounds) simp
  then have "level = 1 \<or> level = 2 \<or> level = 3 \<or> level = 4 \<or> level = 5 \<or> level = 6"
    by presburger
  then have "''h'' @ t \<in> v_tags (pm_vocab rs)"
    by (auto simp: t_def pm_vocab_def)
  then have w: "wraps (pm_vocab rs) (''<h'' @ t @ ''>'') (''</h'' @ t @ ''>'')"
    using wraps_bare by fastforce
  let ?em1 = "em_push (em_push (push_str em ''<h'') t) ''>''"
  have a: "emits em (chs (''<h'' @ t @ ''>'')) ?em1"
    using emits_puts [OF ok, of "[''<h'', t, ''>'']"] by (simp add: em_push_def)
  have f: "em.fine (pm_vocab rs) ?em1 (pm_render_inline y e 0 ?em1 rs)"
    by (rule pm_inline_fine(1) [OF emits_em_ok [OF a]])
  have "em.fine (pm_vocab rs) em
     (em_push (em_push (push_str (pm_render_inline y e 0 ?em1 rs) ''</h'') t) ''>'')"
    using emits_puts [OF em.fine_ok [OF f], of "[''</h'', t, ''>'']"]
    by (intro em.fine_wraps [OF w a f]) (simp add: em_push_def)
  then show ?thesis
    by (simp add: pm_heading_def level_def t_def Let_def)
qed

lemma pm_code_block_fine: "em_ok em \<Longrightarrow> em.fine (pm_vocab rs) em (pm_code_block e em)"
proof -
  assume ok: "em_ok em"
  let ?v = "pm_vocab rs"
  define as where "as = (case pm_str_attr e ''language'' of
      Some lang \<Rightarrow> if lang = [] then [] else [(''class'', ''language-'' @ lang)] | None \<Rightarrow> [])"
  let ?a = "open_tag ''pre'' [] @ open_tag ''code'' as"
  let ?em1 = "push_str em ''<pre><code''"
  let ?em2 = "case pm_str_attr e ''language'' of
       Some lang \<Rightarrow> if lang = [] then ?em1
         else em_push (push_str (push_str ?em1 ('' class='' @ dquote @ ''language-''))
                (pm_escape_attr lang)) dquote
     | None \<Rightarrow> ?em1"
  have w: "wraps ?v ?a (close_tag ''code'' @ close_tag ''pre'')"
    by (intro wraps_nested wraps_tag) (auto simp: pm_vocab_def as_def split: option.splits)
  have a: "emits em (chs ?a) (em_push ?em2 ''>'')"
  proof (cases "as = []")
    case True
    with emits_puts [OF ok, of "[''<pre><code'', ''>'']"] show ?thesis
      by (auto simp: as_def em_push_def open_tag_def split: option.splits if_splits)
  next
    case False
    then obtain lang where "pm_str_attr e ''language'' = Some lang" "lang \<noteq> []"
      by (auto simp: as_def split: option.splits if_splits)
    with emits_puts [OF ok, of "[''<pre><code'', '' class='' @ dquote @ ''language-'',
        esc_attr lang, dquote, ''>'']"] show ?thesis
      by (simp add: as_def em_push_def open_tag_def attr_str_def pm_escape_attr_eq esc_attr_char_def
          esc_text_char_def)
  qed
  let ?em3 = "push_str (em_push ?em2 ''>'') (esc_text (pm_code_text e))"
  have f: "em.fine ?v (em_push ?em2 ''>'') ?em3" by (rule em.fine_text [OF emits_em_ok [OF a]])
  have "em.fine ?v em (push_str ?em3 ''</code></pre>'')"
    using emits_push_str [OF em.fine_ok [OF f], of "''</code></pre>''"]
    by (intro em.fine_wraps [OF w a f]) (simp add: close_tag_def)
  then show ?thesis
    by (simp add: pm_code_block_def Let_def pm_escape_text_eq)
qed

lemma pm_ordered_list_emits:
  assumes "em_ok em"
  shows "\<exists>as. fst ` set as \<subseteq> {''start''} \<and> emits em (chs (open_tag ''ol'' as)) (pm_ordered_list_open e em)"
proof -
  have bare: "emits em (chs (open_tag ''ol'' [])) (push_str em ''<ol>'')"
    using emits_push_str [OF assms, of "''<ol>''"] by (simp add: open_tag_def)
  have start: "emits em (chs (open_tag ''ol'' [(''start'', string_of_int n)]))
      (push_str (push_str (push_str em (''<ol start='' @ dquote)) (string_of_int n)) (dquote @ ''>''))" for n
    using emits_puts [OF assms, of "[''<ol start='' @ dquote, string_of_int n, dquote @ ''>'']"]
    by (simp add: open_tag_def attr_str_def)
  show ?thesis
  proof (cases "\<exists>n. pm_num_attr e ''start'' = Some n \<and> n \<noteq> 1")
    case True
    then obtain n where "pm_num_attr e ''start'' = Some n" "n \<noteq> 1" by blast
    with start [of n] show ?thesis
      by (intro exI [of _ "[(''start'', string_of_int n)]"]) (simp add: pm_ordered_list_open_def)
  next
    case False
    then have "pm_ordered_list_open e em = push_str em ''<ol>''"
      by (auto simp: pm_ordered_list_open_def split: option.splits)
    with bare show ?thesis by (intro exI [of _ "[]"]) simp
  qed
qed

lemma pm_open_cell_opened:
  assumes ok: "em_ok em" and t: "t \<in> v_tags (pm_vocab rs)"
  shows "pm_opened y rs d em (pm_open_cell y e d t (close_tag t) em [] rs)"
proof -
  let ?as = "[(''colspan'', pm_span_attr e ''colspan''), (''rowspan'', pm_span_attr e ''rowspan'')]"
  have w: "wraps (pm_vocab rs) (open_tag t ?as) (close_tag t)"
    by (rule wraps_tag [OF t]) (simp add: pm_vocab_def)
  show ?thesis
    unfolding pm_open_cell_def Let_def
    using emits_puts [OF ok, of "[''<'', t, '' colspan='' @ dquote, pm_span_attr e ''colspan'',
       dquote @ '' rowspan='' @ dquote, pm_span_attr e ''rowspan'', dquote @ ''>'']"]
    by (intro pm_opened_children [OF w])
      (simp add: open_tag_def attr_str_def em_push_def pm_span_attr_def)
qed

lemma pm_unknown_opened:
  assumes ok: "em_ok em"
  shows "pm_opened y rs d em (pm_unknown_block y e d em [] rs)"
proof (cases "pm_has_element_child e")
  case True
  with pm_opened_children [OF wraps_nothing, of em em y rs d e] emits_refl [OF ok] show ?thesis
    by (simp add: pm_unknown_block_def)
next
  case False
  have "em.fine (pm_vocab rs) (begin_frame em) (pm_render_inline y e 0 (begin_frame em) rs)"
    by (rule pm_inline_fine(1) [OF em_ok_begin_frame [OF ok]])
  then obtain c where c: "end_frame (pm_render_inline y e 0 (begin_frame em) rs) = (c, em)"
    "frame_ok c" "markup (pm_vocab rs) (seg_items c)"
    using em.fine_captured [OF ok] by blast
  have w: "wraps (pm_vocab rs) ''<p>'' ''</p>''"
    using wraps_bare [of "''p''" "pm_vocab rs"] by (simp add: pm_vocab_def)
  have "em.fine (pm_vocab rs) em (push_str (em_append (push_str em ''<p>'') c) ''</p>'')"
    by (rule em.fine_put_wraps [where f = "\<lambda>em. em_append em c", OF w ok])
      (rule em.fine_spliced [OF _ c(2,3)])
  with False c(1) show ?thesis
    by (auto simp: pm_unknown_block_def intro: pml.opened_leaf em.fine_refl [OF ok])
qed

lemma pm_rule_block_opened:
  assumes ok: "em_ok em" and r: "rule_in (pm_vocab rs) (tag e) r"
  shows "pm_opened y rs d em (pm_open_rule_block y e r d em [] rs)"
proof (cases r)
  case (Callback cont)
  let ?v = "pm_vocab rs"
  have ok1: "em_ok (begin_frame em)" by (rule em_ok_begin_frame [OF ok])
  have nt: "tag e \<in> v_deferred ?v" using r Callback by (simp add: rule_in_def)
  have opened: "pm_opened y rs d em (em', pm_block_opens e d' @ [EndDeferred (tag e) aj ct])"
    "pm_opened y rs d em (em', [EndDeferred (tag e) aj ct])"
    if "em.fine ?v (begin_frame em) em'" "d' = d" for em' d' aj ct
    using pml.opened_deferred [OF ok that(1) nt, of y d _ aj ct] pm_block_opens_shape [of e d] that(2)
    by (auto simp: opens_def) (metis append_Nil list.simps(8))
  show ?thesis
    using Callback opened(1) [OF pm_stray_text_fine [OF ok1] refl] opened(2) [OF pm_stray_text_fine [OF ok1] refl]
      opened(2) [OF pm_inline_fine(1) [OF ok1] refl] opened(2) [OF em.fine_refl [OF ok1] refl]
    by (cases cont) (auto simp: pm_push_opens_eq pm_block_opens_def Let_def split: if_splits)
next
  case (Declarative t void attrs tx cont)
  let ?v = "pm_vocab rs"
  show ?thesis
  proof (cases void)
    case True
    with pm_rule_void_fine [OF ok, of ?v "tag e" t attrs tx cont] r Declarative show ?thesis
      by (auto simp: Let_def intro: pml.opened_leaf)
  next
    case False
    have r': "rule_in ?v (tag e) (Declarative t False attrs tx cont)" using r Declarative False by simp
    let ?em1 = "pm_rule_text y (el_attrs e) tx (pm_rule_open y e t attrs em)"
    obtain as where as: "fst ` set as \<subseteq> v_attrs ?v" "emits em (chs (open_tag t as)) (pm_rule_open y e t attrs em)"
      using pm_rule_open_emits [OF ok, of attrs ?v t y e] r' by (auto simp: rule_in_def)
    have w: "wraps ?v (open_tag t as) (''</'' @ t @ ''>'')"
      using wraps_tag [OF _ as(1), of t] r' by (simp add: rule_in_def close_tag_def)
    have tx: "em.fine ?v (pm_rule_open y e t attrs em) ?em1"
      by (rule pm_rule_text_fine [OF emits_em_ok [OF as(2)]])
    have stray: "em.fine ?v (pm_rule_open y e t attrs em) (pm_render_stray_text y e ?em1 rs)"
      by (rule em.fine_trans [OF tx pm_stray_text_fine [OF em.fine_ok [OF tx]]])
    have blocks: "pm_opened y rs d em (pm_render_stray_text y e ?em1 rs,
        pm_block_opens e d @ [CloseOwned (''</'' @ t @ ''>'')])"
      by (rule pm_opened_tail [OF w as(2) stray]) simp
    have inline: "pm_opened y rs d em (pm_push_close (pm_render_inline y e 0 ?em1 rs) t, [])"
      by (rule pml.opened_leaf, rule pm_rule_element_fine [OF ok r' refl]) (rule pm_inline_fine(1))
    have bare: "pm_opened y rs d em (pm_push_close ?em1 t, [])"
      by (rule pml.opened_leaf, rule pm_rule_element_fine [OF ok r' refl]) (rule em.fine_refl)
    show ?thesis
      using Declarative False blocks inline bare
      by (cases cont) (auto simp: Let_def pm_push_opens_eq pm_block_opens_def)
  qed
qed

lemma pm_open_block_opened:
  assumes ok: "em_ok em"
  shows "pm_opened y rs d em (pm_open_block y e d em [] rs)"
proof (cases "hm_get (nodes rs) (tag e)")
  case (Some r)
  with pm_rule_block_opened [OF ok rule_in_vocab [OF Some]] show ?thesis
    by (simp add: pm_open_block_def)
next
  case None
  let ?v = "pm_vocab rs"
  have bare: "wraps ?v (''<'' @ t @ ''>'') (''</'' @ t @ ''>'')"
    if "t \<in> {''p'', ''blockquote'', ''ul'', ''li'', ''tr'', ''table'', ''tbody''}" for t
    using that by (intro wraps_bare) (auto simp: pm_vocab_def)
  obtain as where ol: "fst ` set as \<subseteq> {''start''}" "emits em (chs (open_tag ''ol'' as)) (pm_ordered_list_open e em)"
    using pm_ordered_list_emits [OF ok] by blast
  have ol_w: "wraps ?v (open_tag ''ol'' as) ''</ol>''"
    using wraps_tag [of "''ol''" ?v as] ol(1) by (auto simp: pm_vocab_def close_tag_def)
  have table_w: "wraps ?v ''<table><tbody>'' ''</tbody></table>''"
    using wraps_nested [OF bare [of "''table''"] bare [of "''tbody''"]] by simp
  have p: "pm_opened y rs d em (push_str (pm_render_inline y e 0 (push_str em ''<p>'') rs) ''</p>'', [])"
    using bare [of "''p''"] by (intro pml.opened_leaf pm_inline_block_fine [OF _ ok]) simp
  have containers: "pm_opened y rs d em (pm_open_container y e d (''<'' @ t @ ''>'') (''</'' @ t @ ''>'') em [] rs)"
    if "t \<in> {''blockquote'', ''ul'', ''li'', ''tr''}" for t
    by (rule pm_opened_container [OF bare ok]) (use that in auto)
  have cells: "pm_opened y rs d em (pm_open_cell y e d t (''</'' @ t @ ''>'') em [] rs)"
    if "t \<in> {''th'', ''td''}" for t
  proof -
    have "t \<in> v_tags ?v" using that by (auto simp: pm_vocab_def)
    from pm_open_cell_opened [OF ok this] show ?thesis by (simp add: close_tag_def)
  qed
  have leaf: "pm_opened y rs d em (em', [])"
    if "em' \<in> {pm_heading y e em rs, pm_code_block e em, push_str em ''<hr>'', push_str em ''<br>'',
        pm_render_image e em}" for em'
    using that pm_heading_fine [OF ok] pm_code_block_fine [OF ok] pm_hr_fine [OF ok] pm_br_fine [OF ok]
      pm_render_image_fine [OF ok] by (auto intro: pml.opened_leaf)
  have pick: "P a \<Longrightarrow> P b \<Longrightarrow> P (if c then a else b)" for P :: "emitter \<times> xml_element work list \<Rightarrow> bool" and a b c
    by simp
  show ?thesis
    unfolding pm_open_block_def None option.case Let_def
    by (intro pick [where P = "pm_opened y rs d em"] p leaf pm_unknown_opened [OF ok]
        containers [of "''blockquote''", simplified] containers [of "''ul''", simplified]
        containers [of "''li''", simplified] containers [of "''tr''", simplified]
        cells [of "''th''", simplified] cells [of "''td''", simplified]
        pm_opened_children [OF ol_w ol(2)] pm_opened_children [OF table_w emits_push_str [OF ok]])
      simp_all
qed

interpretation pm: block_walker "pm_run y rs" "pm_vocab rs" "\<lambda>n d em st. pm_open_block y n d em st rs"
  elem_weight for y rs
proof (unfold_locales, goal_cases)
  case (2 n d em st)
  show ?case by (rule pm_open_block_stack)
next
  case (3 n d em em' ws)
  then show ?case using pm_open_block_weight [of y n d em rs] by simp
next
  case (4 em n d)
  then show ?case by (rule pm_open_block_opened)
qed simp_all

section \<open>Documents\<close>

lemma pm_render_node_fine: "em_ok em \<Longrightarrow> em.fine (pm_vocab rs) em (pm_render_node y rs em n)"
  using pm.run_fine [of em rs y _ 0]
  by (cases n) (auto simp: pm_render_block_tree_def pm_escape_text_eq simp del: pm_run.simps
      intro: pm_text_runs_fine em.fine_text)

lemma pm_render_segments_markup:
  assumes "pm_render_segments y frag rs = Some (good, segs)"
  shows "good \<and> frame_ok segs \<and> markup (pm_vocab rs) (seg_items segs)"
proof -
  have "em.fine (pm_vocab rs) em_new (foldl (pm_render_node y rs) em_new frag)"
    by (rule em.fine_foldl [OF emits_em_new]) (rule pm_render_node_fine)
  then show ?thesis
    using into_segments_emits assms
    by (fastforce simp: pm_render_segments_def em.fine_def split: if_splits)
qed

end
