(* ===== verification/LxMarkup.thy ===== *)
theory LxMarkup
  imports PmMarkup Lexical
begin

text \<open>
  The output of the Lexical renderer is well-formed markup over the vocabulary
  \<open>lx_vocab\<close>.  The two crates spell the same rule writers out twice; the equations of the
  first section let the lemmas on the ProseMirror writers serve both.  The block loop is
  covered by a second interpretation of \<open>block_walker\<close>.
\<close>

definition lx_vocab :: "rules \<Rightarrow> vocab" where
  "lx_vocab rs =
     \<lparr>v_tags = {''p'', ''h1'', ''h2'', ''h3'', ''h4'', ''h5'', ''h6'', ''blockquote'', ''pre'', ''ul'',
        ''ol'', ''li'', ''table'', ''tbody'', ''tr'', ''th'', ''td'', ''a'', ''span'', ''strong'', ''em'',
        ''code'', ''mark'', ''sub'', ''sup'', ''i'', ''s'', ''u''} \<union> node_rule_tags rs,
      v_voids = {''hr'', ''br''} \<union> node_rule_voids rs,
      v_attrs = {''style'', ''href'', ''title'', ''data-language'', ''aria-checked'', ''value''}
        \<union> node_rule_attrs rs,
      v_deferred = callback_types rs\<rparr>"

lemma lx_rule_in_vocab: "hm_get (nodes rs) k = Some r \<Longrightarrow> rule_in (lx_vocab rs) k r"
proof (cases r)
  case (Declarative t v as tx c)
  assume "hm_get (nodes rs) k = Some r"
  from map_of_SomeD [OF this] Declarative show ?thesis
    by (fastforce simp: rule_in_def lx_vocab_def node_rule_tags_def node_rule_voids_def node_rule_attrs_def)
qed (auto simp: rule_in_def lx_vocab_def callback_types_def)

section \<open>The writers the two crates share\<close>

lemma lx_escape_text_eq: "lx_escape_text s = esc_text s"
  using pm_escape_text_eq [of s] by (simp add: pm_escape_text_def lx_escape_text_def)

lemma lx_escape_attr_eq: "lx_escape_attr s = esc_attr s"
  using pm_escape_attr_eq [of s]
  by (simp add: lx_escape_attr_def lx_escape_text_eq pm_escape_attr_def pm_escape_text_eq)

lemma lx_push_attr_eq: "lx_push_attr = pm_push_attr"
  by (simp add: fun_eq_iff lx_push_attr_def pm_push_attr_def lx_escape_attr_eq pm_escape_attr_eq)

lemma lx_rule_open_eq: "lx_rule_open y as t attrs em = pm_rule_open y (XmlElement [] as []) t attrs em"
  unfolding lx_rule_open_def pm_rule_open_def pm_rule_attrs_def lx_push_attr_eq by simp

lemma lx_rule_text_eq: "lx_rule_text = pm_rule_text"
  unfolding fun_eq_iff lx_rule_text_def pm_rule_text_def lx_escape_text_eq pm_escape_text_eq by simp

lemma lx_push_close_eq: "lx_push_close = pm_push_close"
  by (simp add: fun_eq_iff lx_push_close_def pm_push_close_def)

lemma lx_rule_open_emits:
  fixes voc :: vocab
  shows "em_ok em \<Longrightarrow> fst ` set attrs \<subseteq> v_attrs voc \<Longrightarrow>
    \<exists>as. fst ` set as \<subseteq> v_attrs voc \<and> emits em (chs (open_tag t as)) (lx_rule_open y node t attrs em)"
  unfolding lx_rule_open_eq by (rule pm_rule_open_emits)

lemma lx_rule_text_fine: "em_ok em \<Longrightarrow> em.fine voc em (lx_rule_text y node tx em)"
  unfolding lx_rule_text_eq by (rule pm_rule_text_fine)

lemma lx_push_close_emits: "em_ok em \<Longrightarrow> emits em (chs (close_tag t)) (lx_push_close em t)"
  unfolding lx_push_close_eq by (rule pm_push_close_emits)

lemma lx_rule_element_fine:
  assumes "em_ok em" and "rule_in voc nt (Declarative t False attrs tx c)"
    and "em1 = lx_rule_text y node tx (lx_rule_open y node t attrs em)"
    and "em_ok em1 \<Longrightarrow> em.fine voc em1 em2"
  shows "em.fine voc em (lx_push_close em2 t)"
  unfolding lx_push_close_eq
  by (rule pm_rule_element_fine [OF assms(1,2), where e = "XmlElement [] node []"])
    (use assms(3,4) in \<open>simp_all add: lx_rule_text_eq lx_rule_open_eq\<close>)

lemma lx_rule_void_fine:
  "em_ok em \<Longrightarrow> rule_in voc nt (Declarative t True attrs tx c) \<Longrightarrow> em.fine voc em (lx_rule_open y node t attrs em)"
  unfolding lx_rule_open_eq by (rule pm_rule_void_fine)

section \<open>Text runs\<close>

lemma lx_format_wrap_markup:
  assumes "markup voc (chs inner)" and "t \<in> v_tags voc" and "''style'' \<in> v_attrs voc"
  shows "markup voc (chs (lx_format_wrap inner t style))"
proof (cases style)
  case None
  then show ?thesis
    using markup.m_element [OF assms(2) _ assms(1), of "[]"]
    by (simp add: lx_format_wrap_def open_tag_def close_tag_def)
next
  case (Some css)
  then show ?thesis
    using markup.m_element [OF assms(2) _ assms(1), of "[(''style'', css)]"] assms(3)
    by (simp add: lx_format_wrap_def open_tag_def close_tag_def attr_str_def lx_escape_attr_eq)
qed

lemma lx_outer_tag_known: "lx_outer_tag f = Some t \<Longrightarrow> t \<in> {''code'', ''mark'', ''sub'', ''sup''}"
  by (auto simp: lx_outer_tag_def split: if_splits)

lemma lx_render_run_markup: "markup (lx_vocab rs) (chs (lx_render_run s f style))"
proof -
  let ?v = "lx_vocab rs"
  have style: "''style'' \<in> v_attrs ?v" by (simp add: lx_vocab_def)
  have wrap: "markup ?v (chs (lx_format_wrap inner t st))"
    if "markup ?v (chs inner)" "t \<in> {''strong'', ''em'', ''i'', ''s'', ''u'', ''code'', ''mark'', ''sub'', ''sup''}"
    for inner t st
    by (rule lx_format_wrap_markup [OF that(1) _ style]) (use that(2) in \<open>auto simp: lx_vocab_def\<close>)
  have esc: "markup ?v (chs (lx_escape_text s))"
    unfolding lx_escape_text_eq by (rule markup.m_text)
  have opt: "markup ?v (chs (if c then lx_format_wrap html t st else html))"
    if "markup ?v (chs html)" "t \<in> {''i'', ''s'', ''u''}" for c html t st
    using that wrap [OF that(1), of t st] by auto
  have outer: "markup ?v (chs (case lx_outer_tag f of Some t \<Rightarrow> lx_format_wrap html t css | None \<Rightarrow> html))"
    if "markup ?v (chs html)" for html css
  proof (cases "lx_outer_tag f")
    case (Some t)
    have "t \<in> {''strong'', ''em'', ''i'', ''s'', ''u'', ''code'', ''mark'', ''sub'', ''sup''}"
      using lx_outer_tag_known [OF Some] by blast
    from wrap [OF that this] Some show ?thesis by simp
  qed (use that in simp)
  have inner: "markup ?v (chs (if b then lx_format_wrap (lx_escape_text s) ''strong'' st
      else if i then lx_format_wrap (lx_escape_text s) ''em'' st else lx_escape_text s))" for b i st
    using esc wrap [OF esc, of "''strong''"] wrap [OF esc, of "''em''"] by auto
  show ?thesis
    unfolding lx_render_run_def Let_def
    by (rule opt, rule opt, rule opt, rule outer, rule inner) simp_all
qed

section \<open>Inline content\<close>

lemma lx_br_fine: "em_ok em \<Longrightarrow> em.fine (lx_vocab rs) em (push_str em ''<br>'')"
  using markup.m_void [of "''br''" "lx_vocab rs" "[]"]
  by (intro em.fine_markup) (simp_all add: open_tag_def lx_vocab_def)

lemma lx_hr_fine: "em_ok em \<Longrightarrow> em.fine (lx_vocab rs) em (push_str em ''<hr>'')"
  using markup.m_void [of "''hr''" "lx_vocab rs" "[]"]
  by (intro em.fine_markup) (simp_all add: open_tag_def lx_vocab_def)

lemma lx_rule_element_node_fine:
  assumes ok: "em_ok em" and r: "rule_in voc ty r"
  shows "em.fine voc em (lx_render_rule_element y e ty r em)"
proof (cases r)
  case (Callback c)
  have "emits em [Def ty (xml_attrs_json y (el_attrs e)) [] []]
      (emit_deferred em ty (xml_attrs_json y (el_attrs e)) [] [])"
    using emits_deferred [OF ok, of "[]"] by simp
  with Callback markup.m_deferred [OF _ markup.m_empty] r show ?thesis
    unfolding em.fine_def by (auto simp: rule_in_def)
next
  case (Declarative t v attrs tx c)
  show ?thesis
  proof (cases v)
    case True
    with lx_rule_void_fine [OF ok, of voc ty t attrs tx c] r Declarative show ?thesis by simp
  next
    case False
    with r Declarative lx_rule_element_fine [OF ok _ refl em.fine_refl, of voc ty t attrs tx c] show ?thesis
      by (simp add: Let_def)
  qed
qed

lemma lx_decorator_fine: "em_ok em \<Longrightarrow> em.fine (lx_vocab rs) em (lx_render_decorator y e em rs)"
  using lx_rule_in_vocab [of rs "lx_elem_type e"]
  by (auto simp: lx_render_decorator_def Let_def split: option.splits
      intro: lx_rule_element_node_fine lx_hr_fine em.fine_refl)

lemma lx_meta_step_fine: "em_ok em \<Longrightarrow> em.fine (lx_vocab rs) em (snd (lx_meta_step m st em))"
  by (auto simp: lx_meta_step_def Let_def intro: lx_br_fine em.fine_refl)

lemma lx_tab_markup: "markup (lx_vocab rs) (chs (''<span>'' @ [CHR 0x09] @ ''</span>''))"
  using markup.m_element [OF _ _ markup.m_text, of "''span''" "lx_vocab rs" "[]" "[CHR 0x09]"]
  by (simp add: open_tag_def close_tag_def lx_vocab_def esc_text_char_def)

lemma lx_run_step_fine: "em_ok em \<Longrightarrow> em.fine (lx_vocab rs) em (snd (lx_run_step s st em))"
  using lx_tab_markup [of rs] lx_render_run_markup [of rs]
  by (auto simp: lx_run_step_def intro!: em.fine_markup)

lemma lx_attr_fine:
  assumes "em_ok em" and "n \<in> v_attrs voc"
  shows "em.attrs_fine voc em (em_push (push_str (push_str em ('' '' @ n @ ''='' @ dquote)) (lx_escape_attr v)) dquote)"
proof (rule em.attrs_fine_wrote [OF assms(2), of _ v])
  show "emits em (chs (attr_str (n, v)))
      (em_push (push_str (push_str em ('' '' @ n @ ''='' @ dquote)) (lx_escape_attr v)) dquote)"
    using emits_puts [OF assms(1), of "['' '' @ n @ ''='' @ dquote, esc_attr v, dquote]"]
    by (simp add: em_push_def attr_str_def lx_escape_attr_eq)
qed

lemma lx_link_open_emits:
  assumes ok: "em_ok em"
  shows "\<exists>as. fst ` set as \<subseteq> v_attrs (lx_vocab rs) \<and> emits em (chs (open_tag ''a'' as)) (lx_link_open t em)"
proof -
  let ?v = "lx_vocab rs"
  let ?em2 = "case lx_str_attr t ''__url'' of
      Some url \<Rightarrow> em_push (push_str (push_str (push_str em ''<a'') ('' href='' @ dquote))
          (lx_escape_attr (lx_safe_href url))) dquote
    | None \<Rightarrow> push_str em ''<a''"
  let ?em3 = "case lx_str_attr t ''__title'' of
      Some title \<Rightarrow> if title = [] then ?em2
        else em_push (push_str (push_str ?em2 ('' title='' @ dquote)) (lx_escape_attr title)) dquote
    | None \<Rightarrow> ?em2"
  have a: "emits em (chs (''<'' @ ''a'')) (push_str em ''<a'')"
    using emits_push_str [OF ok, of "''<a''"] by simp
  have attrs: "''href'' \<in> v_attrs ?v" "''title'' \<in> v_attrs ?v" by (simp_all add: lx_vocab_def)
  have 2: "em.attrs_fine ?v (push_str em ''<a'') ?em2"
    using lx_attr_fine [OF emits_em_ok [OF a] attrs(1)] em.attrs_fine_refl [OF emits_em_ok [OF a]]
    by (auto split: option.split)
  have 3: "em.attrs_fine ?v ?em2 ?em3"
    using lx_attr_fine [OF em.attrs_fine_ok [OF 2] attrs(2)] em.attrs_fine_refl [OF em.attrs_fine_ok [OF 2]]
    by (auto split: option.split)
  from em.wrote_open [OF a em.attrs_fine_trans [OF 2 3] refl] show ?thesis
    by (simp add: lx_link_open_def em_push_def Let_def)
qed

lemma lx_callback_fine:
  assumes "em_ok em" and "em_ok (begin_frame em) \<Longrightarrow> em.fine voc (begin_frame em) em2"
    and "nt \<in> v_deferred voc"
  shows "em.fine voc em (let (captured, em3) = end_frame em2 in emit_deferred em3 nt aj ct captured)"
  using em.fine_postponed [OF assms(1) assms(2) [OF em_ok_begin_frame [OF assms(1)]]]
    assms(3)
  by (simp split: prod.split)

lemma lx_inline_fine:
  "em_ok em \<Longrightarrow> em.fine (lx_vocab rs) em (lx_render_inline y t d ruled em rs)"
  "em_ok em \<Longrightarrow> em.fine (lx_vocab rs) em (lx_inline_loop y ds d ruled st em rs)"
  "em_ok em \<Longrightarrow> em.fine (lx_vocab rs) em (lx_inline_child y t d ruled em rs)"
  "em_ok em \<Longrightarrow> em.fine (lx_vocab rs) em (lx_render_link y t d em rs)"
  "em_ok em \<Longrightarrow> rule_in (lx_vocab rs) (lx_node_type t) r \<Longrightarrow> em.fine (lx_vocab rs) em (lx_render_rule_inline y t r d em rs)"
proof (induction y t d ruled em rs and y ds d ruled st em rs and y t d ruled em rs and y t d em rs
    and y t r d em rs
    rule: lx_render_inline_lx_inline_loop_lx_inline_child_lx_render_link_lx_render_rule_inline.induct)
  case (3 y v ra ds depth ruled st em rs)
  note ok = \<open>em_ok em\<close>
  have continue: "em.fine (lx_vocab rs) em (lx_inline_loop y ds depth ruled st' em' rs)"
    if "em.fine (lx_vocab rs) em em'"
      "em_ok em' \<Longrightarrow> em.fine (lx_vocab rs) em' (lx_inline_loop y ds depth ruled st' em' rs)" for st' em'
    by (rule em.fine_trans [OF that(1) that(2) [OF em.fine_ok [OF that(1)]]])
  show ?case
  proof (cases v)
    case (OYMap m)
    then show ?thesis
      using continue [OF lx_meta_step_fine [OF ok, of rs m st]] 3 by (force split: prod.splits)
  next
    case (OYXmlText child)
    then show ?thesis using continue 3 by force
  next
    case (OYXmlElement e)
    then show ?thesis using continue [OF lx_decorator_fine [OF ok]] 3 by force
  next
    case (OAny a)
    show ?thesis
    proof (cases a)
      case (AString s)
      then show ?thesis
        using continue [OF lx_run_step_fine [OF ok, of rs s st]] OAny 3 by (force split: prod.splits)
    qed (use OAny 3 in simp_all)
  qed (use 3 in simp_all)
next
  case (4 y child depth ruled em rs)
  then show ?case
    using lx_rule_in_vocab [of rs "lx_node_type child"]
    by (auto simp: Let_def intro: em.fine_refl split: option.splits)
next
  case (5 y t depth em rs)
  let ?em1 = "lx_link_open t em"
  let ?em2 = "if depth < MAX_INLINE_DEPTH then lx_render_inline y t (depth + 1) True ?em1 rs
     else push_str ?em1 (lx_escape_text (text_string y t))"
  obtain as where as: "fst ` set as \<subseteq> v_attrs (lx_vocab rs)" "emits em (chs (open_tag ''a'' as)) ?em1"
    using lx_link_open_emits [OF 5(2)] by blast
  have body: "em.fine (lx_vocab rs) ?em1 ?em2"
    using 5(1) emits_em_ok [OF as(2)] by (auto simp: lx_escape_text_eq intro: em.fine_text)
  have close: "emits ?em2 (chs (close_tag ''a'')) (push_str ?em2 ''</a>'')"
    using emits_push_str [OF em.fine_ok [OF body], of "''</a>''"] by (simp add: close_tag_def)
  have "''a'' \<in> v_tags (lx_vocab rs)" by (simp add: lx_vocab_def)
  from em.fine_element [OF this as(2,1) body close] show ?case
    by (simp add: Let_def)
next
  case (6 y t cont depth em rs)
  let ?em1 = "begin_frame em"
  let ?em2 = "if cont \<noteq> NoContent \<and> depth < MAX_INLINE_DEPTH
     then lx_render_inline y t (depth + 1) True ?em1 rs else ?em1"
  have "em.fine (lx_vocab rs) ?em1 ?em2" if "em_ok ?em1"
    using 6(1) that by (auto intro: em.fine_refl)
  from lx_callback_fine [OF 6(2) this, of "lx_node_type t"] 6(3) show ?case
    by (simp add: Let_def rule_in_def)
next
  case (7 y t tg void attrs tx cont depth em rs)
  show ?case
  proof (cases void)
    case True
    with 7 lx_rule_void_fine [of em _ "lx_node_type t" tg attrs tx cont y] show ?thesis by simp
  next
    case False
    let ?em1 = "lx_rule_text y (tx_attrs t) tx (lx_rule_open y (tx_attrs t) tg attrs em)"
    let ?em2 = "if cont \<noteq> NoContent \<and> depth < MAX_INLINE_DEPTH
                then lx_render_inline y t (depth + 1) True ?em1 rs else ?em1"
    have "em_ok ?em1 \<Longrightarrow> em.fine (lx_vocab rs) ?em1 ?em2"
      using 7(1) [OF refl False refl] by (auto intro: em.fine_refl)
    from lx_rule_element_fine [OF 7(2) _ refl this, of "lx_node_type t" cont] 7(3) False show ?thesis
      by (simp add: Let_def)
  qed
qed (simp_all add: em.fine_refl)

section \<open>Blocks\<close>

interpretation lxl: work_loop "lx_run y rs" "lx_vocab rs" for y rs
  by unfold_locales simp_all

abbreviation lx_opened ::
  "yrs \<Rightarrow> rules \<Rightarrow> nat \<Rightarrow> emitter \<Rightarrow> emitter \<times> xml_text work list \<Rightarrow> bool" where
  "lx_opened y rs \<equiv> lxl.opened y rs"

lemma lx_block_opens_shape: "\<exists>cs. lx_block_opens t d l = opens (Suc d) cs"
  by (auto simp: lx_block_opens_def opens_def intro: exI [of _ "[]"])

lemma lx_opened_tail:
  "wraps (lx_vocab rs) a b \<Longrightarrow> emits em (chs a) em0 \<Longrightarrow> em.fine (lx_vocab rs) em0 em' \<Longrightarrow>
    tail = [Close b] \<or> tail = [CloseOwned b] \<Longrightarrow> lx_opened y rs d em (em', lx_block_opens t d l @ tail)"
  using lxl.opened_tail [of rs a b em em0 em' tail y d] lx_block_opens_shape [of t d l] by auto

lemma lx_opened_container:
  assumes "wraps (lx_vocab rs) a b" and "emits em (chs a) em0"
  shows "lx_opened y rs d em (lx_container y t d b em0 [] rs)"
  unfolding lx_container_def lx_push_block_children_eq
  by (rule lx_opened_tail [OF assms lx_inline_fine(1) [OF emits_em_ok [OF assms(2)]]]) simp

lemma lx_bare:
  "t \<in> {''p'', ''h1'', ''h2'', ''h3'', ''h4'', ''h5'', ''h6'', ''blockquote'', ''ul'', ''ol'', ''table'',
     ''tbody'', ''tr'', ''th'', ''td''} \<Longrightarrow> wraps (lx_vocab rs) (''<'' @ t @ ''>'') (''</'' @ t @ ''>'')"
  by (rule wraps_bare) (auto simp: lx_vocab_def)

lemma lx_inline_block_fine:
  assumes "wraps (lx_vocab rs) a b" and "emits em (chs a) em1"
    and "\<And>em2. em_ok em2 \<Longrightarrow> emits em2 (chs b) (f em2)"
  shows "em.fine (lx_vocab rs) em (f (lx_render_inline y t d r em1 rs))"
proof -
  have body: "em.fine (lx_vocab rs) em1 (lx_render_inline y t d r em1 rs)"
    by (rule lx_inline_fine(1) [OF emits_em_ok [OF assms(2)]])
  show ?thesis by (rule em.fine_wraps [OF assms(1,2) body assms(3) [OF em.fine_ok [OF body]]])
qed

lemma lx_captured:
  assumes ok: "em_ok em"
  obtains c where "end_frame (lx_render_inline y t 0 r (begin_frame em) rs) = (c, em)" "frame_ok c"
    "em.fine (lx_vocab rs) em (push_str (em_append (push_str em ''<p>'') c) ''</p>'')"
proof -
  have "em.fine (lx_vocab rs) (begin_frame em) (lx_render_inline y t 0 r (begin_frame em) rs)"
    by (rule lx_inline_fine(1) [OF em_ok_begin_frame [OF ok]])
  then obtain c where c: "end_frame (lx_render_inline y t 0 r (begin_frame em) rs) = (c, em)"
    "frame_ok c" "markup (lx_vocab rs) (seg_items c)"
    using em.fine_captured [OF ok] by blast
  have w: "wraps (lx_vocab rs) ''<p>'' ''</p>''" using lx_bare [of "''p''" rs] by simp
  have "em.fine (lx_vocab rs) em (push_str (em_append (push_str em ''<p>'') c) ''</p>'')"
    by (rule em.fine_put_wraps [where f = "\<lambda>em. em_append em c", OF w ok])
      (rule em.fine_spliced [OF _ c(2,3)])
  with c that show thesis by blast
qed

lemma lx_paragraph_fine:
  assumes ok: "em_ok em"
  shows "em.fine (lx_vocab rs) em (lx_paragraph y t em rs)"
proof -
  obtain c where c: "end_frame (lx_render_inline y t 0 True (begin_frame em) rs) = (c, em)" "frame_ok c"
    "em.fine (lx_vocab rs) em (push_str (em_append (push_str em ''<p>'') c) ''</p>'')"
    using lx_captured [OF ok] .
  have "markup (lx_vocab rs) (chs ''<p>'' @ chs ''<br>'' @ chs ''</p>'')"
    using lx_bare [of "''p''" rs] markup.m_void [of "''br''" "lx_vocab rs" "[]"]
    by (auto simp: wraps_def open_tag_def lx_vocab_def)
  then have "em.fine (lx_vocab rs) em (push_str em ''<p><br></p>'')"
    by (intro em.fine_markup [OF ok]) simp
  with c show ?thesis by (simp add: lx_paragraph_def)
qed

lemma lx_unknown_opened:
  assumes ok: "em_ok em"
  shows "lx_opened y rs d em (lx_unknown_block y t d em [] rs)"
proof (cases "lx_block_children t = []")
  case False
  with lx_opened_container [OF wraps_nothing, of em em y rs d t] emits_refl [OF ok] show ?thesis
    by (simp add: lx_unknown_block_def)
next
  case True
  obtain c where c: "end_frame (lx_render_inline y t 0 True (begin_frame em) rs) = (c, em)"
    "em.fine (lx_vocab rs) em (push_str (em_append (push_str em ''<p>'') c) ''</p>'')"
    using lx_captured [OF ok] .
  with True show ?thesis
    by (auto simp: lx_unknown_block_def intro: lxl.opened_leaf em.fine_refl [OF ok])
qed

lemma lx_heading_fine:
  assumes ok: "em_ok em"
  shows "em.fine (lx_vocab rs) em (lx_heading y t em rs)"
proof -
  let ?tg = "case lx_str_attr t ''__tag'' of
     Some tg \<Rightarrow> if tg \<in> set [''h1'', ''h2'', ''h3'', ''h4'', ''h5'', ''h6''] then tg else ''h1''
   | None \<Rightarrow> ''h1''"
  obtain tg where tg: "tg = ?tg" "tg \<in> set [''h1'', ''h2'', ''h3'', ''h4'', ''h5'', ''h6'']"
    by (cases "lx_str_attr t ''__tag''") (auto split: if_splits)
  have w: "wraps (lx_vocab rs) (''<'' @ tg @ ''>'') (''</'' @ tg @ ''>'')"
    by (rule lx_bare) (use tg(2) in auto)
  have a: "emits em (chs (''<'' @ tg @ ''>'')) (em_push (push_str (em_push em ''<'') tg) ''>'')"
    using emits_puts [OF ok, of "[''<'', tg, ''>'']"] by (simp add: em_push_def)
  have b: "emits em2 (chs (''</'' @ tg @ ''>'')) (em_push (push_str (push_str em2 ''</'') tg) ''>'')"
    if "em_ok em2" for em2
    using emits_puts [OF that, of "[''</'', tg, ''>'']"] by (simp add: em_push_def)
  show ?thesis
    unfolding lx_heading_def Let_def tg(1) [symmetric] by (rule lx_inline_block_fine [OF w a b])
qed

lemma lx_code_fine:
  assumes ok: "em_ok em"
  shows "em.fine (lx_vocab rs) em (lx_code y t em rs)"
proof -
  let ?v = "lx_vocab rs"
  let ?em2 = "case lx_str_attr t ''__language'' of
      Some lang \<Rightarrow> if lang = [] then push_str em ''<pre''
        else em_push (push_str (push_str (push_str em ''<pre'') ('' data-language='' @ dquote))
          (lx_escape_attr lang)) dquote
    | None \<Rightarrow> push_str em ''<pre''"
  have pre: "emits em (chs (''<'' @ ''pre'')) (push_str em ''<pre'')"
    using emits_push_str [OF ok, of "''<pre''"] by simp
  have "''data-language'' \<in> v_attrs ?v" by (simp add: lx_vocab_def)
  from lx_attr_fine [OF emits_em_ok [OF pre] this] em.attrs_fine_refl [OF emits_em_ok [OF pre]]
  have "em.attrs_fine ?v (push_str em ''<pre'') ?em2" by (auto split: option.split)
  from em.wrote_open [OF pre this refl] obtain as
    where as: "fst ` set as \<subseteq> v_attrs ?v" "emits em (chs (open_tag ''pre'' as)) (em_push ?em2 ''>'')"
    unfolding em_push_def by blast
  have w: "wraps ?v (open_tag ''pre'' as) ''</pre>''"
    using wraps_tag [OF _ as(1), of "''pre''"] by (simp add: lx_vocab_def close_tag_def)
  show ?thesis
    unfolding lx_code_def Let_def
    by (rule lx_inline_block_fine [OF w as(2) emits_push_str])
qed

lemma lx_listitem_opened:
  assumes ok: "em_ok em"
  shows "lx_opened y rs d em (lx_open_listitem y t d em [] rs)"
proof -
  let ?v = "lx_vocab rs"
  define checked where "checked = (case get_attribute (tx_attrs t) ''__checked'' of
             Some (OAny (ABool b)) \<Rightarrow> Some b | _ \<Rightarrow> None)"
  define val where "val = (case get_attribute (tx_attrs t) ''__value'' of
             Some (OAny (ANumber (NInt n))) \<Rightarrow> n
           | Some (OAny (ANumber (NFloat n))) \<Rightarrow> f64_as_i64 n | _ \<Rightarrow> 1)"
  let ?em2 = "case checked of
      Some c \<Rightarrow> em_push (push_str (push_str (push_str em ''<li'') ('' aria-checked='' @ dquote))
                 (if c then ''true'' else ''false'')) dquote
    | None \<Rightarrow> push_str em ''<li''"
  let ?em3 = "em_push (push_str (push_str ?em2 ('' value='' @ dquote)) (string_of_int val)) dquote"
  have li: "emits em (chs (''<'' @ ''li'')) (push_str em ''<li'')"
    using emits_push_str [OF ok, of "''<li''"] by simp
  have names: "''aria-checked'' \<in> v_attrs ?v" "''value'' \<in> v_attrs ?v" by (simp_all add: lx_vocab_def)
  have flags: "lx_escape_attr ''true'' = ''true''" "lx_escape_attr ''false'' = ''false''" by code_simp+
  have 2: "em.attrs_fine ?v (push_str em ''<li'') ?em2"
    using lx_attr_fine [OF emits_em_ok [OF li] names(1), of "''true''"]
      lx_attr_fine [OF emits_em_ok [OF li] names(1), of "''false''"]
      em.attrs_fine_refl [OF emits_em_ok [OF li]]
    by (auto simp: flags split: option.split)
  have 3: "em.attrs_fine ?v ?em2 ?em3"
    using lx_attr_fine [OF em.attrs_fine_ok [OF 2] names(2), of "string_of_int val"]
    by (simp add: lx_escape_attr_eq)
  from em.wrote_open [OF li em.attrs_fine_trans [OF 2 3] refl] obtain as
    where as: "fst ` set as \<subseteq> v_attrs ?v" "emits em (chs (open_tag ''li'' as)) (em_push ?em3 ''>'')"
    unfolding em_push_def by blast
  have w: "wraps ?v (open_tag ''li'' as) ''</li>''"
    using wraps_tag [OF _ as(1), of "''li''"] by (simp add: lx_vocab_def close_tag_def)
  have "lx_opened y rs d em (lx_render_inline y t 0 True (em_push ?em3 ''>'') rs,
      lx_block_opens t d True @ [Close ''</li>''])"
    by (rule lx_opened_tail [OF w as(2) lx_inline_fine(1) [OF emits_em_ok [OF as(2)]]]) simp
  then show ?thesis
    unfolding lx_open_listitem_def Let_def checked_def val_def lx_push_block_children_eq .
qed

lemma lx_rule_block_opened:
  assumes ok: "em_ok em" and r: "rule_in (lx_vocab rs) (lx_node_type t) r"
  shows "lx_opened y rs d em (lx_open_rule_block y t r d em [] rs)"
proof (cases r)
  case (Callback cont)
  let ?v = "lx_vocab rs"
  have ok1: "em_ok (begin_frame em)" by (rule em_ok_begin_frame [OF ok])
  have nt: "lx_node_type t \<in> v_deferred ?v" using r Callback by (simp add: rule_in_def)
  have opened: "lx_opened y rs d em (em', opens (Suc d) cs @ [EndDeferred (lx_node_type t) aj ct])"
    if "em.fine ?v (begin_frame em) em'" for em' cs aj ct
    by (rule lxl.opened_deferred [OF ok that nt])
  obtain cs where cs: "lx_block_opens t d False = opens (Suc d) cs" using lx_block_opens_shape by blast
  show ?thesis
    using Callback cs opened [of _ cs, OF lx_inline_fine(1) [OF ok1]]
      opened [of _ "[]", OF lx_inline_fine(1) [OF ok1]] opened [of _ "[]", OF em.fine_refl [OF ok1]]
    by (cases cont) (auto simp: Let_def lx_push_rule_opens_eq opens_def)
next
  case (Declarative tg void attrs tx cont)
  let ?v = "lx_vocab rs"
  show ?thesis
  proof (cases void)
    case True
    with lx_rule_void_fine [OF ok, of ?v "lx_node_type t" tg attrs tx cont] r Declarative show ?thesis
      by (auto simp: Let_def intro: lxl.opened_leaf)
  next
    case False
    have r': "rule_in ?v (lx_node_type t) (Declarative tg False attrs tx cont)" using r Declarative False by simp
    let ?em0 = "lx_rule_open y (tx_attrs t) tg attrs em"
    let ?em1 = "lx_rule_text y (tx_attrs t) tx ?em0"
    obtain as where as: "fst ` set as \<subseteq> v_attrs ?v" "emits em (chs (open_tag tg as)) ?em0"
      using lx_rule_open_emits [OF ok, of attrs ?v tg y "tx_attrs t"] r' by (auto simp: rule_in_def)
    have w: "wraps ?v (open_tag tg as) (''</'' @ tg @ ''>'')"
      using wraps_tag [OF _ as(1), of tg] r' by (simp add: rule_in_def close_tag_def)
    have tx: "em.fine ?v ?em0 ?em1" by (rule lx_rule_text_fine [OF emits_em_ok [OF as(2)]])
    have stray: "em.fine ?v ?em0 (lx_render_inline y t 0 False ?em1 rs)"
      by (rule em.fine_trans [OF tx lx_inline_fine(1) [OF em.fine_ok [OF tx]]])
    have blocks: "lx_opened y rs d em (lx_render_inline y t 0 False ?em1 rs,
        lx_block_opens t d False @ [CloseOwned (''</'' @ tg @ ''>'')])"
      by (rule lx_opened_tail [OF w as(2) stray]) simp
    have inline: "lx_opened y rs d em (lx_push_close (lx_render_inline y t 0 True ?em1 rs) tg, [])"
      by (rule lxl.opened_leaf, rule lx_rule_element_fine [OF ok r' refl]) (rule lx_inline_fine(1))
    have bare: "lx_opened y rs d em (lx_push_close ?em1 tg, [])"
      by (rule lxl.opened_leaf, rule lx_rule_element_fine [OF ok r' refl]) (rule em.fine_refl)
    show ?thesis
      using Declarative False blocks inline bare
      by (cases cont) (auto simp: Let_def lx_push_opens_eq lx_opens_blocks lx_no_opens)
  qed
qed

lemma lx_open_block_opened:
  assumes ok: "em_ok em"
  shows "lx_opened y rs d em (lx_open_block y t d em [] rs)"
proof (cases "hm_get (nodes rs) (lx_node_type t)")
  case (Some r)
  with lx_rule_block_opened [OF ok lx_rule_in_vocab [OF Some]] show ?thesis
    by (simp add: lx_open_block_def)
next
  case None
  let ?v = "lx_vocab rs"
  have container: "lx_opened y rs d em (lx_container y t d (''</'' @ tg @ ''>'') em1 [] rs)"
    if "em1 = foldl push_str em ss" "concat ss = ''<'' @ tg @ ''>''" "tg \<in> {''ul'', ''ol'', ''tr'', ''th'', ''td''}"
    for tg em1 ss
  proof -
    have "wraps ?v (''<'' @ tg @ ''>'') (''</'' @ tg @ ''>'')" by (rule lx_bare) (use that(3) in blast)
    from lx_opened_container [OF this] emits_puts [OF ok, of ss] that(1,2) show ?thesis by simp
  qed
  have table: "lx_opened y rs d em (lx_container y t d ''</tbody></table>'' (push_str em ''<table><tbody>'') [] rs)"
    using wraps_nested [OF lx_bare [of "''table''" rs] lx_bare [of "''tbody''" rs]]
    by (intro lx_opened_container [OF _ emits_push_str [OF ok]]) simp
  have quote: "em.fine ?v em
      (push_str (lx_render_inline y t 0 True (push_str em ''<blockquote>'') rs) ''</blockquote>'')"
    using lx_bare [of "''blockquote''" rs]
    by (intro lx_inline_block_fine [OF _ emits_push_str [OF ok] emits_push_str]) simp
  have pick: "P a \<Longrightarrow> P b \<Longrightarrow> P (if c then a else b)" for P :: "emitter \<times> xml_text work list \<Rightarrow> bool" and a b c
    by simp
  have ls: "lx_opened y rs d em (lx_container y t d (if tg = ''ol'' then ''</ol>'' else ''</ul>'')
      (em_push (push_str (em_push em ''<'') tg) ''>'') [] rs)" if "tg \<in> {''ol'', ''ul''}" for tg
    using container [of _ "[''<'', tg, ''>'']" tg] that by (auto simp: em_push_def)
  show ?thesis
    unfolding lx_open_block_def Let_def None option.case
    by (intro pick [where P = "lx_opened y rs d em"] table ls lx_listitem_opened [OF ok] lx_unknown_opened [OF ok]
        lxl.opened_leaf lx_paragraph_fine [OF ok] lx_heading_fine [OF ok] lx_code_fine [OF ok] quote
        container [of _ "[''<tr>'']" "''tr''", simplified] container [of _ "[''<th>'']" "''th''", simplified]
        container [of _ "[''<td>'']" "''td''", simplified]) simp_all
qed

interpretation lx: block_walker "lx_run y rs" "lx_vocab rs" "\<lambda>n d em st. lx_open_block y n d em st rs"
  lx_weight for y rs
proof (unfold_locales, goal_cases)
  case (2 n d em st)
  show ?case by (rule lx_open_block_stack)
next
  case (3 n d em em' ws)
  then show ?case using lx_open_block_weight [of y n d em rs] by simp
next
  case (4 em n d)
  then show ?case by (rule lx_open_block_opened)
qed simp_all

section \<open>Documents\<close>

lemma lx_render_node_fine: "em_ok em \<Longrightarrow> em.fine (lx_vocab rs) em (lx_render_node y rs em n)"
  using lx.run_fine [of em rs y _ 0]
  by (cases n) (auto simp: lx_render_block_tree_def lx_escape_text_eq simp del: lx_run.simps
      intro: lx_decorator_fine em.fine_text)

lemma lx_render_segments_markup:
  assumes "lx_render_segments y frag rs = Some (good, segs)"
  shows "good \<and> frame_ok segs \<and> markup (lx_vocab rs) (seg_items segs)"
proof -
  have "em.fine (lx_vocab rs) em_new (foldl (lx_render_node y rs) em_new frag)"
    by (rule em.fine_foldl [OF emits_em_new]) (rule lx_render_node_fine)
  then show ?thesis
    using into_segments_emits assms
    by (fastforce simp: lx_render_segments_def em.fine_def split: if_splits)
qed

end
