(* ===== verification/RenderProps.thy ===== *)
theory RenderProps
  imports LxMarkup
begin

text \<open>
  What the two renderers guarantee: well-formed output whatever the document and the
  rules, no panic without callback rules, no link with a scheme outside the allowed ones
  however it is spelled, escaping that can be undone, styles that do not depend on the
  order of a hash map.
\<close>

section \<open>Output without callback rules\<close>

lemma markup_plain: "markup voc xs \<Longrightarrow> v_deferred voc = {} \<Longrightarrow> \<exists>s. xs = chs s"
proof (induction rule: markup.induct)
  case (m_element t as xs)
  then show ?case by (metis map_append)
next
  case (m_append xs ys)
  then show ?case by (metis map_append)
qed auto

lemma seg_items_chs: "seg_items segs = chs s \<Longrightarrow> list_all is_html segs"
proof (induction segs arbitrary: s)
  case (Cons x xs)
  show ?case
  proof (cases x)
    case (Html h)
    with Cons.prems have "seg_items xs = chs (drop (length h) s)"
      by (metis append_eq_conv_conj drop_map length_map seg_item.simps(1) seg_items_simps(2))
    with Cons.IH Html show ?thesis by simp
  next
    case (Deferred nt aj ct c)
    with Cons.prems show ?thesis by (cases s) auto
  qed
qed simp

lemma foldl_flatten: "list_all is_html segs \<Longrightarrow> chs out @ seg_items segs = chs (foldl flatten_step out segs)"
proof (induction segs arbitrary: out)
  case (Cons x xs)
  then obtain s where x: "x = Html s" by (auto simp: is_html_iff)
  have "flatten_step out x = out @ s" by (simp add: x)
  with Cons.IH [of "out @ s"] Cons.prems x show ?case by simp
qed simp

lemma flatten_html:
  assumes "list_all is_html segs"
  shows "\<exists>html. flatten segs = FHtml html \<and> seg_items segs = chs html"
proof -
  have "\<not> is_deferred x" if "is_html x" for x using that by (cases x) auto
  with assms have "\<not> list_ex is_deferred segs" by (auto simp: list_ex_iff list_all_iff)
  with foldl_flatten [OF assms, of "[]"] show ?thesis by (auto simp: flatten_def)
qed

lemma flatten_markup:
  assumes "markup voc (seg_items segs)" and "v_deferred voc = {}"
  shows "\<exists>html. into_html (flatten segs) = Some html \<and> markup voc (chs html)"
proof -
  obtain s where "seg_items segs = chs s" using markup_plain [OF assms] by blast
  from flatten_html [OF seg_items_chs [OF this]] assms(1) show ?thesis by auto
qed

lemma pm_vocab_empty: "v_deferred (pm_vocab rules_empty) = {}"
  by (simp add: pm_vocab_def callback_types_def rules_empty_def)

lemma lx_vocab_empty: "v_deferred (lx_vocab rules_empty) = {}"
  by (simp add: lx_vocab_def callback_types_def rules_empty_def)

section \<open>URL schemes\<close>

text \<open>A URL spells a scheme when, with blanks and control characters gone, it is a letter,
  then letters, digits, plus, dot or minus, then a colon; case does not matter.\<close>

definition scheme_char :: "char \<Rightarrow> bool" where
  "scheme_char c \<longleftrightarrow> is_ascii_alphanumeric c \<or> c = CHR ''+'' \<or> c = CHR ''.'' \<or> c = CHR ''-''"

definition valid_scheme :: "string \<Rightarrow> bool" where
  "valid_scheme p = (case p of [] \<Rightarrow> False | c # cs \<Rightarrow> is_ascii_alphabetic c \<and> list_all scheme_char cs)"

definition spells_scheme :: "string \<Rightarrow> string \<Rightarrow> bool" where
  "spells_scheme url s \<longleftrightarrow>
     (\<exists>p rest. strip_blank url = p @ CHR '':'' # rest \<and> valid_scheme p \<and> to_ascii_lowercase p = s)"

lemma ascii_not_cont: "byte_val c < 128 \<Longrightarrow> \<not> is_cont_byte c"
  by (simp add: is_cont_byte_def)

lemma chars_ascii: "list_all (\<lambda>c. byte_val c < 128) s \<Longrightarrow> chars s = map (\<lambda>c. [c]) s"
proof (induction s rule: chars.induct)
  case (2 c cs)
  have "takeWhile is_cont_byte cs = [] \<and> dropWhile is_cont_byte cs = cs"
    using 2(2) by (cases cs) (simp_all add: ascii_not_cont)
  with 2 show ?case by simp
qed simp

lemma scheme_char_ascii: "scheme_char c \<Longrightarrow> byte_val c < 128"
  by (auto simp: scheme_char_def is_ascii_alphanumeric_def is_ascii_alphabetic_def is_ascii_digit_def Let_def)

lemma alphabetic_scheme_char: "is_ascii_alphabetic c \<Longrightarrow> scheme_char c"
  by (simp add: scheme_char_def is_ascii_alphanumeric_def)

lemma valid_scheme_chars: "valid_scheme p \<Longrightarrow> list_all scheme_char p"
  by (auto simp: valid_scheme_def alphabetic_scheme_char split: list.splits)

lemma colon_no_scheme_char: "\<not> scheme_char (CHR '':'')"
  by (simp add: scheme_char_def is_ascii_alphanumeric_def is_ascii_alphabetic_def is_ascii_digit_def)

lemma split_once_first: "c \<notin> set a \<Longrightarrow> split_once c (a @ c # b) = Some (a, b)"
  by (induction a) auto

lemma chars_cut: "list_all (\<lambda>c. scheme_char c) p \<Longrightarrow> chars p = map (\<lambda>c. [c]) p"
  by (rule chars_ascii) (auto simp: list_all_iff scheme_char_ascii)

lemma chars_singles: "list_all (\<lambda>c. length c = 1) (chars s) \<Longrightarrow> chars s = map (\<lambda>c. [c]) s"
proof (induction s rule: chars.induct)
  case (2 c cs)
  then have "takeWhile is_cont_byte cs = []" by simp
  then have "dropWhile is_cont_byte cs = cs" by (cases cs) (auto split: if_splits)
  with 2 show ?case by simp
qed simp

lemma url_scheme_iff: "url_scheme url = Some s \<longleftrightarrow> spells_scheme url s"
proof
  assume "spells_scheme url s"
  then obtain p rest where p: "strip_blank url = p @ CHR '':'' # rest" "valid_scheme p" "to_ascii_lowercase p = s"
    by (auto simp: spells_scheme_def)
  have all: "list_all scheme_char p" by (rule valid_scheme_chars [OF p(2)])
  then have "CHR '':'' \<notin> set p" using colon_no_scheme_char by (auto simp: list_all_iff)
  from split_once_first [OF this] p(1) have split: "split_once (CHR '':'') (strip_blank url) = Some (p, rest)" by simp
  obtain c cs where c: "p = c # cs" "is_ascii_alphabetic c" "list_all scheme_char cs"
    using p(2) by (auto simp: valid_scheme_def split: list.splits)
  have "list_all (\<lambda>x. char_is is_ascii_alphanumeric x \<or> x = ''+'' \<or> x = ''.'' \<or> x = ''-'') (map (\<lambda>c. [c]) cs)"
    using c(3) by (auto simp: list_all_iff scheme_char_def char_is_def)
  with split c chars_cut [OF all] p(3) show "url_scheme url = Some s"
    by (simp add: url_scheme_def Let_def char_is_def)
next
  assume "url_scheme url = Some s"
  then obtain p rest where split: "split_once (CHR '':'') (strip_blank url) = Some (p, rest)"
    and first: "case chars p of [] \<Rightarrow> False | c # _ \<Rightarrow> char_is is_ascii_alphabetic c"
    and others: "list_all (\<lambda>c. char_is is_ascii_alphanumeric c \<or> c = ''+'' \<or> c = ''.'' \<or> c = ''-'') (tl (chars p))"
    and s: "s = to_ascii_lowercase p"
    by (auto simp: url_scheme_def Let_def split: option.splits if_splits)
  have "length x = 1" if "char_is P x" for P x
    using that by (auto simp: char_is_def split: list.splits)
  with first others have "list_all (\<lambda>c. length c = 1) (chars p)"
    by (cases "chars p") (fastforce simp: list_all_iff)+
  from chars_singles [OF this] first others have "valid_scheme p"
    by (cases p) (auto simp: valid_scheme_def char_is_def list_all_iff scheme_char_def map_tl)
  with split_once_SomeD [OF split] s show "spells_scheme url s"
    by (auto simp: spells_scheme_def)
qed

section \<open>Links\<close>

lemma pm_link_step_attr:
  "pm_link_step link out k = out \<or>
     (\<exists>v. pm_link_step link out k = out @ attr_str (k, v)
        \<and> (k = ''href'' \<longrightarrow> (\<forall>s. url_scheme v = Some s \<longrightarrow> s \<in> set PM_LINK_SCHEMES)))"
proof (cases "hm_get link k")
  case (Some a)
  show ?thesis
  proof (cases a)
    case (AString v)
    let ?v = "if pm_unsafe_href k v then [] else v"
    have "url_scheme [] = None" by (simp add: url_scheme_def strip_blank_def)
    then have "k = ''href'' \<longrightarrow> (\<forall>s. url_scheme ?v = Some s \<longrightarrow> s \<in> set PM_LINK_SCHEMES)"
      by (auto simp: pm_unsafe_href_def split: option.splits)
    moreover have "pm_link_step link out k = out @ attr_str (k, ?v)"
      by (simp add: Some AString pm_link_step_def attr_str_def pm_escape_attr_eq)
    ultimately show ?thesis by blast
  qed (simp_all add: Some pm_link_step_def)
qed (simp add: pm_link_step_def)

lemma pm_link_steps:
  "\<exists>as. foldl (pm_link_step link) out ks = out @ concat (map attr_str as) \<and> fst ` set as \<subseteq> set ks
     \<and> (\<forall>v s. (''href'', v) \<in> set as \<longrightarrow> url_scheme v = Some s \<longrightarrow> s \<in> set PM_LINK_SCHEMES)"
proof (induction ks arbitrary: out)
  case Nil
  show ?case by (intro exI [of _ "[]"]) simp
next
  case (Cons k ks)
  obtain as where as: "foldl (pm_link_step link) (pm_link_step link out k) ks
      = pm_link_step link out k @ concat (map attr_str as)" "fst ` set as \<subseteq> set ks"
    "\<forall>v s. (''href'', v) \<in> set as \<longrightarrow> url_scheme v = Some s \<longrightarrow> s \<in> set PM_LINK_SCHEMES"
    using Cons.IH by blast
  from pm_link_step_attr [of link out k] show ?case
  proof
    assume "pm_link_step link out k = out"
    with as show ?thesis by (intro exI [of _ as]) auto
  next
    assume "\<exists>v. pm_link_step link out k = out @ attr_str (k, v)
        \<and> (k = ''href'' \<longrightarrow> (\<forall>s. url_scheme v = Some s \<longrightarrow> s \<in> set PM_LINK_SCHEMES))"
    then obtain v where v: "pm_link_step link out k = out @ attr_str (k, v)"
      "k = ''href'' \<longrightarrow> (\<forall>s. url_scheme v = Some s \<longrightarrow> s \<in> set PM_LINK_SCHEMES)" by blast
    with as show ?thesis by (intro exI [of _ "(k, v) # as"]) auto
  qed
qed

section \<open>Escaping can be undone\<close>

definition entities :: "(string \<times> char) list" where
  "entities = [(''&amp;'', CHR ''&''), (''&lt;'', CHR ''<''), (''&gt;'', CHR ''>''), (''&quot;'', CHR 0x22)]"

function unescape :: "string \<Rightarrow> string" where
  "unescape s =
     (if s = [] then []
      else case find (\<lambda>(e, _). take (length e) s = e) entities of
          Some (e, c) \<Rightarrow> c # unescape (drop (length e) s)
        | None \<Rightarrow> hd s # unescape (tl s))"
  by pat_completeness auto
termination
  by (relation "measure length") (auto simp: entities_def split: if_splits)

declare unescape.simps [simp del]

lemma unescape_Nil [simp]: "unescape [] = []"
  by (simp add: unescape.simps)

lemma unescape_attr_char: "unescape (esc_attr_char c @ s) = c # unescape s"
  by (subst unescape.simps) (simp add: esc_attr_char_def esc_text_char_def entities_def)

lemma unescape_text_char: "unescape (esc_text_char c @ s) = c # unescape s"
  by (subst unescape.simps) (simp add: esc_text_char_def entities_def)

lemma unescape_attr: "unescape (esc_attr s) = s"
  by (induction s) (simp_all add: unescape_attr_char)

lemma unescape_text: "unescape (esc_text s) = s"
  by (induction s) (simp_all add: unescape_text_char)

lemma esc_no_markup:
  "set (esc_text s) \<inter> {CHR ''<'', CHR ''>''} = {}"
  "set (esc_attr s) \<inter> {CHR ''<'', CHR ''>'', CHR 0x22} = {}"
  by (induction s) (auto simp: esc_text_char_def esc_attr_char_def)

section \<open>Styles\<close>

lemma set_split_char: "x \<in> set (split_char c s) \<Longrightarrow> c \<notin> set x"
  by (induction s arbitrary: x) (auto split: if_splits list.splits)

lemma set_trim: "set (trim s) \<subseteq> set s"
proof -
  have "set (concat (rev (dropWhile is_whitespace (rev (dropWhile is_whitespace cs))))) \<subseteq> set (concat cs)" for cs
    by (auto dest!: set_dropWhileD)
  from this [of "chars s"] show ?thesis by (simp add: trim_def)
qed

definition css_decl :: "string \<times> string \<Rightarrow> string" where
  "css_decl d = fst d @ '': '' @ snd d @ '';''"

definition colour_decl :: "string \<times> string \<Rightarrow> bool" where
  "colour_decl d \<longleftrightarrow> fst d \<in> {''color'', ''background-color''} \<and> snd d \<noteq> [] \<and> CHR '';'' \<notin> set (snd d)"

lemma lx_style_step_decl:
  assumes "CHR '';'' \<notin> set decl"
  shows "lx_style_step css decl = css \<or> (\<exists>d. colour_decl d \<and> lx_style_step css decl = css @ css_decl d)"
proof (cases "split_once (CHR '':'') decl")
  case (Some pv)
  obtain p v where pv: "pv = (p, v)" by force
  have "CHR '';'' \<notin> set (trim v)"
    using assms split_once_SomeD [of "CHR '':''" decl p v] Some pv set_trim [of v] by auto
  then have "colour_decl (trim p, trim v)" if "trim p \<in> {''color'', ''background-color''}" "trim v \<noteq> []"
    using that by (simp add: colour_decl_def)
  then show ?thesis
    using Some pv by (auto simp: lx_style_step_def Let_def css_decl_def colour_decl_def)
qed (simp add: lx_style_step_def)

lemma lx_style_loop:
  "(\<And>d. d \<in> set decls \<Longrightarrow> CHR '';'' \<notin> set d) \<Longrightarrow>
    \<exists>ds. foldl lx_style_step css decls = css @ concat (map css_decl ds) \<and> list_all colour_decl ds"
proof (induction decls arbitrary: css)
  case Nil
  show ?case by (intro exI [of _ "[]"]) simp
next
  case (Cons d decls)
  obtain ds where ds: "foldl lx_style_step (lx_style_step css d) decls = lx_style_step css d @ concat (map css_decl ds)"
    "list_all colour_decl ds"
    using Cons by (metis list.set_intros(2))
  from lx_style_step_decl [of d css] Cons.prems consider "lx_style_step css d = css"
    | x where "colour_decl x" "lx_style_step css d = css @ css_decl x" by auto
  then show ?case
  proof cases
    case 1
    with ds show ?thesis by (intro exI [of _ ds]) simp
  next
    case 2
    with ds show ?thesis by (intro exI [of _ "x # ds"]) simp
  qed
qed

lemma string_pairs_distinct: "distinct (map fst m) \<Longrightarrow> distinct (map fst (string_pairs m))"
proof (induction m rule: string_pairs.induct)
  case (2 k s rest)
  have "fst ` set (string_pairs rest) \<subseteq> fst ` set rest"
    by (induction rest rule: string_pairs.induct) auto
  with 2 show ?case by auto
qed auto

lemma string_pairs_set: "set (string_pairs m) = {(k, s). (k, AString s) \<in> set m}"
  by (induction m rule: string_pairs.induct) auto

section \<open>Rules\<close>

lemma parse_entries_Inr:
  "(\<exists>out. parse_entries p kvs acc = Inr out) \<longleftrightarrow> (\<forall>(k, spec) \<in> set kvs. \<exists>r. p k spec = Inr r)"
  by (induction p kvs acc rule: parse_entries.induct) (auto split: sum.splits)

lemma parse_entries_lookup:
  "parse_entries p kvs acc = Inr out \<Longrightarrow> distinct (map fst kvs) \<Longrightarrow>
    map_of out k = (case map_of kvs k of
        None \<Rightarrow> map_of acc k
      | Some spec \<Rightarrow> (case p k spec of Inr r \<Rightarrow> Some r | Inl _ \<Rightarrow> None))"
proof (induction p kvs acc rule: parse_entries.induct)
  case (2 p name spec rest acc)
  then obtain r where r: "p name spec = Inr r" "parse_entries p rest (AList.update name r acc) = Inr out"
    by (auto split: sum.splits)
  have "map_of rest name = None" using 2(3) by (simp add: map_of_eq_None_iff)
  with 2(1) [OF r(1) r(2)] 2(3) r(1) show ?case by (auto simp: update_conv' split: option.split)
qed simp

section \<open>Observed types\<close>

definition total_count :: "type_map \<Rightarrow> nat" where
  "total_count m = sum_list (map (\<lambda>(k, info). ti_count info) m)"

lemma total_count_entry:
  "(\<And>info. ti_count (f info) = ti_count info + n) \<Longrightarrow> total_count (entry_or_default ty f m) = total_count m + n"
  by (induction ty f m rule: entry_or_default.induct) (auto simp: total_count_def type_info_default_def)

lemma keys_entry: "fst ` set (entry_or_default ty f m) = insert ty (fst ` set m)"
  by (induction ty f m rule: entry_or_default.induct) auto

lemma sorted_entry: "sorted_wrt (<) (map fst m) \<Longrightarrow> sorted_wrt (<) (map fst (entry_or_default ty f m))"
proof (induction ty f m rule: entry_or_default.induct)
  case (2 ty f k info rest)
  then show ?case
    using keys_entry [of ty f rest] by (auto simp: less_le not_less)
qed simp

fun element_count :: "nat \<Rightarrow> xml_element \<Rightarrow> nat" where
  "element_count depth (XmlElement t as cs) =
     1 + (if depth \<ge> MAX_DEPTH then 0 else sum_list (map (element_count (depth + 1)) (xml_elements cs)))"

lemma pm_observe_total:
  "total_count (pm_observe e m d) = total_count m + element_count d e"
  "d < MAX_DEPTH \<Longrightarrow> total_count (pm_observe_children ty cs m d) =
     total_count m + sum_list (map (element_count (d + 1)) (xml_elements cs))"
  by (induction e m d and ty cs m d rule: pm_observe_pm_observe_children.induct)
    (auto simp: total_count_entry [where n = 1] total_count_entry [where n = 0] Let_def count_type_def
      note_text_def note_child_def not_le)

lemma pm_observe_sorted:
  "sorted_wrt (<) (map fst m) \<Longrightarrow> sorted_wrt (<) (map fst (pm_observe e m d))"
  "sorted_wrt (<) (map fst m) \<Longrightarrow> sorted_wrt (<) (map fst (pm_observe_children ty cs m d))"
  by (induction e m d and ty cs m d rule: pm_observe_pm_observe_children.induct)
    (auto simp: sorted_entry Let_def)

section \<open>Properties\<close>

text \<open>C1. Whatever the document and the registered rules, the ProseMirror renderer runs to
  completion without a failed expectation, and its segments are merged and form well-formed
  markup: only known or registered tags and attributes, every tag closed in order, every
  text and attribute value escaped, deferred nodes only for callback types.\<close>

theorem pm_output_wellformed:
  assumes "pm_render_segments y fragment rs = Some (fine, segs)"
  shows "fine \<and> frame_ok segs \<and> markup (pm_vocab rs) (seg_items segs)"
  using assms by (rule pm_render_segments_markup)

definition pm_sample :: fragment where
  "pm_sample = [XElement (XmlElement ''paragraph'' [] [XText (XmlText [] [(OAny (AString ''a<b''), None)])])]"

lemma pm_sample_renders:
  "pm_render_segments plain_yrs pm_sample rules_empty = Some (True, [Html ''<p>a&lt;b</p>''])"
  by code_simp

theorem pm_output_wellformed_witness:
  "frame_ok [Html ''<p>a&lt;b</p>''] \<and> markup (pm_vocab rules_empty) (seg_items [Html ''<p>a&lt;b</p>''])"
  using pm_output_wellformed [OF pm_sample_renders] by blast

text \<open>C2. The same for the Lexical renderer.\<close>

theorem lx_output_wellformed:
  assumes "lx_render_segments y fragment rs = Some (fine, segs)"
  shows "fine \<and> frame_ok segs \<and> markup (lx_vocab rs) (seg_items segs)"
  using assms by (rule lx_render_segments_markup)

definition lx_sample :: fragment where
  "lx_sample = [XText (XmlText [(''__type'', OAny (AString ''paragraph''))]
     [(OYMap [(''__format'', OAny (ANumber (NInt 1)))], None), (OAny (AString ''a<b''), None)])]"

lemma lx_sample_renders:
  "lx_render_segments plain_yrs lx_sample rules_empty = Some (True, [Html ''<p><strong>a&lt;b</strong></p>''])"
  by code_simp

theorem lx_output_wellformed_witness:
  "frame_ok [Html ''<p><strong>a&lt;b</strong></p>'']
    \<and> markup (lx_vocab rules_empty) (seg_items [Html ''<p><strong>a&lt;b</strong></p>''])"
  using lx_output_wellformed [OF lx_sample_renders] by blast

text \<open>C29. Without rules the ProseMirror \<open>render\<close> of a ProseMirror-shaped document returns a
  string (its \<open>expect\<close> never fires), which is well-formed markup over the built-in tags.\<close>

theorem pm_render_returns:
  assumes "pm_is_prosemirror_shaped fragment"
  shows "\<exists>html. pm_render y fragment = Some (Some html) \<and> markup (pm_vocab rules_empty) (chs html)"
proof -
  obtain fine segs where s: "pm_render_segments y fragment rules_empty = Some (fine, segs)"
    using assms by (fastforce simp: pm_render_segments_def into_segments_def)
  with pm_render_segments_markup [OF s] flatten_markup [OF _ pm_vocab_empty, of segs] show ?thesis
    by (auto simp: pm_render_def)
qed

theorem pm_render_returns_witness:
  "\<exists>html. pm_render plain_yrs pm_sample = Some (Some html) \<and> markup (pm_vocab rules_empty) (chs html)"
  by (rule pm_render_returns) (simp add: pm_sample_def)

text \<open>C30. Without rules the Lexical \<open>render\<close> of a Lexical-shaped document returns a string,
  which is well-formed markup over the built-in tags.\<close>

theorem lx_render_returns:
  assumes "lx_is_lexical_shaped fragment"
  shows "\<exists>html. lx_render y fragment = Some (Some html) \<and> markup (lx_vocab rules_empty) (chs html)"
proof -
  obtain fine segs where s: "lx_render_segments y fragment rules_empty = Some (fine, segs)"
    using assms by (fastforce simp: lx_render_segments_def into_segments_def)
  with lx_render_segments_markup [OF s] flatten_markup [OF _ lx_vocab_empty, of segs] show ?thesis
    by (auto simp: lx_render_def)
qed

theorem lx_render_returns_witness:
  "\<exists>html. lx_render plain_yrs lx_sample = Some (Some html) \<and> markup (lx_vocab rules_empty) (chs html)"
  by (rule lx_render_returns) (simp add: lx_sample_def lx_is_lexical_shaped_def)

text \<open>C27. The opening tag of a ProseMirror link is an \<open>a\<close> tag with attributes among target,
  rel, class, href and title, and no \<open>href\<close> it writes spells a scheme outside the allowed
  ones, whatever blanks, control characters or capitals the stored URL hides it with.\<close>

theorem pm_links_safe:
  "\<exists>as. pm_link_open link = open_tag ''a'' as
     \<and> fst ` set as \<subseteq> {''target'', ''rel'', ''class'', ''href'', ''title''}
     \<and> (\<forall>v s. (''href'', v) \<in> set as \<and> spells_scheme v s \<longrightarrow> s \<in> set PM_LINK_SCHEMES)"
proof -
  obtain as where "foldl (pm_link_step link) ''<a'' [''target'', ''rel'', ''class'', ''href'', ''title'']
      = ''<a'' @ concat (map attr_str as)" "fst ` set as \<subseteq> set [''target'', ''rel'', ''class'', ''href'', ''title'']"
    "\<forall>v s. (''href'', v) \<in> set as \<longrightarrow> url_scheme v = Some s \<longrightarrow> s \<in> set PM_LINK_SCHEMES"
    using pm_link_steps by blast
  then show ?thesis
    by (intro exI [of _ as]) (auto simp: pm_link_open_def open_tag_def url_scheme_iff)
qed

theorem pm_links_safe_witness:
  "\<exists>as. pm_link_open [(''href'', AString ''Java script:x'')] = open_tag ''a'' as"
  using pm_links_safe by blast

text \<open>C28. The URL a Lexical link is given: the stored one when it spells no scheme or an
  allowed one, \<open>about:blank\<close> for every other.\<close>

theorem lx_links_safe:
  "lx_safe_href url =
     (if \<exists>s. spells_scheme url s \<and> s \<notin> set LX_LINK_SCHEMES then ''about:blank'' else url)"
  by (auto simp: lx_safe_href_def url_scheme_iff [symmetric] split: option.splits)

text \<open>Escaping is one pass that can be undone, and neither form contains a raw angle
  bracket, the attribute form no raw quote, in both crates.\<close>

theorem escaping_undone:
  "unescape (pm_escape_text s) = s \<and> unescape (pm_escape_attr s) = s
   \<and> lx_escape_text s = pm_escape_text s \<and> lx_escape_attr s = pm_escape_attr s
   \<and> set (pm_escape_text s) \<inter> {CHR ''<'', CHR ''>''} = {}
   \<and> set (pm_escape_attr s) \<inter> {CHR ''<'', CHR ''>'', CHR 0x22} = {}"
  by (simp add: pm_escape_text_eq pm_escape_attr_eq lx_escape_text_eq lx_escape_attr_eq unescape_text
      unescape_attr esc_no_markup)

text \<open>A Lexical run renders by the low eight bits of its format only: the
  case-transform bits, and whatever a stored number wraps to above them, change nothing.\<close>

theorem run_format_bits:
  "lx_render_run s format style = lx_render_run s (format AND 0xFF) style"
proof -
  have mask: "has_bit (format AND 0xFF) m = has_bit format m" if "0xFF AND m = m" for m
    using that by (simp add: has_bit_def and.assoc)
  have bits: "has_bit (format AND 0xFF) FMT_BOLD = has_bit format FMT_BOLD"
    "has_bit (format AND 0xFF) FMT_ITALIC = has_bit format FMT_ITALIC"
    "has_bit (format AND 0xFF) FMT_STRIKETHROUGH = has_bit format FMT_STRIKETHROUGH"
    "has_bit (format AND 0xFF) FMT_UNDERLINE = has_bit format FMT_UNDERLINE"
    "has_bit (format AND 0xFF) FMT_CODE = has_bit format FMT_CODE"
    "has_bit (format AND 0xFF) FMT_SUBSCRIPT = has_bit format FMT_SUBSCRIPT"
    "has_bit (format AND 0xFF) FMT_SUPERSCRIPT = has_bit format FMT_SUPERSCRIPT"
    "has_bit (format AND 0xFF) FMT_HIGHLIGHT = has_bit format FMT_HIGHLIGHT"
    by (rule mask, simp add: FMT_defs)+
  show ?thesis unfolding lx_render_run_def lx_outer_tag_def bits by (rule refl)
qed

text \<open>The style a Lexical run keeps is a list of color and background-color
  declarations with non-empty values; no value holds a semicolon, so nothing is smuggled in
  behind one.\<close>

theorem run_style_filtered:
  assumes "lx_lexxy_style style = Some css"
  shows "\<exists>ds. ds \<noteq> [] \<and> css = concat (map css_decl ds) \<and> list_all colour_decl ds"
proof -
  have "foldl lx_style_step [] (split_char (CHR '';'') style) = css" "css \<noteq> []"
    using assms by (auto simp: lx_lexxy_style_def Let_def split: if_splits)
  moreover obtain ds where "foldl lx_style_step [] (split_char (CHR '';'') style) = [] @ concat (map css_decl ds)"
    "list_all colour_decl ds"
    using lx_style_loop [of "split_char (CHR '';'') style" "[]"] set_split_char by blast
  ultimately show ?thesis by (intro exI [of _ ds]) auto
qed

lemma style_sample: "lx_lexxy_style ''color:r;x'' = Some ''color: r;''"
proof -
  have "chars ''color'' = [''c'', ''o'', ''l'', ''o'', ''r'']" "chars ''r'' = [''r'']"
    by (simp_all add: is_cont_byte_def)
  moreover have "\<not> is_whitespace ''c''" "\<not> is_whitespace ''r''"
    by (simp_all add: is_whitespace_def code_point_def)
  ultimately show ?thesis
    by (simp add: lx_lexxy_style_def lx_style_step_def trim_def Let_def del: chars.simps)
qed

theorem run_style_filtered_witness:
  "\<exists>ds. ds \<noteq> [] \<and> ''color: r;'' = concat (map css_decl ds) \<and> list_all colour_decl ds"
  by (rule run_style_filtered [OF style_sample])

text \<open>The inline style of a ProseMirror run does not depend on the order in which the
  mark's hash map iterates.\<close>

theorem style_order_free:
  assumes "distinct (map fst style)" and "distinct (map fst style')" and "set style = set style'"
  shows "pm_text_style_css style = pm_text_style_css style'"
proof -
  have "sort_key fst (string_pairs style) = sort_key fst (string_pairs style')"
    by (rule sort_key_fst_unique)
      (use assms in \<open>simp_all add: string_pairs_distinct string_pairs_set\<close>)
  then show ?thesis by (simp add: pm_text_style_css_def)
qed

theorem style_order_free_witness:
  "pm_text_style_css [(''color'', AString ''red''), (''fontSize'', AString ''9px'')]
    = pm_text_style_css [(''fontSize'', AString ''9px''), (''color'', AString ''red'')]"
  by (rule style_order_free) auto

text \<open>Parsing rules is all or nothing: it succeeds exactly when every node and mark entry
  parses, and then the rule of a name is what its entry parses to.\<close>

theorem rules_all_or_nothing:
  assumes "distinct (map fst (object_entries root ''nodes''))" and "distinct (map fst (object_entries root ''marks''))"
  shows "((\<exists>rs. rules_of_json root = Inr rs) \<longleftrightarrow>
      (\<forall>(k, spec) \<in> set (object_entries root ''nodes''). \<exists>r. parse_node_rule k spec = Inr r)
      \<and> (\<forall>(k, spec) \<in> set (object_entries root ''marks''). \<exists>r. parse_mark_rule k spec = Inr r))
    \<and> (\<forall>rs k r. rules_of_json root = Inr rs \<longrightarrow>
      (hm_get (nodes rs) k = Some r \<longleftrightarrow>
        (\<exists>spec. map_of (object_entries root ''nodes'') k = Some spec \<and> parse_node_rule k spec = Inr r)))"
proof (intro conjI allI impI)
  show "(\<exists>rs. rules_of_json root = Inr rs) \<longleftrightarrow>
      (\<forall>(k, spec) \<in> set (object_entries root ''nodes''). \<exists>r. parse_node_rule k spec = Inr r)
      \<and> (\<forall>(k, spec) \<in> set (object_entries root ''marks''). \<exists>r. parse_mark_rule k spec = Inr r)"
    unfolding parse_entries_Inr [symmetric, where acc = "[]"]
    by (auto simp: rules_of_json_def split: sum.splits)
  fix rs k r
  assume "rules_of_json root = Inr rs"
  then have "parse_entries parse_node_rule (object_entries root ''nodes'') [] = Inr (nodes rs)"
    by (auto simp: rules_of_json_def split: sum.splits)
  from parse_entries_lookup [OF this assms(1), of k]
  show "hm_get (nodes rs) k = Some r \<longleftrightarrow>
      (\<exists>spec. map_of (object_entries root ''nodes'') k = Some spec \<and> parse_node_rule k spec = Inr r)"
    by (auto split: option.splits sum.splits)
qed

definition rules_sample :: json where
  "rules_sample = JObject [(''nodes'', JObject [(''x'', JObject [(''tag'', JString ''b'')])])]"

lemma rules_sample_entries:
  "object_entries rules_sample ''nodes'' = [(''x'', JObject [(''tag'', JString ''b'')])]"
  "object_entries rules_sample ''marks'' = []"
  by code_simp+

theorem rules_all_or_nothing_witness:
  "\<exists>rs. rules_of_json rules_sample = Inr rs"
proof -
  have "parse_node_rule ''x'' (JObject [(''tag'', JString ''b'')]) = Inr (Declarative ''b'' False [] None Inline)"
    by code_simp
  then show ?thesis
    using rules_all_or_nothing [of rules_sample] by (simp add: rules_sample_entries)
qed

text \<open>The observed node types of a ProseMirror document are in key order without
  duplicates, and their counts add up to the elements of the document down to the depth
  cap.\<close>

theorem node_types_counted:
  assumes "pm_collect_node_types fragment = Some m"
  shows "sorted_wrt (<) (map fst m)
    \<and> total_count m = sum_list (map (element_count 0) (xml_elements fragment))"
proof -
  let ?f = "\<lambda>m node. case node of XElement e \<Rightarrow> pm_observe e m 0 | _ \<Rightarrow> m"
  have "sorted_wrt (<) (map fst acc) \<Longrightarrow> sorted_wrt (<) (map fst (foldl ?f acc frag))"
    and "total_count (foldl ?f acc frag) = total_count acc + sum_list (map (element_count 0) (xml_elements frag))"
    for acc frag
    by (induction frag arbitrary: acc)
      (auto simp: pm_observe_sorted pm_observe_total split: xml_out.splits)
  from this(1) [of "[]" fragment] this(2) [of "[]" fragment] assms show ?thesis
    by (auto simp: pm_collect_node_types_def total_count_def split: if_splits)
qed

lemma node_types_sample: "pm_collect_node_types pm_sample = Some
    [(''paragraph'', \<lparr>ti_count = 1, ti_attrs = [], ti_children = [], ti_text = True\<rparr>)]"
  by code_simp

theorem node_types_counted_witness:
  "sorted_wrt (<) (map fst [(''paragraph'', \<lparr>ti_count = 1, ti_attrs = [], ti_children = [], ti_text = True\<rparr>)])
    \<and> total_count [(''paragraph'', \<lparr>ti_count = 1, ti_attrs = [], ti_children = [], ti_text = True\<rparr>)]
      = sum_list (map (element_count 0) (xml_elements pm_sample))"
  by (rule node_types_counted [OF node_types_sample])

text \<open>A colour that is rewritten becomes \<open>rgb(r, g, b)\<close> with three components below 256,
  and only a \<open>#\<close> followed by three or six ASCII characters is rewritten.\<close>

lemma hex_value_bound: "hex_value acc s = Some n \<Longrightarrow> acc < 256 \<Longrightarrow> n < 256"
  by (induction acc s rule: hex_value.induct) (auto split: option.splits if_splits)

lemma u8_from_hex_bound: "u8_from_hex s = Some n \<Longrightarrow> n < 256"
  using hex_value_bound [of 0] by (auto simp: u8_from_hex_def simp del: hex_value.simps split: list.splits if_splits)

theorem hex_colours:
  assumes "pm_hex_to_rgb value = Some out"
  shows "(\<exists>hex. value = CHR ''#'' # hex \<and> length hex \<in> {3, 6} \<and> is_ascii_str hex)
    \<and> (\<exists>r g b. r < 256 \<and> g < 256 \<and> b < 256
         \<and> out = ''rgb('' @ string_of_nat r @ '', '' @ string_of_nat g @ '', '' @ string_of_nat b @ '')'')"
proof -
  obtain x y z where r: "rgb (u8_from_hex x) (u8_from_hex y) (u8_from_hex z) = Some out"
    using assms by (auto simp: pm_hex_to_rgb_def Let_def split: list.splits if_splits)
  then have "\<exists>r g b. r < 256 \<and> g < 256 \<and> b < 256
      \<and> out = ''rgb('' @ string_of_nat r @ '', '' @ string_of_nat g @ '', '' @ string_of_nat b @ '')''"
    using u8_from_hex_bound by (fastforce simp: rgb_def bind_eq_Some_conv)
  with assms show ?thesis
    by (auto simp: pm_hex_to_rgb_def split: list.splits if_splits)
qed

lemma hex_sample: "pm_hex_to_rgb ''#f80'' = Some ''rgb(255, 136, 0)''"
  by code_simp

theorem hex_colours_witness:
  "\<exists>r g b. r < 256 \<and> g < 256 \<and> b < (256 :: nat)
     \<and> ''rgb(255, 136, 0)'' = ''rgb('' @ string_of_nat r @ '', '' @ string_of_nat g @ '', '' @ string_of_nat b @ '')''"
  using hex_colours [OF hex_sample] by blast

text \<open>The parser of the digits takes a leading plus sign, so these are rewritten too.\<close>

lemma hex_accepts_plus: "pm_hex_to_rgb ''#+1+2+3'' = Some ''rgb(1, 2, 3)''"
  by code_simp

end
