(* ===== verification/Renderers.thy ===== *)
theory Renderers
  imports DocLookup RenderProps
begin

text \<open>
  The native renderer classes as Ruby uses them (\<open>RbLexical\<close> and \<open>RbProseMirror\<close> of
  \<open>src/ext/yrby/src/lib.rs\<close>): an object keeps the rules it was built with and a handle to the document,
  whose state at the time of the call it renders.
\<close>

record rb_lexical =
  lx_rules :: rules

record rb_prosemirror =
  pm_rules :: rules

definition lexical_new :: "(string \<Rightarrow> string + json) \<Rightarrow> string \<Rightarrow> bind_error + rb_lexical" where
  "lexical_new from_str rules_json = bind_sum (parse_rules from_str rules_json) (\<lambda>rs. Inr \<lparr>lx_rules = rs\<rparr>)"

definition prosemirror_new :: "(string \<Rightarrow> string + json) \<Rightarrow> string \<Rightarrow> bind_error + rb_prosemirror" where
  "prosemirror_new from_str rules_json = bind_sum (parse_rules from_str rules_json) (\<lambda>rs. Inr \<lparr>pm_rules = rs\<rparr>)"

definition lexical_render ::
  "yrs \<Rightarrow> (rvalue \<Rightarrow> string option) \<Rightarrow> ('d, 'id) yrs_roots \<Rightarrow> rb_lexical \<Rightarrow> string option \<Rightarrow> rvalue list \<Rightarrow> 'd rb_doc
     \<Rightarrow> bind_error + rvalue" where
  "lexical_render y try_string lk r intr args rb =
     lexical_to_html y try_string (root_fragment lk (ydoc rb)) (lx_rules r) intr args"

definition prosemirror_render ::
  "yrs \<Rightarrow> (rvalue \<Rightarrow> string option) \<Rightarrow> ('d, 'id) yrs_roots \<Rightarrow> rb_prosemirror \<Rightarrow> string option \<Rightarrow> rvalue list \<Rightarrow> 'd rb_doc
     \<Rightarrow> bind_error + rvalue" where
  "prosemirror_render y try_string lk r intr args rb =
     prosemirror_to_html y try_string (root_fragment lk (ydoc rb)) (pm_rules r) intr args"

section \<open>What they return\<close>

lemma segments_result_html:
  assumes "markup voc (seg_items segs)" and "v_deferred voc = {}"
  shows "\<exists>html. segments_result (Some segs) = RString html \<and> markup voc (chs html)"
proof -
  obtain html where "into_html (flatten segs) = Some html" "markup voc (chs html)"
    using flatten_markup [OF assms] by blast
  then show ?thesis by (cases "flatten segs") (simp_all add: segments_result_def)
qed

lemma bound_render_html:
  fixes render :: "fragment \<Rightarrow> (bool \<times> segment list) option"
  assumes "\<And>f fine segs. render f = Some (fine, segs) \<Longrightarrow> markup voc (seg_items segs)"
    and "v_deferred voc = {}"
    and "v = segments_result (Option.bind found (\<lambda>f. map_option snd (render f)))"
  shows "v = RNil \<or> (\<exists>html. v = RString html \<and> markup voc (chs html))"
proof (cases "Option.bind found render")
  case None
  then have "Option.bind found (\<lambda>f. map_option snd (render f)) = None"
    by (auto simp: bind_eq_None_conv)
  with assms(3) show ?thesis by (simp add: segments_result_def)
next
  case (Some r)
  then obtain f where f: "found = Some f" "render f = Some (fst r, snd r)"
    by (auto simp: bind_eq_Some_conv)
  from segments_result_html [OF assms(1) [OF f(2)] assms(2)] f assms(3) show ?thesis by simp
qed

lemma native_html:
  assumes "callback_types rs = {}"
  shows "(\<forall>v. lexical_to_html y try_string root rs intr args = Inr v \<longrightarrow>
      v = RNil \<or> (\<exists>html. v = RString html \<and> markup (lx_vocab rs) (chs html)))
    \<and> (\<forall>v. prosemirror_to_html y try_string root rs intr args = Inr v \<longrightarrow>
      v = RNil \<or> (\<exists>html. v = RString html \<and> markup (pm_vocab rs) (chs html)))"
proof -
  have none: "v_deferred (lx_vocab rs) = {}" "v_deferred (pm_vocab rs) = {}"
    using assms by (simp_all add: lx_vocab_def pm_vocab_def)
  show ?thesis
  proof (intro conjI allI impI)
    fix v
    assume "lexical_to_html y try_string root rs intr args = Inr v"
    then obtain name where "v = segments_result
        (Option.bind (root name) (\<lambda>f. map_option snd (lx_render_segments y f rs)))"
      by (auto simp: lexical_to_html_def bind_sum_Inr_iff nogvl_def split: option.splits)
    then show "v = RNil \<or> (\<exists>html. v = RString html \<and> markup (lx_vocab rs) (chs html))"
      by (rule bound_render_html [rotated, OF none(1)]) (use lx_render_segments_markup in blast)
  next
    fix v
    assume "prosemirror_to_html y try_string root rs intr args = Inr v"
    then obtain name where "v = segments_result
        (Option.bind (root name) (\<lambda>f. map_option snd (pm_render_segments y f rs)))"
      by (auto simp: prosemirror_to_html_def bind_sum_Inr_iff nogvl_def split: option.splits)
    then show "v = RNil \<or> (\<exists>html. v = RString html \<and> markup (pm_vocab rs) (chs html))"
      by (rule bound_render_html [rotated, OF none(2)]) (use pm_render_segments_markup in blast)
  qed
qed

text \<open>C40. A renderer built from rules without callbacks, of either class, returns nil or a String from
  \<open>to_html\<close>, never nested segments, whatever the document has become since, and the String is
  well-formed markup; one whose rules do not parse is not built.\<close>

theorem renderer_html_is_string:
  assumes "callback_types rs = {}"
  shows "(case parse_rules from_str js of
      Inl e \<Rightarrow> lexical_new from_str js = Inl e \<and> prosemirror_new from_str js = Inl e
    | Inr rs' \<Rightarrow> lexical_new from_str js = Inr \<lparr>lx_rules = rs'\<rparr> \<and> prosemirror_new from_str js = Inr \<lparr>pm_rules = rs'\<rparr>)
    \<and> (\<forall>v. lexical_render y try_string lk \<lparr>lx_rules = rs\<rparr> intr args rb = Inr v \<longrightarrow>
      v = RNil \<or> (\<exists>html. v = RString html \<and> markup (lx_vocab rs) (chs html)))
    \<and> (\<forall>v. prosemirror_render y try_string lk \<lparr>pm_rules = rs\<rparr> intr args rb = Inr v \<longrightarrow>
      v = RNil \<or> (\<exists>html. v = RString html \<and> markup (pm_vocab rs) (chs html)))"
  using native_html [OF assms]
  by (simp add: lexical_new_def prosemirror_new_def lexical_render_def prosemirror_render_def split: sum.split)

definition sample_roots :: "(fragment, nat) yrs_roots" where
  "sample_roots =
    \<lparr>new_doc = (\<lambda>_. []), doc_client = (\<lambda>_. 1), root_refs = (\<lambda>_. [''root'']), root_text_string = (\<lambda>_ _. None),
     root_fragment = (\<lambda>d _. Some d), root_map_entries = (\<lambda>_ _. None), root_array_items = (\<lambda>_ _. None),
     xml_parent = (\<lambda>_ _. None), is_root_branch = (\<lambda>_. True), is_xml_text = (\<lambda>_ _. False)\<rparr>"

theorem renderer_html_is_string_witness:
  "\<exists>html. lexical_render plain_yrs (\<lambda>_. None) sample_roots \<lparr>lx_rules = rules_empty\<rparr> None [] \<lparr>ydoc = lx_sample, unsent = []\<rparr>
      = Inr (RString html) \<and> markup (lx_vocab rules_empty) (chs html)"
proof -
  have "lexical_render plain_yrs (\<lambda>_. None) sample_roots \<lparr>lx_rules = rules_empty\<rparr> None [] \<lparr>ydoc = lx_sample, unsent = []\<rparr>
      = Inr (RString ''<p><strong>a&lt;b</strong></p>'')"
    by (simp add: lexical_render_def sample_roots_def lexical_to_html_def root_name_arg_def segments_result_def lx_sample_renders
        flatten_def nogvl_def)
  moreover have "callback_types rules_empty = {}" by (simp add: callback_types_def rules_empty_def)
  ultimately show ?thesis
    using renderer_html_is_string [where rs = rules_empty and y = plain_yrs and try_string = "\<lambda>_. None" and lk = sample_roots
        and intr = None and args = "[]" and rb = "\<lparr>ydoc = lx_sample, unsent = []\<rparr>"] by auto
qed

end
