(* ===== verification/NativeGlue.thy ===== *)
theory NativeGlue
  imports SharedValues Unsent
begin

text \<open>
  What \<open>src/ext/yrby/src/lib.rs\<close> puts between Ruby and the document for every call: Strings of
  bytes (\<open>binary_string\<close>, \<open>copy_bytes\<close>), the error class (\<open>yrb_error\<close>) with the constants \<open>init\<close>
  and the four \<open>define\<close> functions register, and the mutex around the unsent updates (\<open>lock\<close>).
\<close>

section \<open>Strings of bytes\<close>

text \<open>The \<open>u8\<close>s of a \<open>Vec\<close>.\<close>

definition is_bytes :: "bytes \<Rightarrow> bool" where
  "is_bytes bs = list_all (\<lambda>b. b < 256) bs"

text \<open>A String in the binary encoding, whatever the bytes are.\<close>

definition binary_string :: "bytes \<Rightarrow> rvalue" where
  "binary_string bs = RBinary (map char_of bs)"

text \<open>An \<open>RString\<close> argument is the String itself, in any encoding; another object is converted by
  \<open>to_str\<close>.  Its bytes are copied out.\<close>

definition rstring_arg :: "(rvalue \<Rightarrow> string + string) \<Rightarrow> rvalue \<Rightarrow> string + string" where
  "rstring_arg to_str v = (case v of RString s \<Rightarrow> Inr s | RBinary s \<Rightarrow> Inr s | _ \<Rightarrow> to_str v)"

definition copy_bytes :: "string \<Rightarrow> bytes" where
  "copy_bytes s = map of_char s"

lemma copy_bytes_is_bytes [simp]: "is_bytes (copy_bytes s)"
  by (simp add: copy_bytes_def is_bytes_def list_all_iff)

lemma copy_of_chars [simp]: "is_bytes bs \<Longrightarrow> copy_bytes (map char_of bs) = bs"
  by (simp add: copy_bytes_def is_bytes_def list_all_iff map_idI)

lemma binary_string_arg [simp]: "rstring_arg to_str (binary_string bs) = Inr (map char_of bs)"
  by (simp add: rstring_arg_def binary_string_def)

text \<open>Any merge of byte sequences is one, when yrs's are.\<close>

lemma merge_chunks_all:
  assumes all: "\<forall>us m. mu us = Inr m \<longrightarrow> P m" and "list_all P us" and "merge_chunks mu us = Inr level"
  shows "list_all P level"
proof -
  have "P m" if "c \<in> set (chunks MERGE_FAN_IN us)" "merge_chunk mu c = Inr m" for c m
  proof (cases "\<exists>u. c = [u]")
    case True
    have "set c \<subseteq> set (concat (chunks MERGE_FAN_IN us))" using that(1) by auto
    then have "set c \<subseteq> set us" by (simp only: concat_chunks MERGE_FAN_IN_def zero_less_numeral)
    with True that(2) assms(2) show ?thesis by (auto simp: merge_chunk_def list_all_iff)
  next
    case False
    with that(2) have "mu c = Inr m" by (auto simp: merge_chunk_def split: list.splits)
    with all show ?thesis by blast
  qed
  moreover have eq: "map (merge_chunk mu) (chunks MERGE_FAN_IN us) = map Inr level"
    using assms(3) by (simp add: merge_chunks_Inr)
  have "\<exists>c \<in> set (chunks MERGE_FAN_IN us). merge_chunk mu c = Inr m" if "m \<in> set level" for m
  proof -
    from that have "(Inr m :: string + bytes) \<in> set (map (merge_chunk mu) (chunks MERGE_FAN_IN us))"
      unfolding eq by simp
    then show ?thesis by auto
  qed
  ultimately show ?thesis by (metis list_all_iff)
qed

lemma merge_levels_all:
  "\<forall>us m. mu us = Inr m \<longrightarrow> P m \<Longrightarrow> list_all P level \<Longrightarrow> merge_levels mu level = Inr out \<Longrightarrow> list_all P out"
proof (induction mu level rule: merge_levels.induct)
  case (1 mu level)
  show ?case
  proof (cases "1 < length level")
    case True
    with 1(4) obtain level' where l: "merge_chunks mu level = Inr level'" "merge_levels mu level' = Inr out"
      by (auto simp: merge_levels_more split: sum.splits)
    from 1(1) [OF True l(1) 1(2) merge_chunks_all [OF 1(2,3) l(1)] l(2)] show ?thesis .
  next
    case False
    with 1(3,4) show ?thesis by (simp add: merge_levels_done)
  qed
qed

lemma merge_levels_nonempty: "merge_levels mu level = Inr out \<Longrightarrow> level \<noteq> [] \<Longrightarrow> out \<noteq> []"
proof (induction mu level rule: merge_levels.induct)
  case (1 mu level)
  then show ?case
    by (cases "1 < length level")
      (auto simp: merge_levels_more merge_levels_done split: sum.splits dest: merge_chunks_nonempty)
qed

lemma merge_unsent_all:
  assumes all: "\<forall>us m. mu us = Inr m \<longrightarrow> P m" and "list_all P us" and "us \<noteq> []" and "merge_unsent mu us = Inr m"
  shows "P m"
proof (cases "\<exists>u. us = [u]")
  case False
  with assms(4) obtain level out where l: "merge_chunks mu us = Inr level" "merge_levels mu level = Inr out"
    "m = pop_or_default out"
    by (auto simp: merge_unsent_def split: list.splits sum.splits elim!: map_sum_InrE)
  have "list_all P out" by (rule merge_levels_all [OF all merge_chunks_all [OF all assms(2) l(1)] l(2)])
  moreover have "out \<noteq> []" by (rule merge_levels_nonempty [OF l(2) merge_chunks_nonempty [OF l(1) assms(3)]])
  ultimately show ?thesis using l(3) by (simp add: pop_or_default_def list_all_iff)
qed (use assms(2,4) in \<open>auto simp: merge_unsent_def\<close>)

section \<open>Constants and errors\<close>

text \<open>What is defined under a name: the module, a class with its superclass, or an integer.\<close>

datatype ruby_constant = RModule | RClass string | RInt nat

definition init_constants :: "(string \<times> ruby_constant) list" where
  "init_constants =
    [(''Y'', RModule),
     (''Y::Error'', RClass ''StandardError''),
     (''Y::Doc'', RClass ''Object''),
     (''Y::NativeLexical'', RClass ''Object''),
     (''Y::NativeProseMirror'', RClass ''Object''),
     (''Y::Awareness'', RClass ''Object''),
     (''Y::Map'', RClass ''Object''),
     (''Y::Array'', RClass ''Object''),
     (''Y::Text'', RClass ''Object''),
     (''Y::XmlText'', RClass ''Object''),
     (''Y::MSG_SYNC'', RInt 0),
     (''Y::MSG_AWARENESS'', RInt 1),
     (''Y::MSG_SYNC_STEP1'', RInt 0),
     (''Y::MSG_SYNC_STEP2'', RInt 1),
     (''Y::MSG_SYNC_UPDATE'', RInt 2)]"

text \<open>\<open>eval::<ExceptionClass>\<close>: the name of a class below an exception class of Ruby.\<close>

definition exception_class :: "(string \<times> ruby_constant) list \<Rightarrow> string \<Rightarrow> string option" where
  "exception_class consts name =
     (case map_of consts name of
        Some (RClass super) \<Rightarrow>
          if super \<in> set [''Exception'', ''StandardError'', ''RuntimeError'', ''ArgumentError''] then Some name else None
      | _ \<Rightarrow> None)"

text \<open>The class of the error, and its message.\<close>

definition yrb_error :: "(string \<times> ruby_constant) list \<Rightarrow> string \<Rightarrow> string \<times> string" where
  "yrb_error consts msg =
     (case exception_class consts ''Y::Error'' of Some k \<Rightarrow> k | None \<Rightarrow> ''RuntimeError'', msg)"

text \<open>Once the library is loaded the fallback is never taken, and no constant is defined twice.\<close>

lemma errors_are_y_errors: "yrb_error init_constants msg = (''Y::Error'', msg)"
  by (simp add: yrb_error_def exception_class_def init_constants_def)

lemma constants_once: "distinct (map fst init_constants)"
  by (simp add: init_constants_def)

section \<open>The mutex around the unsent updates\<close>

text \<open>A thread that panics while it holds the mutex poisons it.\<close>

record 'a mutex =
  inner :: 'a
  poisoned :: bool

datatype 'a lock_result = Locked 'a | Poisoned 'a

definition mutex_lock :: "'a mutex \<Rightarrow> 'a lock_result" where
  "mutex_lock m = (if poisoned m then Poisoned (inner m) else Locked (inner m))"

text \<open>\<open>unwrap_or_else(into_inner)\<close>.\<close>

definition lock :: "'a mutex \<Rightarrow> 'a" where
  "lock m = (case mutex_lock m of Locked v \<Rightarrow> v | Poisoned v \<Rightarrow> v)"

text \<open>So every operation sees the list, poisoned or not, and the theories keep only the list.\<close>

lemma lock_inner: "lock m = inner m"
  by (simp add: lock_def mutex_lock_def)

end
