(* ===== verification/DocCalls.thy ===== *)
theory DocCalls
  imports Dispatch DocBlocks Renderers Presence NativeGlue
begin

text \<open>
  Calls by name on the classes that are not handles, and on the module (\<open>init\<close> in
  \<open>src/ext/yrby/src/lib.rs\<close>): \<open>Y::Doc\<close>, the two native renderers, \<open>Y::Awareness\<close> and the module
  functions of \<open>Y\<close>.  An update or a frame crosses as a binary String, a root's name as text, a
  position as a Hash.

  \<open>block_at\<close> and \<open>find\<close> walk a tree, so a call on a document is \<open>None\<close> when it does not return.
  A program of Ruby calls on one document, through the document and its handles, is a step
  relation that also keeps what the calls handed out and put back.
\<close>

section \<open>What the calls are given\<close>

text \<open>\<open>root_touch\<close>, \<open>root_seq\<close> and \<open>root_events\<close> are those of \<open>apply_update_changes\<close> for each root; the
  counter of \<open>remote_key\<close> is an argument of the call.\<close>

record ('d, 'id, 'upd, 'sv, 'aw) doc_env =
  handle_env :: "('d, 'id) native_env"
  doc_sync :: "('d, 'upd, 'sv, 'aw) yrs_sync"
  doc_roots :: "('d, 'id) yrs_roots"
  to_str :: "rvalue \<Rightarrow> string + string"
  root_touch :: "string \<Rightarrow> 'd \<Rightarrow> 'd"
  root_seq :: "string \<Rightarrow> 'd \<Rightarrow> diff"
  root_events :: "string \<Rightarrow> 'd \<Rightarrow> 'd \<Rightarrow> (path_segment option \<times> root_event) list"

definition ret_bytes :: "bytes \<Rightarrow> 'id returned_value" where
  "ret_bytes bs = RetValue (binary_string bs)"

definition ret_ints :: "nat list \<Rightarrow> 'id returned_value" where
  "ret_ints ns = RetValue (RArray (map (\<lambda>n. RInteger (int n)) ns))"

definition ret_strings :: "string list \<Rightarrow> 'id returned_value" where
  "ret_strings ss = RetValue (RArray (map RString ss))"

text \<open>The triple of \<open>handle_sync_message\<close>.\<close>

definition ret_reply :: "nat \<times> nat \<times> bytes \<Rightarrow> 'id returned_value" where
  "ret_reply r = (case r of (msg_type, sync_type, response) \<Rightarrow>
     RetValue (RArray [RInteger (int msg_type), RInteger (int sync_type), binary_string response]))"

definition syncs :: "('a \<Rightarrow> 'r) \<Rightarrow> string + 'a \<Rightarrow> 's \<Rightarrow> ('s, 'r) native_result" where
  "syncs f r s = (map_sum SyncError f r, s)"

definition sync_writes :: "('a \<Rightarrow> 'r) \<Rightarrow> (string + 'a) \<times> 's \<Rightarrow> ('s, 'r) native_result" where
  "sync_writes f p = apfst (map_sum SyncError f) p"

definition with_bytes ::
  "(rvalue \<Rightarrow> string + string) \<Rightarrow> rvalue \<Rightarrow> 's \<Rightarrow> (bytes \<Rightarrow> ('s, 'r) native_result) \<Rightarrow> ('s, 'r) native_result" where
  "with_bytes conv v s f = with_arg (rstring_arg conv v) s (\<lambda>x. f (copy_bytes x))"

section \<open>Methods of a document\<close>

text \<open>The methods that always return; the two walks are below.\<close>

fun doc_native ::
  "('d, 'id, 'upd, 'sv, 'aw) doc_env \<Rightarrow> string option \<Rightarrow> nat \<Rightarrow> doc_method \<Rightarrow> rvalue list \<Rightarrow> 'd rb_doc
     \<Rightarrow> ('d, 'id) call_result option" where
  "doc_native env intr key DocEncodeStateVector args rb =
     Some (args0 args rb (syncs ret_bytes (encode_state_vector (doc_sync env) intr rb) rb))"
| "doc_native env intr key DocEncodeState args rb =
     Some (case args of
         [] \<Rightarrow> syncs ret_bytes (encode_state (doc_sync env) intr rb None) rb
       | sv # _ \<Rightarrow> with_bytes (to_str env) sv rb (\<lambda>sv. syncs ret_bytes (encode_state (doc_sync env) intr rb (Some sv)) rb))"
| "doc_native env intr key DocApplyUpdate args rb =
     Some (args1 args rb (\<lambda>u. with_bytes (to_str env) u rb (\<lambda>u.
       sync_writes ret_nil (apply_update (doc_sync env) (env_tu (handle_env env)) intr rb u))))"
| "doc_native env intr key DocClientId args rb =
     Some (args0 args rb (Inr (ret_nat (rd_client_id (doc_roots env) rb)), rb))"
| "doc_native env intr key DocApplyUpdateChanges args rb =
     Some (args2 args rb (\<lambda>u root. with_bytes (to_str env) u rb (\<lambda>u. with_arg (arg_str (handle_env env) root) rb (\<lambda>root.
       sync_writes ret_ints (apply_update_changes (doc_sync env) (env_tu (handle_env env)) (root_touch env root)
         (root_seq env root) (root_events env root) intr key rb u)))))"
| "doc_native env intr key DocBlockAt args rb =
     (case args of
        [p, r] \<Rightarrow>
          (case arg_hash (handle_env env) p of
             Inl e \<Rightarrow> Some (Inl (ArgType e), rb)
           | Inr position \<Rightarrow>
               (case arg_str (handle_env env) r of
                  Inl e \<Rightarrow> Some (Inl (ArgType e), rb)
                | Inr root \<Rightarrow>
                    map_option (\<lambda>r. reads (ret_option ret_nat) r rb)
                      (block_at (env_int (handle_env env)) (env_string (handle_env env)) (env_store (handle_env env))
                        (doc_roots env) intr rb position root)))
      | _ \<Rightarrow> Some (Inl (Lookup WrongArguments), rb))"
| "doc_native env intr key DocFind args rb =
     (case args of
        [p, r] \<Rightarrow>
          (case arg_hash (handle_env env) p of
             Inl e \<Rightarrow> Some (Inl (ArgType e), rb)
           | Inr position \<Rightarrow>
               (case arg_str (handle_env env) r of
                  Inl e \<Rightarrow> Some (Inl (ArgType e), rb)
                | Inr root \<Rightarrow>
                    map_option (\<lambda>r. reads (ret_option RetBlock) r rb)
                      (find_block (env_int (handle_env env)) (env_string (handle_env env)) (env_store (handle_env env))
                        (doc_roots env) intr rb position root)))
      | _ \<Rightarrow> Some (Inl (Lookup WrongArguments), rb))"
| "doc_native env intr key DocTakeUnsent args rb =
     Some (args0 args rb
       (let (r, us) = take_unsent (merge_updates_v1 (doc_sync env)) intr (unsent rb)
        in (map_sum SyncError (ret_option ret_bytes) r, rb\<lparr>unsent := us\<rparr>)))"
| "doc_native env intr key DocKeepUnsent args rb =
     Some (args1 args rb (\<lambda>u. with_bytes (to_str env) u rb (\<lambda>u.
       (Inr (ret_nil ()), rb\<lparr>unsent := keep_unsent u (unsent rb)\<rparr>))))"
| "doc_native env intr key DocRootNames args rb =
     Some (args0 args rb (reads ret_strings (root_names (doc_roots env) intr rb) rb))"
| "doc_native env intr key DocReadText args rb =
     Some (args1 args rb (\<lambda>n. with_arg (arg_str (handle_env env) n) rb (\<lambda>n.
       reads (ret_option ret_str) (read_text (doc_roots env) intr rb n) rb)))"
| "doc_native env intr key DocReadXml args rb =
     Some (args1 args rb (\<lambda>n. with_arg (arg_str (handle_env env) n) rb (\<lambda>n.
       reads (ret_option ret_str) (read_xml (env_yrs (handle_env env)) (doc_roots env) intr rb n) rb)))"
| "doc_native env intr key DocReadMap args rb =
     Some (args1 args rb (\<lambda>n. with_arg (arg_str (handle_env env) n) rb (\<lambda>n.
       reads (ret_option ret_str) (read_map (env_yrs (handle_env env)) (doc_roots env) intr rb n) rb)))"
| "doc_native env intr key DocReadArray args rb =
     Some (args1 args rb (\<lambda>n. with_arg (arg_str (handle_env env) n) rb (\<lambda>n.
       reads (ret_option ret_str) (read_array (env_yrs (handle_env env)) (doc_roots env) intr rb n) rb)))"
| "doc_native env intr key DocPending args rb =
     Some (args0 args rb (syncs ret_bool (pending (doc_sync env) intr rb) rb))"
| "doc_native env intr key DocCompacted args rb =
     Some (args0 args rb (syncs ret_bytes (compacted_state_update (doc_sync env) intr rb) rb))"
| "doc_native env intr key DocGetMap args rb =
     Some (args1 args rb (\<lambda>n. with_arg (arg_str (handle_env env) n) rb (\<lambda>n.
       writes (RetHandle KMap) (doc_get_map (env_store (handle_env env)) intr n rb))))"
| "doc_native env intr key DocGetArray args rb =
     Some (args1 args rb (\<lambda>n. with_arg (arg_str (handle_env env) n) rb (\<lambda>n.
       writes (RetHandle KArray) (doc_get_array (env_store (handle_env env)) intr n rb))))"
| "doc_native env intr key DocGetText args rb =
     Some (args1 args rb (\<lambda>n. with_arg (arg_str (handle_env env) n) rb (\<lambda>n.
       writes (RetHandle KText) (doc_get_text (env_store (handle_env env)) intr n rb))))"
| "doc_native env intr key DocGetXmlText args rb =
     Some (args1 args rb (\<lambda>n. with_arg (arg_str (handle_env env) n) rb (\<lambda>n.
       writes RetBlock (doc_get_xml_text (env_store (handle_env env)) intr n rb))))"
| "doc_native env intr key DocUpdateReady args rb =
     Some (args1 args rb (\<lambda>u. with_bytes (to_str env) u rb (\<lambda>u. syncs ret_bool (update_ready (doc_sync env) intr rb u) rb)))"
| "doc_native env intr key DocUpdateAdvances args rb =
     Some (args1 args rb (\<lambda>u. with_bytes (to_str env) u rb (\<lambda>u. syncs ret_bool (update_advances (doc_sync env) intr rb u) rb)))"
| "doc_native env intr key DocSyncStep1 args rb =
     Some (args0 args rb (syncs ret_bytes (sync_step1 (doc_sync env) intr rb) rb))"
| "doc_native env intr key DocHandleSyncMessage args rb =
     Some (args1 args rb (\<lambda>m. with_bytes (to_str env) m rb (\<lambda>m.
       sync_writes ret_reply (handle_sync_message (doc_sync env) (env_tu (handle_env env)) intr rb m))))"

definition doc_call ::
  "('d, 'id, 'upd, 'sv, 'aw) doc_env \<Rightarrow> string option \<Rightarrow> nat \<Rightarrow> bool \<Rightarrow> string \<Rightarrow> rvalue list \<Rightarrow> 'd rb_doc
     \<Rightarrow> ('d, 'id) call_result option" where
  "doc_call env intr key explicit_receiver name args rb =
     (case find_method doc_define explicit_receiver name (length args) of
        Inl e \<Rightarrow> Some (Inl (Lookup e), rb)
      | Inr op \<Rightarrow> doc_native env intr key op args rb)"

interpretation doc_rows: method_table doc_define
  by unfold_locales (rule distinct_names)

section \<open>The renderers, presence and the module\<close>

fun lexical_native ::
  "('d, 'id, 'upd, 'sv, 'aw) doc_env \<Rightarrow> (json \<Rightarrow> string) \<Rightarrow> string option \<Rightarrow> rb_lexical \<Rightarrow> renderer_method \<Rightarrow> rvalue list
     \<Rightarrow> 'd rb_doc \<Rightarrow> ('d, 'id) call_result" where
  "lexical_native env json_str intr r ToHtml args rb =
     reads RetValue (map_sum BindErr id (lexical_render (env_yrs (handle_env env)) (env_string (handle_env env))
       (doc_roots env) r intr args rb)) rb"
| "lexical_native env json_str intr r NodeTypes args rb =
     reads (ret_option (\<lambda>js. ret_str (json_str js))) (map_sum BindErr id (lexical_node_types (env_string (handle_env env))
       (root_fragment (doc_roots env) (ydoc rb)) (lx_rules r) intr args)) rb"

fun prosemirror_native ::
  "('d, 'id, 'upd, 'sv, 'aw) doc_env \<Rightarrow> (json \<Rightarrow> string) \<Rightarrow> string option \<Rightarrow> rb_prosemirror \<Rightarrow> renderer_method \<Rightarrow> rvalue list
     \<Rightarrow> 'd rb_doc \<Rightarrow> ('d, 'id) call_result" where
  "prosemirror_native env json_str intr r ToHtml args rb =
     reads RetValue (map_sum BindErr id (prosemirror_render (env_yrs (handle_env env)) (env_string (handle_env env))
       (doc_roots env) r intr args rb)) rb"
| "prosemirror_native env json_str intr r NodeTypes args rb =
     reads (ret_option (\<lambda>js. ret_str (json_str js))) (map_sum BindErr id (prosemirror_node_types (env_string (handle_env env))
       (root_fragment (doc_roots env) (ydoc rb)) (pm_rules r) intr args)) rb"

fun awareness_native ::
  "('d, 'id, 'upd, 'sv, aw_entries) doc_env \<Rightarrow> 'a yrs_awareness \<Rightarrow> (string \<Rightarrow> string + json) \<Rightarrow> awareness_method
     \<Rightarrow> rvalue list \<Rightarrow> 'a \<Rightarrow> ('a, 'id returned_value) native_result" where
  "awareness_native env aw from_str AwClientId args a = args0 args a (Inr (ret_nat (aw_client_id aw a)), a)"
| "awareness_native env aw from_str AwSetLocalState args a =
     args1 args a (\<lambda>js. with_arg (arg_str (handle_env env) js) a (\<lambda>js.
       sync_writes ret_bytes (aw_set_local_state (doc_sync env) aw from_str js a)))"
| "awareness_native env aw from_str AwClearLocalState args a =
     args0 args a (sync_writes ret_bytes (aw_clear_local_state (doc_sync env) aw a))"
| "awareness_native env aw from_str AwApplyUpdate args a =
     args1 args a (\<lambda>f. with_bytes (to_str env) f a (\<lambda>f. sync_writes ret_bool (aw_apply_update (doc_sync env) aw f a)))"
| "awareness_native env aw from_str AwStates args a = args0 args a (syncs ret_hash (aw_states aw from_str a) a)"
| "awareness_native env aw from_str AwClocks args a = args0 args a (Inr (ret_hash (aw_clocks aw a)), a)"

text \<open>The module functions have no state.\<close>

fun module_native ::
  "('d, 'id, 'upd, 'sv, 'aw) doc_env \<Rightarrow> string option \<Rightarrow> module_function \<Rightarrow> rvalue list \<Rightarrow> unit
     \<Rightarrow> (unit, 'id returned_value) native_result" where
  "module_native env intr WrapUpdate args s =
     args1 args s (\<lambda>u. with_bytes (to_str env) u s (\<lambda>u. (Inr (ret_bytes (wrap_update (doc_sync env) u)), s)))"
| "module_native env intr MessageKind args s =
     args1 args s (\<lambda>m. with_bytes (to_str env) m s (\<lambda>m. syncs ret_nat (message_kind (doc_sync env) intr m) s))"
| "module_native env intr UpdateFromMessage args s =
     args1 args s (\<lambda>m. with_bytes (to_str env) m s (\<lambda>m.
       syncs (ret_option ret_bytes) (update_from_message (doc_sync env) intr m) s))"

section \<open>The contracts of these classes\<close>

lemma clean_syncs: "clean s (syncs f r s)" "clean s (sync_writes f p)"
  by (auto simp: clean_def syncs_def sync_writes_def map_sum_Inl_iff)

lemma clean_with_bytes: "(\<And>x. clean s (f x)) \<Longrightarrow> clean s (with_bytes conv v s f)"
  by (simp add: with_bytes_def clean_with_arg)

lemmas doc_clean_rules = clean_syncs clean_with_bytes clean_with_arg clean_args clean_reads clean_Inr

lemma lexical_native_clean: "clean rb (lexical_native env js intr r op args rb)"
  by (cases op) (simp_all add: clean_reads)

lemma prosemirror_native_clean: "clean rb (prosemirror_native env js intr r op args rb)"
  by (cases op) (simp_all add: clean_reads)

lemma awareness_native_clean: "clean a (awareness_native env aw from_str op args a)"
  by (cases op) (simp_all add: doc_clean_rules)

lemma module_native_clean: "clean s (module_native env intr op args s)"
  by (cases op) (simp_all add: doc_clean_rules)

interpretation lex: native_class renderer_define "lexical_native env js intr r" for env js intr r
  by unfold_locales (rule distinct_names lexical_native_clean)+

interpretation pros: native_class renderer_define "prosemirror_native env js intr r" for env js intr r
  by unfold_locales (rule distinct_names prosemirror_native_clean)+

interpretation awn: native_class awareness_define "awareness_native env aw from_str" for env aw from_str
  by unfold_locales (rule distinct_names awareness_native_clean)+

interpretation yfun: native_class module_define "module_native env intr" for env intr
  by unfold_locales (rule distinct_names module_native_clean)+

section \<open>What a call on a document leaves\<close>

text \<open>A property of the state a call leaves, whichever way it ends.\<close>

definition leaves :: "('s \<Rightarrow> bool) \<Rightarrow> ('s, 'r) native_result \<Rightarrow> bool" where
  "leaves P p = P (snd p)"

lemma leaves_rules:
  "P s \<Longrightarrow> (\<And>x. leaves P (f x)) \<Longrightarrow> leaves P (with_arg v s f)"
  "P s \<Longrightarrow> (\<And>x. leaves P (g x)) \<Longrightarrow> leaves P (with_bytes conv w s g)"
  "P s \<Longrightarrow> leaves P r \<Longrightarrow> leaves P (args0 args s r)"
  "P s \<Longrightarrow> (\<And>v. leaves P (h v)) \<Longrightarrow> leaves P (args1 args s h)"
  "P s \<Longrightarrow> (\<And>v w. leaves P (k v w)) \<Longrightarrow> leaves P (args2 args s k)"
  "P s \<Longrightarrow> leaves P (reads m x s)"
  "P s \<Longrightarrow> leaves P (syncs n y s)"
  "P s \<Longrightarrow> leaves P (z, s)"
  "P (snd p) \<Longrightarrow> leaves P (sync_writes n p)"
  "P (snd q) \<Longrightarrow> leaves P (writes m' q)"
  by (simp_all add: leaves_def with_bytes_def with_arg_def args0_def args1_def args2_def reads_def syncs_def
      sync_writes_def writes_def split: sum.split list.split)

definition readers :: "doc_method list" where
  "readers =
    [DocEncodeStateVector, DocEncodeState, DocClientId, DocBlockAt, DocFind, DocRootNames, DocReadText, DocReadXml,
     DocReadMap, DocReadArray, DocPending, DocCompacted, DocUpdateReady, DocUpdateAdvances, DocSyncStep1]"

lemma leaves_list: "P s \<Longrightarrow> leaves P r \<Longrightarrow> (\<And>v vs. leaves P (f v vs)) \<Longrightarrow> leaves P (case args of [] \<Rightarrow> r | v # vs \<Rightarrow> f v vs)"
  by (simp split: list.split)

lemma reader_leaves:
  assumes "op \<in> set readers" and "doc_native env intr key op args rb = Some p"
  shows "snd p = rb"
proof -
  have "leaves (\<lambda>s. s = rb) p"
    using assms
    by (cases op) (auto simp: readers_def leaves_rules split: list.splits sum.splits)
  then show ?thesis by (simp add: leaves_def)
qed

lemma unsent_apply_changes: "unsent (snd (apply_update_changes c tu touch sq ev intr key rb bs)) = unsent rb"
  by (simp add: apply_update_changes_def Let_def commit_txn_def on_commit_def remote_key_def is_remote_def starts_with_def
      split: option.split)

lemma unsent_roots:
  "unsent (snd (doc_get_map st intr n rb)) = unsent rb" "unsent (snd (doc_get_array st intr n rb)) = unsent rb"
  "unsent (snd (doc_get_text st intr n rb)) = unsent rb" "unsent (snd (doc_get_xml_text st intr n rb)) = unsent rb"
  by (simp_all add: doc_get_map_def doc_get_array_def doc_get_text_def doc_get_xml_text_def root_map_def root_array_def
      root_text_def root_xml_text_def split: prod.split)

lemma unsent_applies:
  "unsent (snd (apply_update c tu intr rb bs)) = unsent rb"
  "unsent (snd (handle_sync_message c tu intr rb bs)) = unsent rb"
  using apply_remote_unsent [of c tu rb bs] handle_closure_unsent [of c tu rb bs]
  by (simp_all add: apply_update_def handle_sync_message_def split: prod.split) (metis snd_conv)+

text \<open>No method but the two that are for it touches the unsent updates.\<close>

lemma doc_native_unsent:
  assumes "doc_native env intr key op args rb = Some p" and "op \<noteq> DocTakeUnsent" and "op \<noteq> DocKeepUnsent"
  shows "unsent (snd p) = unsent rb"
proof (cases "op \<in> set readers")
  case True
  with reader_leaves [OF this assms(1)] show ?thesis by simp
next
  case False
  have "leaves (\<lambda>s. unsent s = unsent rb) p"
    using assms False
    by (cases op) (auto simp: readers_def leaves_rules unsent_apply_changes unsent_roots unsent_applies)
  then show ?thesis by (simp add: leaves_def)
qed

lemma clean_results: "clean s (map_sum SyncError f r, s')" "clean s (Inr x, s')"
  by (auto simp: clean_def map_sum_Inl_iff)

lemma value_clean_roots:
  "value_clean rb (doc_get_map st intr n rb)" "value_clean rb (doc_get_array st intr n rb)"
  "value_clean rb (doc_get_text st intr n rb)" "value_clean rb (doc_get_xml_text st intr n rb)"
  by (auto simp: value_clean_def doc_get_map_def doc_get_array_def doc_get_text_def doc_get_xml_text_def root_map_def
      root_array_def root_text_def root_xml_text_def nogvl_read_def map_sum_Inl_iff split: prod.split)

lemma doc_native_clean:
  assumes "doc_native env intr key op args rb = Some p"
  shows "clean rb p"
proof (cases "op \<in> set readers")
  case True
  with reader_leaves [OF this assms] show ?thesis by (simp add: clean_def)
next
  case False
  with assms show ?thesis
    by (cases op)
      (auto simp: readers_def doc_clean_rules clean_results clean_writes value_clean_roots split: prod.split)
qed

end
