(* ===== verification/Peers.thy ===== *)
theory Peers
  imports DocSync
begin

text \<open>
  Documents that exchange frames (the document class of \<open>src/ext/yrby/src/lib.rs\<close>, used the way
  \<open>Doc#edit\<close> and a sync channel use it): any number of peers, a wire that delivers frames in any
  order, any number of times and to anyone, and the steps the code can make in between - local
  writes, takes of the unsent updates that succeed, fail or are put back, requests, and
  deliveries through \<open>handle_sync_message\<close>, interrupted or not.

  The lemmas: no change is ever lost (it is unsent at a peer or in a frame on the wire), no peer
  knows a change nobody made, and what has been made is causally closed.  So once the unsent
  updates have been taken and every frame with a change has been delivered, all peers know the
  same changes and none is pending; and from every reachable state takes and deliveries alone
  lead there.
\<close>

section \<open>What frames carry\<close>

definition update_content :: "('doc, 'upd, 'sv, 'aw) yrs_sync \<Rightarrow> ('upd \<Rightarrow> 'c set) \<Rightarrow> bytes \<Rightarrow> 'c set" where
  "update_content c carries bs = (case decode_update c bs of Inr u \<Rightarrow> carries u | Inl _ \<Rightarrow> {})"

definition frame_update :: "('doc, 'upd, 'sv, 'aw) yrs_sync \<Rightarrow> bytes \<Rightarrow> bytes option" where
  "frame_update c f =
     (case decode_message c f of
        Inr (MSync (SyncStep2 bs), _) \<Rightarrow> Some bs
      | Inr (MSync (SyncUpdate bs), _) \<Rightarrow> Some bs
      | _ \<Rightarrow> None)"

definition frame_content :: "('doc, 'upd, 'sv, 'aw) yrs_sync \<Rightarrow> ('upd \<Rightarrow> 'c set) \<Rightarrow> bytes \<Rightarrow> 'c set" where
  "frame_content c carries f = (case frame_update c f of Some bs \<Rightarrow> update_content c carries bs | None \<Rightarrow> {})"

text \<open>What the peers rely on besides the laws of \<open>Protocol\<close> and \<open>DocSync\<close>: a merge carries what
  the updates carry, and the update yrs reports for a transaction that adds changes carries
  them; a transaction that reports nothing added nothing.\<close>

definition txn_laws ::
  "('doc, 'upd, 'sv, 'aw) yrs_sync \<Rightarrow> ('doc \<Rightarrow> 'doc \<Rightarrow> bytes option) \<Rightarrow> ('doc \<Rightarrow> 'c set) \<Rightarrow> ('upd \<Rightarrow> 'c set) \<Rightarrow> bool" where
  "txn_laws c tu known carries \<longleftrightarrow>
     (\<forall>d d'. known d \<subseteq> known d' \<longrightarrow>
        known d' = known d \<union> (case tu d d' of Some bs \<Rightarrow> update_content c carries bs | None \<Rightarrow> {}))"

definition network_laws ::
  "('doc, 'upd, 'sv, 'aw) yrs_sync \<Rightarrow> ('doc \<Rightarrow> 'doc \<Rightarrow> bytes option) \<Rightarrow> ('doc \<Rightarrow> 'c set) \<Rightarrow> ('upd \<Rightarrow> 'c set)
     \<Rightarrow> ('c set \<Rightarrow> 'c set) \<Rightarrow> ('sv \<Rightarrow> 'c set) \<Rightarrow> bool" where
  "network_laws c tu known carries integ covered \<longleftrightarrow>
     crdt_laws c known carries integ \<and> frame_laws c \<and> diff_laws c known carries covered
     \<and> merge_carries (update_content c carries) (merge_updates_v1 c) \<and> txn_laws c tu known carries"

lemma network_lawsD:
  assumes "network_laws c tu known carries integ covered"
  shows "crdt_laws c known carries integ" "frame_laws c" "diff_laws c known carries covered"
    "merge_carries (update_content c carries) (merge_updates_v1 c)" "txn_laws c tu known carries"
  using assms by (simp_all add: network_laws_def)

section \<open>The peers and the wire\<close>

text \<open>\<open>wire\<close> holds every frame ever sent; \<open>got\<close> who has received which.\<close>

record 'doc net =
  peers :: "'doc rb_doc list"
  wire :: "bytes list"
  got :: "(nat \<times> bytes) list"

definition start :: "('doc, 'upd, 'sv, 'aw) yrs_sync \<Rightarrow> nat \<Rightarrow> 'doc net" where
  "start c k = \<lparr>peers = replicate k \<lparr>ydoc = doc_new c, unsent = []\<rparr>, wire = [], got = []\<rparr>"

definition set_peer :: "nat \<Rightarrow> 'doc rb_doc \<Rightarrow> 'doc net \<Rightarrow> 'doc net" where
  "set_peer i p n = n\<lparr>peers := (peers n)[i := p]\<rparr>"

definition put :: "bytes \<Rightarrow> 'doc net \<Rightarrow> 'doc net" where
  "put f n = n\<lparr>wire := f # wire n\<rparr>"

text \<open>The response of \<open>handle_sync_message\<close> goes on the wire when there is one.\<close>

definition reply :: "string + nat \<times> nat \<times> bytes \<Rightarrow> 'doc net \<Rightarrow> 'doc net" where
  "reply r n = (case r of Inr (_, _, resp) \<Rightarrow> if resp = [] then n else put resp n | Inl _ \<Rightarrow> n)"

definition deliver ::
  "('doc, 'upd, 'sv, 'aw) yrs_sync \<Rightarrow> ('doc \<Rightarrow> 'doc \<Rightarrow> bytes option) \<Rightarrow> string option \<Rightarrow> nat \<Rightarrow> bytes
     \<Rightarrow> 'doc net \<Rightarrow> 'doc net" where
  "deliver c tu intr i f n =
     (let (r, p) = handle_sync_message c tu intr (peers n ! i) f
      in reply r (set_peer i p (n\<lparr>got := (i, f) # got n\<rparr>)))"

text \<open>An edit adds changes, each on top of changes the peer has integrated.  A nested
  \<open>Doc#edit\<close> returns its update and puts it back; an outer one that is interrupted only puts
  it back.\<close>

inductive net_step ::
  "('doc, 'upd, 'sv, 'aw) yrs_sync \<Rightarrow> ('doc \<Rightarrow> 'doc \<Rightarrow> bytes option) \<Rightarrow> ('doc \<Rightarrow> 'c set) \<Rightarrow> ('c set \<Rightarrow> 'c set)
     \<Rightarrow> 'doc net \<Rightarrow> 'doc net \<Rightarrow> bool"
  for c tu known integ where
  edit: "i < length (peers n) \<Longrightarrow> p = peers n ! i \<Longrightarrow> known (ydoc p) \<subseteq> known d
     \<Longrightarrow> known d - known (ydoc p) \<subseteq> integ (known d)
     \<Longrightarrow> net_step c tu known integ n (set_peer i (local_write tu p d) n)"
| send: "i < length (peers n) \<Longrightarrow> p = peers n ! i
     \<Longrightarrow> take_unsent (merge_updates_v1 c) intr (unsent p) = (Inr (Some m), rest)
     \<Longrightarrow> net_step c tu known integ n (put (wrap_update c m) (set_peer i (p\<lparr>unsent := rest\<rparr>) n))"
| fail: "i < length (peers n) \<Longrightarrow> p = peers n ! i
     \<Longrightarrow> take_unsent (merge_updates_v1 c) intr (unsent p) = (Inl e, rest)
     \<Longrightarrow> net_step c tu known integ n (set_peer i (p\<lparr>unsent := rest\<rparr>) n)"
| put_back: "i < length (peers n) \<Longrightarrow> p = peers n ! i
     \<Longrightarrow> take_unsent (merge_updates_v1 c) intr (unsent p) = (Inr (Some m), rest)
     \<Longrightarrow> net_step c tu known integ n (set_peer i (p\<lparr>unsent := keep_unsent m rest\<rparr>) n)"
| nested: "i < length (peers n) \<Longrightarrow> p = peers n ! i
     \<Longrightarrow> take_unsent (merge_updates_v1 c) intr (unsent p) = (Inr (Some m), rest)
     \<Longrightarrow> net_step c tu known integ n (put (wrap_update c m) (set_peer i (p\<lparr>unsent := keep_unsent m rest\<rparr>) n))"
| request: "i < length (peers n) \<Longrightarrow> sync_step1 c intr (peers n ! i) = Inr f
     \<Longrightarrow> net_step c tu known integ n (put f n)"
| deliver: "i < length (peers n) \<Longrightarrow> f \<in> set (wire n)
     \<Longrightarrow> net_step c tu known integ n (deliver c tu intr i f n)"

text \<open>What has been made: every change is known where it was made.\<close>

definition world :: "('doc \<Rightarrow> 'c set) \<Rightarrow> 'doc net \<Rightarrow> 'c set" where
  "world known n = (\<Union>p \<in> set (peers n). known (ydoc p))"

definition settled :: "('doc, 'upd, 'sv, 'aw) yrs_sync \<Rightarrow> 'doc net \<Rightarrow> bool" where
  "settled c n \<longleftrightarrow>
     (\<forall>p \<in> set (peers n). unsent p = [])
     \<and> (\<forall>f \<in> set (wire n). frame_update c f \<noteq> None \<longrightarrow> (\<forall>i < length (peers n). (i, f) \<in> set (got n)))"

section \<open>The invariant\<close>

text \<open>On its way: unsent at a peer or on the wire.\<close>

definition unsent_content :: "('doc, 'upd, 'sv, 'aw) yrs_sync \<Rightarrow> ('upd \<Rightarrow> 'c set) \<Rightarrow> bytes list \<Rightarrow> 'c set" where
  "unsent_content c carries us = (\<Union>u \<in> set us. update_content c carries u)"

definition frames_content :: "('doc, 'upd, 'sv, 'aw) yrs_sync \<Rightarrow> ('upd \<Rightarrow> 'c set) \<Rightarrow> bytes list \<Rightarrow> 'c set" where
  "frames_content c carries fs = (\<Union>f \<in> set fs. frame_content c carries f)"

definition on_its_way :: "('doc, 'upd, 'sv, 'aw) yrs_sync \<Rightarrow> ('upd \<Rightarrow> 'c set) \<Rightarrow> 'doc net \<Rightarrow> 'c set" where
  "on_its_way c carries n =
     (\<Union>p \<in> set (peers n). unsent_content c carries (unsent p)) \<union> frames_content c carries (wire n)"

definition net_inv ::
  "('doc, 'upd, 'sv, 'aw) yrs_sync \<Rightarrow> ('doc \<Rightarrow> 'c set) \<Rightarrow> ('upd \<Rightarrow> 'c set) \<Rightarrow> ('c set \<Rightarrow> 'c set) \<Rightarrow> 'doc net \<Rightarrow> bool" where
  "net_inv c known carries integ n \<longleftrightarrow>
     world known n = on_its_way c carries n
     \<and> integ (world known n) = world known n
     \<and> (\<forall>(i, f) \<in> set (got n). i < length (peers n) \<longrightarrow> frame_content c carries f \<subseteq> known (ydoc (peers n ! i)))"

section \<open>One step\<close>

lemma content_simps [simp]:
  "unsent_content c carries [] = {}"
  "unsent_content c carries (u # us) = update_content c carries u \<union> unsent_content c carries us"
  "unsent_content c carries (us @ vs) = unsent_content c carries us \<union> unsent_content c carries vs"
  "frames_content c carries [] = {}"
  "frames_content c carries (f # fs) = frame_content c carries f \<union> frames_content c carries fs"
  "frames_content c carries (fs @ gs) = frames_content c carries fs \<union> frames_content c carries gs"
  by (simp_all add: unsent_content_def frames_content_def Un_commute Un_left_commute)

lemma UN_list_update:
  assumes "i < length xs"
  shows "(\<Union>x \<in> set (xs[i := y]). g x) \<union> g (xs ! i) = (\<Union>x \<in> set xs. g x) \<union> g y"
proof -
  have "set (xs[i := y]) \<union> {xs ! i} = insert y (set xs)"
    using assms by (subst (3) id_take_nth_drop [OF assms]) (auto simp: upd_conv_take_nth_drop)
  then have "(\<Union>x \<in> set (xs[i := y]) \<union> {xs ! i}. g x) = (\<Union>x \<in> insert y (set xs). g x)" by simp
  then show ?thesis by (simp add: Un_commute)
qed

lemma world_update:
  assumes "i < length (peers n)" and "peers n' = (peers n)[i := p']" and "known (ydoc (peers n ! i)) \<subseteq> known (ydoc p')"
  shows "world known n' = world known n \<union> known (ydoc p')"
proof -
  have "p' \<in> set (peers n')" using assms(1,2) by (simp add: set_update_memI)
  then have "known (ydoc (peers n ! i)) \<subseteq> world known n'" using assms(3) by (auto simp: world_def)
  then show ?thesis using UN_list_update [OF assms(1), where y = p' and g = "known \<circ> ydoc"] assms(2) by (auto simp: world_def)
qed

lemma way_update:
  assumes "i < length (peers n)" and "peers n' = (peers n)[i := p']" and "wire n' = fs @ wire n"
    and kept: "unsent_content c carries (unsent (peers n ! i))
      \<subseteq> unsent_content c carries (unsent p') \<union> frames_content c carries fs"
  shows "on_its_way c carries n' = on_its_way c carries n
    \<union> unsent_content c carries (unsent p') \<union> frames_content c carries fs"
proof -
  let ?A = "\<lambda>p. unsent_content c carries (unsent p)"
  let ?F = "frames_content c carries fs"
  have "p' \<in> set (peers n')" using assms(1,2) by (simp add: set_update_memI)
  then have sub: "?A p' \<union> ?F \<subseteq> on_its_way c carries n'" using assms(3) by (auto simp: on_its_way_def)
  have "on_its_way c carries n' \<union> ?A (peers n ! i) = on_its_way c carries n \<union> ?A p' \<union> ?F"
    using UN_list_update [OF assms(1), where y = p' and g = ?A] assms(2,3) unfolding on_its_way_def
    by (simp add: Un_ac)
  moreover have "?A (peers n ! i) \<subseteq> on_its_way c carries n'" using kept sub by (rule order_trans)
  ultimately show ?thesis by (metis Un_absorb2)
qed

text \<open>A step at peer \<open>i\<close> keeps the invariant when it drops nothing, what it adds to the peer is
  on its way and what it puts on its way is known, and new changes are on top of integrated
  ones.\<close>

lemma net_inv_step:
  assumes laws: "crdt_laws c known carries integ" and inv: "net_inv c known carries integ n"
    and i: "i < length (peers n)" and n': "peers n' = (peers n)[i := p']" "wire n' = fs @ wire n" "set (got n') \<subseteq> gs \<union> set (got n)"
    and grow: "known (ydoc (peers n ! i)) \<subseteq> known (ydoc p')"
    and kept: "unsent_content c carries (unsent (peers n ! i))
      \<subseteq> unsent_content c carries (unsent p') \<union> frames_content c carries fs"
    and new: "known (ydoc p') \<subseteq> world known n \<union> unsent_content c carries (unsent p')"
    and known: "unsent_content c carries (unsent p') \<union> frames_content c carries fs
      \<subseteq> world known n \<union> known (ydoc p')"
    and causal: "known (ydoc p') \<subseteq> world known n \<union> integ (known (ydoc p'))"
    and received: "\<And>j f. (j, f) \<in> gs \<Longrightarrow> j = i \<and> frame_content c carries f \<subseteq> known (ydoc p')"
  shows "net_inv c known carries integ n'"
  unfolding net_inv_def
proof (intro conjI)
  have w: "world known n' = world known n \<union> known (ydoc p')" by (rule world_update [OF i n'(1) grow])
  have way: "on_its_way c carries n' = on_its_way c carries n
      \<union> unsent_content c carries (unsent p') \<union> frames_content c carries fs"
    by (rule way_update [OF i n'(1,2) kept])
  have same: "world known n = on_its_way c carries n" and closed: "integ (world known n) = world known n"
    using inv unfolding net_inv_def by blast+
  show "world known n' = on_its_way c carries n'"
    unfolding w way using same new known by auto
  have "world known n \<subseteq> integ (world known n')" "integ (known (ydoc p')) \<subseteq> integ (world known n')"
    using crdt_lawsD(2) [OF laws, of "world known n" "world known n'"] crdt_lawsD(2) [OF laws, of "known (ydoc p')" "world known n'"]
      w closed by auto
  then show "integ (world known n') = world known n'"
    using w causal crdt_lawsD(1) [OF laws, of "world known n'"] by blast
  have old: "frame_content c carries f \<subseteq> known (ydoc (peers n' ! j))" if "(j, f) \<in> set (got n)" "j < length (peers n)" for j f
  proof -
    have "frame_content c carries f \<subseteq> known (ydoc (peers n ! j))" using inv that by (auto simp: net_inv_def)
    then show ?thesis using n'(1) i grow by (cases "j = i") auto
  qed
  show "\<forall>(j, f) \<in> set (got n'). j < length (peers n') \<longrightarrow> frame_content c carries f \<subseteq> known (ydoc (peers n' ! j))"
    using old received n'(1,3) i by fastforce
qed

section \<open>Frames and takes\<close>

lemma frame_update_encode:
  assumes "frame_laws c"
  shows "frame_update c (encode_message c (MSync (SyncUpdate bs))) = Some bs"
    "frame_update c (encode_message c (MSync (SyncStep2 bs))) = Some bs"
    "frame_update c (encode_message c (MSync (SyncStep1 sv))) = None"
proof -
  have "decode_message c (encode_message c m) = Inr (m, [])" for m
    using assms unfolding frame_laws_def by blast
  then show "frame_update c (encode_message c (MSync (SyncUpdate bs))) = Some bs"
    "frame_update c (encode_message c (MSync (SyncStep2 bs))) = Some bs"
    "frame_update c (encode_message c (MSync (SyncStep1 sv))) = None"
    by (simp_all add: frame_update_def)
qed

lemma apply_remote_known:
  assumes "crdt_laws c known carries integ" and "apply_remote c tu p bs = (r, p')"
  shows "known (ydoc p') = known (ydoc p) \<union> update_content c carries bs"
proof (cases "decode_update c bs")
  case (Inr u)
  obtain d where "doc_apply_update c (ydoc p) u = Inr d" "known d = known (ydoc p) \<union> carries u"
    using crdt_lawsD(5) [OF assms(1), of "ydoc p" u] by blast
  moreover from this Inr assms(2) have "p' = commit_txn tu (Some REMOTE) p d" by (simp add: apply_remote_def)
  ultimately show ?thesis using Inr by (simp add: update_content_def)
next
  case (Inl e)
  then have "p' = p" using assms(2) by (simp add: apply_remote_def)
  with Inl show ?thesis by (simp add: update_content_def)
qed

lemma apply_remote_ends: "map_sum id (\<lambda>_. (k, l, [])) r = Inr (a, b, resp) \<Longrightarrow> resp = []"
  by (cases r) auto

lemma handle_closure_response:
  assumes "handle_closure c tu p f = (Inr (a, b, resp), p')" and "resp \<noteq> []"
  obtains sv rest where "decode_message c f = Inr (MSync (SyncStep1 sv), rest)" "p' = p"
    "resp = encode_message c (MSync (SyncStep2 (encode_state_as_update c (ydoc p) sv)))"
proof (cases "decode_message c f")
  case (Inr m)
  obtain msg rest where m: "m = (msg, rest)" by (cases m)
  show ?thesis
  proof (cases msg)
    case (MSync sm)
    then show ?thesis
      using assms Inr m that
      by (cases sm) (auto simp: handle_closure_def split: prod.splits dest: apply_remote_ends)
  qed (use assms Inr m in \<open>simp_all add: handle_closure_def\<close>)
qed (use assms in \<open>simp add: handle_closure_def\<close>)

text \<open>Handling a frame adds what it carries, interrupted or not; a frame with a change has no
  response, and a response carries what the peer knows.\<close>

lemma handle_closure_frame:
  assumes laws: "network_laws c tu known carries integ covered" and h: "handle_closure c tu p f = (r, p')"
  shows "known (ydoc p') = known (ydoc p) \<union> frame_content c carries f"
    and "r = Inr (a, b, resp) \<Longrightarrow> resp \<noteq> [] \<Longrightarrow> frame_content c carries resp \<subseteq> known (ydoc p') \<and> frame_update c f = None"
proof -
  note known = apply_remote_known [OF network_lawsD(1) [OF laws]]
  show "known (ydoc p') = known (ydoc p) \<union> frame_content c carries f"
  proof (cases "decode_message c f")
    case (Inr m)
    obtain msg rest where m: "m = (msg, rest)" by (cases m)
    show ?thesis
    proof (cases msg)
      case (MSync sm)
      then show ?thesis
        using h Inr m known
        by (cases sm) (auto simp: handle_closure_def frame_content_def frame_update_def split: prod.splits)
    qed (use h Inr m in \<open>simp_all add: handle_closure_def frame_content_def frame_update_def\<close>)
  qed (use h in \<open>simp add: handle_closure_def frame_content_def frame_update_def\<close>)
  assume r: "r = Inr (a, b, resp)" "resp \<noteq> []"
  then obtain sv rest where sv: "decode_message c f = Inr (MSync (SyncStep1 sv), rest)"
    "resp = encode_message c (MSync (SyncStep2 (encode_state_as_update c (ydoc p) sv)))" "p' = p"
    using handle_closure_response [of c tu p f a b resp p'] h by metis
  obtain u where "decode_update c (encode_state_as_update c (ydoc p) sv) = Inr u" "carries u \<subseteq> known (ydoc p)"
    using network_lawsD(3) [OF laws] unfolding diff_laws_def by blast
  then show "frame_content c carries resp \<subseteq> known (ydoc p') \<and> frame_update c f = None"
    using sv by (simp add: frame_content_def frame_update_encode [OF network_lawsD(2) [OF laws]] update_content_def)
      (simp add: frame_update_def)
qed

lemma take_unsent_SomeD:
  assumes "merge_carries content mu" and "take_unsent mu intr us = (Inr (Some m), rest)"
  shows "content m = (\<Union>u \<in> set us. content u)" "rest = []"
  using assms merge_unsent_content [OF assms(1), of us]
  by (auto simp: take_unsent_def take_begin_def split: if_splits prod.splits dest!: take_finish_InrD elim!: map_sum_InrE)

lemma take_unsent_InlD: "take_unsent mu intr us = (Inl e, rest) \<Longrightarrow> rest = us"
  by (auto simp: take_unsent_def take_begin_def take_finish_def split: if_splits prod.splits sum.splits option.splits)

section \<open>Every step keeps the invariant\<close>

lemma peers_simps [simp]:
  "peers (set_peer i p n) = (peers n)[i := p]" "wire (set_peer i p n) = wire n" "got (set_peer i p n) = got n"
  "peers (put f n) = peers n" "wire (put f n) = f # wire n" "got (put f n) = got n"
  by (simp_all add: set_peer_def put_def)

lemma local_write_content:
  assumes "txn_laws c tu known carries" and "known (ydoc p) \<subseteq> known d"
  shows "known d \<union> unsent_content c carries (unsent p)
    = known (ydoc p) \<union> unsent_content c carries (unsent (local_write tu p d))"
    "unsent_content c carries (unsent p) \<subseteq> unsent_content c carries (unsent (local_write tu p d))"
proof -
  have "known d = known (ydoc p) \<union> (case tu (ydoc p) d of Some bs \<Rightarrow> update_content c carries bs | None \<Rightarrow> {})"
    using assms unfolding txn_laws_def by blast
  moreover have "unsent_content c carries (unsent (local_write tu p d)) = unsent_content c carries (unsent p)
      \<union> (case tu (ydoc p) d of Some bs \<Rightarrow> update_content c carries bs | None \<Rightarrow> {})"
    by (simp add: local_write_def commit_txn_def on_commit_def split: option.split)
  ultimately show "known d \<union> unsent_content c carries (unsent p)
      = known (ydoc p) \<union> unsent_content c carries (unsent (local_write tu p d))"
    "unsent_content c carries (unsent p) \<subseteq> unsent_content c carries (unsent (local_write tu p d))"
    by auto
qed

lemma deliver_parts:
  assumes "handle_closure c tu (peers n ! i) f = (r, p)"
  obtains fs where "peers (deliver c tu intr i f n) = (peers n)[i := p]" "wire (deliver c tu intr i f n) = fs @ wire n"
    "got (deliver c tu intr i f n) = (i, f) # got n"
    "fs = [] \<or> (\<exists>a b resp. r = Inr (a, b, resp) \<and> resp \<noteq> [] \<and> fs = [resp])"
proof (cases r)
  case (Inr x)
  obtain a b resp where x: "x = (a, b, resp)" by (cases x)
  show ?thesis
    using that [of "if intr = None \<and> resp \<noteq> [] then [resp] else []"] assms Inr x
    by (cases intr) (simp_all add: deliver_def handle_sync_message_def nogvl_try_def nogvl_def reply_def)
next
  case (Inl e)
  show ?thesis
    using that [of "[]"] assms Inl
    by (cases intr) (simp_all add: deliver_def handle_sync_message_def nogvl_try_def nogvl_def reply_def)
qed

lemma peer_sub_world: "i < length (peers n) \<Longrightarrow> known (ydoc (peers n ! i)) \<subseteq> world known n"
  unfolding world_def by (rule UN_upper) simp

lemma inv_way:
  assumes "net_inv c known carries integ n"
  shows "i < length (peers n) \<Longrightarrow> unsent_content c carries (unsent (peers n ! i)) \<subseteq> world known n"
    and "f \<in> set (wire n) \<Longrightarrow> frame_content c carries f \<subseteq> world known n"
proof -
  have w: "world known n = on_its_way c carries n" using assms unfolding net_inv_def by blast
  show "i < length (peers n) \<Longrightarrow> unsent_content c carries (unsent (peers n ! i)) \<subseteq> world known n"
    unfolding w on_its_way_def by (auto dest: nth_mem)
  show "f \<in> set (wire n) \<Longrightarrow> frame_content c carries f \<subseteq> world known n"
    unfolding w on_its_way_def frames_content_def by auto
qed

text \<open>Taking a peer's updates and putting some on the wire or back.\<close>

lemma net_inv_take:
  assumes laws: "network_laws c tu known carries integ covered" and inv: "net_inv c known carries integ n"
    and i: "i < length (peers n)" and n': "peers n' = (peers n)[i := (peers n ! i)\<lparr>unsent := us\<rparr>]"
      "wire n' = fs @ wire n" "got n' = got n"
    and same: "unsent_content c carries us \<union> frames_content c carries fs = unsent_content c carries (unsent (peers n ! i))"
  shows "net_inv c known carries integ n'"
  using inv_way(1) [OF inv i] peer_sub_world [OF i, of known] same
  by (intro net_inv_step [OF network_lawsD(1) [OF laws] inv i n'(1,2), of "{}"]) (auto simp: n'(3))

lemma wrap_update_content:
  assumes "frame_laws c"
  shows "frame_content c carries (wrap_update c m) = update_content c carries m"
  by (simp add: frame_content_def wrap_update_def frame_update_encode [OF assms])

lemma net_step_inv:
  assumes laws: "network_laws c tu known carries integ covered"
    and "net_step c tu known integ n n'" and inv: "net_inv c known carries integ n"
  shows "net_inv c known carries integ n'"
  using assms(2,3)
proof (induction rule: net_step.induct)
  case (edit i n p d)
  note w = local_write_content [OF network_lawsD(5) [OF laws] edit(3)]
  show ?case
    using w inv_way(1) [OF edit(5,1)] peer_sub_world [OF edit(1), of known] edit(2,3,4)
    by (intro net_inv_step [OF network_lawsD(1) [OF laws] edit(5,1), where fs = "[]" and gs = "{}" and p' = "local_write tu p d"]) auto
next
  case (send i n p intr m rest)
  note t = take_unsent_SomeD [OF network_lawsD(4) [OF laws] send(3)]
  show ?case
    using t send(2) wrap_update_content [OF network_lawsD(2) [OF laws], of carries m]
    by (intro net_inv_take [OF laws send(4,1), where fs = "[wrap_update c m]" and us = rest])
      (auto simp: unsent_content_def)
next
  case (fail i n p intr e rest)
  show ?case
    using take_unsent_InlD [OF fail(3)] fail(2)
    by (intro net_inv_take [OF laws fail(4,1), where fs = "[]" and us = rest]) auto
next
  case (put_back i n p intr m rest)
  note t = take_unsent_SomeD [OF network_lawsD(4) [OF laws] put_back(3)]
  show ?case
    using t put_back(2)
    by (intro net_inv_take [OF laws put_back(4,1), where fs = "[]" and us = "keep_unsent m rest"])
      (auto simp: unsent_content_def keep_unsent_def)
next
  case (nested i n p intr m rest)
  note t = take_unsent_SomeD [OF network_lawsD(4) [OF laws] nested(3)]
  show ?case
    using t nested(2) wrap_update_content [OF network_lawsD(2) [OF laws], of carries m]
    by (intro net_inv_take [OF laws nested(4,1), where fs = "[wrap_update c m]" and us = "keep_unsent m rest"])
      (auto simp: unsent_content_def keep_unsent_def)
next
  case (request i n intr f)
  have "frame_content c carries f = {}"
    using request(2) frame_update_encode(3) [OF network_lawsD(2) [OF laws]]
    by (auto simp: sync_step1_def nogvl_def frame_content_def split: option.splits)
  then show ?case
    by (intro net_inv_take [OF laws request(3,1), where fs = "[f]" and us = "unsent (peers n ! i)"]) auto
next
  case (deliver i n f intr)
  obtain r p where h: "handle_closure c tu (peers n ! i) f = (r, p)" by (cases "handle_closure c tu (peers n ! i) f")
  obtain fs where n': "peers (deliver c tu intr i f n) = (peers n)[i := p]" "wire (deliver c tu intr i f n) = fs @ wire n"
    "got (deliver c tu intr i f n) = (i, f) # got n"
    "fs = [] \<or> (\<exists>a b resp. r = Inr (a, b, resp) \<and> resp \<noteq> [] \<and> fs = [resp])"
    by (rule deliver_parts [OF h])
  note k = handle_closure_frame [OF laws h]
  have "unsent p = unsent (peers n ! i)" using handle_closure_unsent [of c tu "peers n ! i" f] h by simp
  moreover have "frames_content c carries fs \<subseteq> known (ydoc p)" using n'(4) k(2) by fastforce
  ultimately show ?case
    using k(1) inv_way(1) [OF deliver(3,1)] inv_way(2) [OF deliver(3,2)] peer_sub_world [OF deliver(1), of known] n'(3)
    by (intro net_inv_step [OF network_lawsD(1) [OF laws] deliver(3,1) n'(1,2), where gs = "{(i, f)}"]) auto
qed

lemma net_inv_start:
  assumes "crdt_laws c known carries integ"
  shows "net_inv c known carries integ (start c k)"
proof -
  have "world known (start c k) = {}" using crdt_lawsD(4) [OF assms] by (simp add: world_def start_def)
  moreover have "on_its_way c carries (start c k) = {}" by (simp add: on_its_way_def start_def)
  ultimately show ?thesis using crdt_lawsD(1) [OF assms, of "{}"] by (simp add: net_inv_def start_def)
qed

lemma reachable_inv:
  assumes "network_laws c tu known carries integ covered" and "(net_step c tu known integ)\<^sup>*\<^sup>* (start c k) n"
  shows "net_inv c known carries integ n"
  using assms(2)
proof (induction rule: rtranclp_induct)
  case base
  show ?case by (rule net_inv_start [OF network_lawsD(1) [OF assms(1)]])
next
  case (step n n')
  then show ?case using net_step_inv [OF assms(1)] by blast
qed

lemma inv_settled:
  assumes inv: "net_inv c known carries integ n" and "settled c n" and p: "p \<in> set (peers n)"
  shows "known (ydoc p) = world known n"
proof
  show "known (ydoc p) \<subseteq> world known n" using p by (auto simp: world_def)
  obtain i where i: "i < length (peers n)" "p = peers n ! i" using p by (metis in_set_conv_nth)
  have "on_its_way c carries n = frames_content c carries (wire n)"
    using assms(2) by (simp add: on_its_way_def settled_def)
  moreover have "frame_content c carries f \<subseteq> known (ydoc p)" if "f \<in> set (wire n)" for f
  proof (cases "frame_update c f")
    case None
    then show ?thesis by (simp add: frame_content_def)
  next
    case (Some bs)
    then have "(i, f) \<in> set (got n)" using assms(2) that i(1) by (simp add: settled_def)
    then show ?thesis using inv i unfolding net_inv_def by blast
  qed
  ultimately show "world known n \<subseteq> known (ydoc p)"
    using inv unfolding net_inv_def frames_content_def by blast
qed

section \<open>Settling\<close>

text \<open>A schedule that settles the peers, by takes and deliveries alone: each peer in turn takes its
  unsent updates and sends what it took, if there was any; then frames are delivered.\<close>

definition send_from :: "('doc, 'upd, 'sv, 'aw) yrs_sync \<Rightarrow> nat \<Rightarrow> 'doc net \<Rightarrow> 'doc net" where
  "send_from c i n =
     (let p = peers n ! i; (taken, rest) = take_unsent (merge_updates_v1 c) None (unsent p);
          n' = set_peer i (p\<lparr>unsent := rest\<rparr>) n
      in case taken of Inr (Some m) \<Rightarrow> put (wrap_update c m) n' | _ \<Rightarrow> n')"

definition send_round :: "('doc, 'upd, 'sv, 'aw) yrs_sync \<Rightarrow> 'doc net \<Rightarrow> 'doc net" where
  "send_round c n = fold (send_from c) [0..<length (peers n)] n"

definition deliver_in ::
  "('doc, 'upd, 'sv, 'aw) yrs_sync \<Rightarrow> ('doc \<Rightarrow> 'doc \<Rightarrow> bytes option) \<Rightarrow> (string option \<times> nat \<times> bytes) list
     \<Rightarrow> 'doc net \<Rightarrow> 'doc net" where
  "deliver_in c tu schedule = fold (\<lambda>(intr, i, f). deliver c tu intr i f) schedule"

text \<open>A schedule that delivers every frame on the wire to every peer, in some order, some of them
  more than once and some under an interrupt.\<close>

definition covers :: "(string option \<times> nat \<times> bytes) list \<Rightarrow> 'doc net \<Rightarrow> bool" where
  "covers schedule n \<longleftrightarrow> snd ` set schedule = {..<length (peers n)} \<times> set (wire n)"

lemma set_peer_same: "set_peer i (peers n ! i) n = n"
  by (simp add: set_peer_def)

lemma send_from_parts:
  assumes total: "\<And>us. \<exists>m. merge_updates_v1 c us = Inr m" and i: "i < length (peers n)"
  shows "(net_step c tu known integ)\<^sup>*\<^sup>* n (send_from c i n)"
    "peers (send_from c i n) = (peers n)[i := (peers n ! i)\<lparr>unsent := []\<rparr>]"
proof -
  have "(net_step c tu known integ)\<^sup>*\<^sup>* n (send_from c i n)
      \<and> peers (send_from c i n) = (peers n)[i := (peers n ! i)\<lparr>unsent := []\<rparr>]"
  proof (cases "unsent (peers n ! i) = []")
    case True
    then have same: "(peers n ! i)\<lparr>unsent := []\<rparr> = peers n ! i" by (cases "peers n ! i") simp
    have "take_unsent (merge_updates_v1 c) None [] = (Inr None, [])"
      by (simp add: take_unsent_def take_begin_def)
    then have "send_from c i n = set_peer i ((peers n ! i)\<lparr>unsent := []\<rparr>) n" using True by (simp add: send_from_def)
    then show ?thesis unfolding same set_peer_same by simp
  next
    case False
    obtain m where "merge_unsent (merge_updates_v1 c) (unsent (peers n ! i)) = Inr m"
      using merge_unsent_total [of "merge_updates_v1 c", OF total] by blast
    then have t: "take_unsent (merge_updates_v1 c) None (unsent (peers n ! i)) = (Inr (Some m), [])"
      using False by (simp add: take_unsent_def take_begin_def take_finish_def)
    then have "send_from c i n = put (wrap_update c m) (set_peer i ((peers n ! i)\<lparr>unsent := []\<rparr>) n)"
      by (simp add: send_from_def)
    with net_step.send [OF i refl t, of tu known integ] show ?thesis by auto
  qed
  then show "(net_step c tu known integ)\<^sup>*\<^sup>* n (send_from c i n)"
    "peers (send_from c i n) = (peers n)[i := (peers n ! i)\<lparr>unsent := []\<rparr>]" by blast+
qed

lemma world_same_docs: "map ydoc (peers n') = map ydoc (peers n) \<Longrightarrow> world known n' = world known n"
  by (simp add: world_def) (metis image_image image_set)

lemma send_some:
  assumes total: "\<And>us. \<exists>m. merge_updates_v1 c us = Inr m" and "k \<le> length (peers n)"
  shows "(net_step c tu known integ)\<^sup>*\<^sup>* n (fold (send_from c) [0..<k] n)
    \<and> map ydoc (peers (fold (send_from c) [0..<k] n)) = map ydoc (peers n)
    \<and> (\<forall>i < k. unsent (peers (fold (send_from c) [0..<k] n) ! i) = [])"
  using assms(2)
proof (induction k)
  case (Suc k)
  let ?n = "fold (send_from c) [0..<k] n"
  have IH: "(net_step c tu known integ)\<^sup>*\<^sup>* n ?n" "map ydoc (peers ?n) = map ydoc (peers n)"
    "\<forall>i < k. unsent (peers ?n ! i) = []" using Suc by auto
  have k: "k < length (peers ?n)" using IH(2) Suc.prems by (metis Suc_le_lessD length_map)
  note s = send_from_parts [OF total k]
  have "map ydoc (peers (send_from c k ?n)) = map ydoc (peers ?n)"
    using k by (simp add: s(2) map_update) (metis list_update_id nth_map)
  moreover have "\<forall>i < Suc k. unsent (peers (send_from c k ?n) ! i) = []"
    using IH(3) k by (simp add: s(2) nth_list_update less_Suc_eq)
  moreover have "(net_step c tu known integ)\<^sup>*\<^sup>* n (send_from c k ?n)" using IH(1) s(1) by (rule rtranclp_trans)
  ultimately show ?case using IH(2) by simp
qed simp

lemma send_round_parts:
  assumes "\<And>us. \<exists>m. merge_updates_v1 c us = Inr m"
  shows "(net_step c tu known integ)\<^sup>*\<^sup>* n (send_round c n)" "map ydoc (peers (send_round c n)) = map ydoc (peers n)"
    "length (peers (send_round c n)) = length (peers n)" "\<forall>p \<in> set (peers (send_round c n)). unsent p = []"
proof -
  note s = send_some [where n = n and tu = tu and known = known and integ = integ, OF assms order_refl, folded send_round_def]
  then show "(net_step c tu known integ)\<^sup>*\<^sup>* n (send_round c n)" "map ydoc (peers (send_round c n)) = map ydoc (peers n)"
    by blast+
  show len: "length (peers (send_round c n)) = length (peers n)" using s by (metis length_map)
  show "\<forall>p \<in> set (peers (send_round c n)). unsent p = []" using s len by (metis in_set_conv_nth)
qed

lemma deliver_keeps:
  assumes laws: "network_laws c tu known carries integ covered" and inv: "net_inv c known carries integ n"
    and i: "i < length (peers n)" and f: "f \<in> set (wire n)"
  shows "set (wire n) \<subseteq> set (wire (deliver c tu intr i f n))"
    "map unsent (peers (deliver c tu intr i f n)) = map unsent (peers n)"
    "got (deliver c tu intr i f n) = (i, f) # got n" "world known (deliver c tu intr i f n) = world known n"
proof -
  obtain r p where h: "handle_closure c tu (peers n ! i) f = (r, p)" by (cases "handle_closure c tu (peers n ! i) f")
  obtain fs where n': "peers (deliver c tu intr i f n) = (peers n)[i := p]" "wire (deliver c tu intr i f n) = fs @ wire n"
    "got (deliver c tu intr i f n) = (i, f) # got n" by (rule deliver_parts [OF h])
  note k = handle_closure_frame(1) [OF laws h]
  show "set (wire n) \<subseteq> set (wire (deliver c tu intr i f n))" using n'(2) by auto
  show "got (deliver c tu intr i f n) = (i, f) # got n" by (rule n'(3))
  have "unsent p = unsent (peers n ! i)" using handle_closure_unsent [of c tu "peers n ! i" f] h by simp
  then show "map unsent (peers (deliver c tu intr i f n)) = map unsent (peers n)"
    using n'(1) i by (metis list_update_id map_update nth_map)
  have "known (ydoc (peers n ! i)) \<subseteq> known (ydoc p)" using k by blast
  from world_update [where known = known, OF i n'(1) this] show "world known (deliver c tu intr i f n) = world known n"
    using k inv_way(2) [OF inv f] peer_sub_world [OF i, of known] by auto
qed

lemma deliver_in_parts:
  assumes laws: "network_laws c tu known carries integ covered" and "net_inv c known carries integ n"
    and "snd ` set schedule \<subseteq> {..<length (peers n)} \<times> set (wire n)"
  shows "(net_step c tu known integ)\<^sup>*\<^sup>* n (deliver_in c tu schedule n) \<and> net_inv c known carries integ (deliver_in c tu schedule n)
    \<and> map unsent (peers (deliver_in c tu schedule n)) = map unsent (peers n)
    \<and> snd ` set schedule \<subseteq> set (got (deliver_in c tu schedule n)) \<and> set (got n) \<subseteq> set (got (deliver_in c tu schedule n))
    \<and> world known (deliver_in c tu schedule n) = world known n"
  using assms(2,3)
proof (induction schedule arbitrary: n)
  case (Cons x schedule)
  obtain intr i f where x: "x = (intr, i, f)" by (cases x)
  then have i: "i < length (peers n)" and f: "f \<in> set (wire n)" using Cons.prems(2) by auto
  let ?n = "deliver c tu intr i f n"
  have step: "net_step c tu known integ n ?n" by (rule net_step.deliver [OF i f])
  note d = deliver_keeps [where intr = intr, OF laws Cons.prems(1) i f]
  have "length (peers ?n) = length (peers n)" using d(2) by (metis length_map)
  then have "snd ` set schedule \<subseteq> {..<length (peers ?n)} \<times> set (wire ?n)"
    using Cons.prems(2) d(1) by fastforce
  note IH = Cons.IH [OF net_step_inv [OF laws step Cons.prems(1)] this]
  have "deliver_in c tu (x # schedule) n = deliver_in c tu schedule ?n" by (simp add: deliver_in_def x)
  with IH d step show ?case by (auto simp: x intro: converse_rtranclp_into_rtranclp)
qed (simp add: deliver_in_def)

lemma exchange_settles:
  assumes laws: "network_laws c tu known carries integ covered" and inv: "net_inv c known carries integ n"
    and total: "\<And>us. \<exists>m. merge_updates_v1 c us = Inr m" and covers: "covers schedule (send_round c n)"
  shows "(net_step c tu known integ)\<^sup>*\<^sup>* n (deliver_in c tu schedule (send_round c n))
    \<and> length (peers (deliver_in c tu schedule (send_round c n))) = length (peers n)
    \<and> list_all (\<lambda>p. unsent p = [] \<and> known (ydoc p) = world known n \<and> \<not> has_pending c (ydoc p))
        (peers (deliver_in c tu schedule (send_round c n)))"
proof -
  let ?n1 = "send_round c n" let ?n2 = "deliver_in c tu schedule ?n1"
  note s = send_round_parts [where n = n, OF total]
  have inv1: "net_inv c known carries integ ?n1"
    using s(1) [of tu known integ] inv by (induction rule: rtranclp_induct) (auto intro: net_step_inv [OF laws])
  have d: "(net_step c tu known integ)\<^sup>*\<^sup>* ?n1 ?n2" "net_inv c known carries integ ?n2"
    "map unsent (peers ?n2) = map unsent (peers ?n1)" "snd ` set schedule \<subseteq> set (got ?n2)" "world known ?n2 = world known ?n1"
    using deliver_in_parts [OF laws inv1, of schedule] covers by (simp_all add: covers_def)
  have world: "world known ?n1 = world known n" by (rule world_same_docs [OF s(2)])
  have len: "length (peers ?n2) = length (peers ?n1)" using d(3) by (metis length_map)
  have "on_its_way c carries ?n1 = frames_content c carries (wire ?n1)" using s(4) by (simp add: on_its_way_def)
  then have made: "world known n = frames_content c carries (wire ?n1)" using inv1 world unfolding net_inv_def by simp
  have "known (ydoc p) = world known n" if p: "p \<in> set (peers ?n2)" for p
  proof
    show "known (ydoc p) \<subseteq> world known n" using p d(5) world by (auto simp: world_def)
    obtain i where i: "i < length (peers ?n2)" "p = peers ?n2 ! i" using p by (metis in_set_conv_nth)
    have "frame_content c carries f \<subseteq> known (ydoc p)" if "f \<in> set (wire ?n1)" for f
    proof -
      have "(i, f) \<in> set (got ?n2)" using d(4) covers i(1) len that by (auto simp: covers_def)
      then show ?thesis using d(2) i unfolding net_inv_def by blast
    qed
    then show "world known n \<subseteq> known (ydoc p)" unfolding made frames_content_def by blast
  qed
  moreover have "unsent p = []" if "p \<in> set (peers ?n2)" for p
    using s(4) d(3) that by (metis (no_types, lifting) image_iff image_set)
  moreover have "integ (world known n) = world known n" using inv unfolding net_inv_def by blast
  moreover have "(net_step c tu known integ)\<^sup>*\<^sup>* n ?n2" using s(1) d(1) by (rule rtranclp_trans)
  ultimately show ?thesis
    using s(3) len crdt_lawsD(7) [OF network_lawsD(1) [OF laws]] by (auto simp: list_all_iff)
qed

end
