(* ===== verification/NativeCall.thy ===== *)
theory NativeCall
  imports Handles
begin

text \<open>
  How a method leaves Ruby's lock and comes back (\<open>nogvl\<close> in \<open>src/ext/yrby/src/lib.rs\<close>;
  \<open>guarded\<close> and \<open>write\<close> in \<open>src/ext/yrby/src/shared.rs\<close>), with panics.

  The component theories use \<open>nogvl\<close>, \<open>guarded\<close> and \<open>write_txn\<close> of \<open>Prelude\<close> and \<open>Handles\<close>,
  which take the value of a closure that has run.  Here the closure is a function on the
  state, it can panic, and Ruby may refuse to run it without the lock: the lemmas show that
  it still runs exactly once, that the code's two \<open>expect\<close>s never fire, and that the detailed
  calls give what the simple definitions say.

  \<open>rb_nogvl\<close>, the C function that drops the lock around a callback, is an argument: it gets the
  callback and the state.  No value means that the process aborted, which a panic inside the
  callback's own frame (\<open>extern C\<close>) does.
\<close>

section \<open>Panics\<close>

text \<open>What \<open>downcast_ref\<close> can find in a panic: a \<open>String\<close>, a \<open>&str\<close>, or something else.\<close>

datatype payload = StringPayload string | StrPayload string | OtherPayload

text \<open>\<open>thread::Result\<close>: what \<open>catch_unwind\<close> returns.\<close>

datatype 'r outcome = Completed 'r | Panicked payload

type_synonym ('s, 'r) closure = "'s \<Rightarrow> 'r outcome \<times> 's"

section \<open>Leaving the lock\<close>

record ('s, 'r) nogvl_ctx =
  ctx_func :: "('s, 'r) closure option"
  ctx_result :: "'r outcome option"

definition nogvl_callback ::
  "('s, 'r) nogvl_ctx \<times> 's \<Rightarrow> (('s, 'r) nogvl_ctx \<times> 's) option" where
  "nogvl_callback x =
     (case x of (ctx, s) \<Rightarrow>
        (case ctx_func ctx of
           None \<Rightarrow> None
         | Some f \<Rightarrow> (let (r, s') = f s in Some (ctx\<lparr>ctx_func := None, ctx_result := Some r\<rparr>, s'))))"

text \<open>The closure Ruby skipped runs with the lock held; a panic goes on unwinding before
  interrupts are looked at; \<open>ints\<close> is what \<open>thread_check_ints\<close> raises.\<close>

definition nogvl_call ::
  "((('s, 'r) nogvl_ctx \<times> 's \<Rightarrow> (('s, 'r) nogvl_ctx \<times> 's) option)
      \<Rightarrow> ('s, 'r) nogvl_ctx \<times> 's \<Rightarrow> (('s, 'r) nogvl_ctx \<times> 's) option)
     \<Rightarrow> string option \<Rightarrow> ('s, 'r) closure \<Rightarrow> 's \<Rightarrow> ((string + 'r) outcome \<times> 's) option" where
  "nogvl_call rb_nogvl ints f s =
     (case rb_nogvl nogvl_callback (\<lparr>ctx_func = Some f, ctx_result = None\<rparr>, s) of
        None \<Rightarrow> None
      | Some (ctx, s1) \<Rightarrow>
          (let (ctx2, s2) =
             (case ctx_func ctx of
                Some g \<Rightarrow> (let (r, s') = g s1 in (ctx\<lparr>ctx_func := None, ctx_result := Some r\<rparr>, s'))
              | None \<Rightarrow> (ctx, s1))
           in Some
             (case ctx_result ctx2 of
                None \<Rightarrow> (Panicked (StrPayload ''nogvl callback did not run''), s2)
              | Some (Panicked p) \<Rightarrow> (Panicked p, s2)
              | Some (Completed r) \<Rightarrow>
                  (Completed (case ints of Some e \<Rightarrow> Inl e | None \<Rightarrow> Inr r), s2))))"

text \<open>What the code relies on of \<open>rb_nogvl\<close> with \<open>RB_NOGVL_INTR_FAIL\<close>: it runs the callback, once, or
  skips it.\<close>

definition runs_or_skips :: "(('x \<Rightarrow> 'x option) \<Rightarrow> 'x \<Rightarrow> 'x option) \<Rightarrow> bool" where
  "runs_or_skips rb_nogvl \<longleftrightarrow> (\<forall>cb x. rb_nogvl cb x = cb x \<or> rb_nogvl cb x = Some x)"

lemma nogvl_call_once:
  assumes "runs_or_skips rb_nogvl"
  shows "nogvl_call rb_nogvl ints f s =
    (case f s of
       (Completed r, s') \<Rightarrow> Some (Completed (nogvl ints r), s')
     | (Panicked p, s') \<Rightarrow> Some (Panicked p, s'))"
proof -
  let ?x = "(\<lparr>ctx_func = Some f, ctx_result = None\<rparr>, s)"
  have "rb_nogvl nogvl_callback ?x = nogvl_callback ?x \<or> rb_nogvl nogvl_callback ?x = Some ?x"
    using assms by (simp add: runs_or_skips_def)
  then show ?thesis
    by (auto simp: nogvl_call_def nogvl_callback_def nogvl_def split: prod.splits outcome.splits option.splits)
qed

section \<open>Guarded calls and writes\<close>

definition panic_message :: "payload \<Rightarrow> string" where
  "panic_message p =
     (case p of
        StringPayload s \<Rightarrow> s
      | StrPayload s \<Rightarrow> s
      | OtherPayload \<Rightarrow> ''the document operation failed'')"

definition guard_closure :: "('s, string + 'r) closure \<Rightarrow> ('s, string + 'r) closure" where
  "guard_closure f s =
     (case f s of
        (Completed r, s') \<Rightarrow> (Completed r, s')
      | (Panicked p, s') \<Rightarrow> (Completed (Inl (panic_message p)), s'))"

definition guarded_call ::
  "((('s, string + 'r) nogvl_ctx \<times> 's \<Rightarrow> (('s, string + 'r) nogvl_ctx \<times> 's) option)
      \<Rightarrow> ('s, string + 'r) nogvl_ctx \<times> 's \<Rightarrow> (('s, string + 'r) nogvl_ctx \<times> 's) option)
     \<Rightarrow> string option \<Rightarrow> ('s, string + 'r) closure \<Rightarrow> 's \<Rightarrow> ((handle_error + 'r) outcome \<times> 's) option" where
  "guarded_call rb_nogvl ints f s =
     map_option (apfst (map_outcome (\<lambda>r. bind_sum (map_sum Interrupt id r) (map_sum YErr id))))
       (nogvl_call rb_nogvl ints (guard_closure f) s)"

text \<open>The transaction commits when it is dropped, at the end of the closure or when a panic
  unwinds through it.\<close>

definition write_closure ::
  "('d \<Rightarrow> 'd \<Rightarrow> bytes option) \<Rightarrow> ('d, string + 'r) closure \<Rightarrow> ('d rb_doc, string + 'r) closure" where
  "write_closure tu f rb = (let (r, d') = f (ydoc rb) in (r, local_write tu rb d'))"

definition write_call ::
  "((('d rb_doc, string + 'r) nogvl_ctx \<times> 'd rb_doc \<Rightarrow> (('d rb_doc, string + 'r) nogvl_ctx \<times> 'd rb_doc) option)
      \<Rightarrow> ('d rb_doc, string + 'r) nogvl_ctx \<times> 'd rb_doc
      \<Rightarrow> (('d rb_doc, string + 'r) nogvl_ctx \<times> 'd rb_doc) option)
     \<Rightarrow> string option \<Rightarrow> ('d \<Rightarrow> 'd \<Rightarrow> bytes option) \<Rightarrow> ('d, string + 'r) closure \<Rightarrow> 'd rb_doc
     \<Rightarrow> ((handle_error + 'r) outcome \<times> 'd rb_doc) option" where
  "write_call rb_nogvl ints tu f rb = guarded_call rb_nogvl ints (write_closure tu f) rb"

text \<open>The transaction of the handle theories that stands for a closure: a panic is its error.\<close>

definition settled_txn :: "('d, string + 'r) closure \<Rightarrow> ('d, 'r) txn" where
  "settled_txn f d = (case f d of (Completed r, d') \<Rightarrow> (r, d') | (Panicked p, d') \<Rightarrow> (Inl (panic_message p), d'))"

lemma guarded_call_settles:
  assumes "runs_or_skips rb_nogvl"
  shows "guarded_call rb_nogvl ints f s
    = (let (r, s') = settled_txn f s in Some (Completed (guarded ints r), s'))"
  by (simp add: guarded_call_def nogvl_call_once [OF assms] guard_closure_def settled_txn_def guarded_def
      split: prod.split outcome.split)

lemma write_call_settles:
  assumes "runs_or_skips rb_nogvl"
  shows "write_call rb_nogvl ints tu f rb
    = (let (r, rb') = write_txn tu ints rb (settled_txn f) in Some (Completed r, rb'))"
  by (simp add: write_call_def guarded_call_settles [OF assms] settled_txn_def write_closure_def write_txn_def
      split: prod.split outcome.split)

section \<open>What a call does\<close>

text \<open>C21. A closure passed to \<open>nogvl\<close> runs exactly once, whether Ruby runs it without the lock or skips it
  because an interrupt is pending: the call never aborts and never finds its result missing, the
  state is the one the closure leaves, a panic goes on unwinding, and otherwise the result is the
  closure's unless an interrupt is raised after it.\<close>

theorem nogvl_runs_once:
  assumes "runs_or_skips rb_nogvl"
  shows "nogvl_call rb_nogvl ints f s = Some (map_outcome (nogvl ints) (fst (f s)), snd (f s))"
  by (simp add: nogvl_call_once [OF assms] split: prod.split outcome.split)

theorem nogvl_runs_once_witness:
  "nogvl_call (\<lambda>_ x. Some x) (Some ''killed'') (\<lambda>n. (Completed True, n + 1)) 4 = Some (Completed (Inl ''killed''), 5 :: nat)
   \<and> nogvl_call (\<lambda>cb x. cb x) None (\<lambda>n. (Completed True, n + 1)) 4 = Some (Completed (Inr True), 5 :: nat)"
  by (simp add: nogvl_runs_once runs_or_skips_def nogvl_def)

text \<open>C20. A write never takes the process down and never unwinds: whatever the closure does - return,
  fail or panic midway - the call returns, with the closure's error or the panic's message as a
  \<open>Y::Error\<close>, and what was done to the document up to there is committed as one local transaction.\<close>

theorem panicking_write_commits:
  assumes "runs_or_skips rb_nogvl"
  shows "write_call rb_nogvl ints tu f rb
    = Some (Completed (guarded ints (case fst (f (ydoc rb)) of Completed r \<Rightarrow> r | Panicked p \<Rightarrow> Inl (panic_message p))),
        local_write tu rb (snd (f (ydoc rb))))"
  by (simp add: write_call_settles [OF assms] write_txn_def settled_txn_def split: prod.split outcome.split)

theorem panicking_write_commits_witness:
  "write_call (\<lambda>_ x. Some x) None (\<lambda>_ _. Some [7]) (\<lambda>d. (Panicked (StrPayload ''out of bounds''), d + 1)) \<lparr>ydoc = 1 :: nat, unsent = []\<rparr>
    = Some (Completed (Inl (YErr ''out of bounds'') :: handle_error + unit), \<lparr>ydoc = 2, unsent = [[7]]\<rparr>)"
  by (simp add: panicking_write_commits runs_or_skips_def guarded_def nogvl_def panic_message_def local_write_def
      commit_txn_def on_commit_def)

end
