(* ===== verification/PeerProps.thy ===== *)
theory PeerProps
  imports Peers ClockModel Dispatch NativeCall
begin

text \<open>
  Properties of the peers as a whole: they converge, they can always settle, and what is
  written through live handles reaches every peer; and of the calls that leave Ruby's lock.
  The witnesses run on the clock documents, with a store over them whose inserts add the next
  clock.
\<close>

section \<open>A clock document behind handles\<close>

definition clock_txn :: "nat list \<Rightarrow> nat list \<Rightarrow> bytes option" where
  "clock_txn d d' = (if set d' \<subseteq> set d then None else Some (filter (\<lambda>n. n \<notin> set d) d'))"

definition clock_store :: "(nat list, nat) yrs_store" where
  "clock_store =
    \<lparr>array_at = (\<lambda>d a. Some (map (\<lambda>n. \<lparr>slot_out = OAny ANull, slot_id = 0\<rparr>) d)),
     ya_insert = (\<lambda>a i p d. (Inr 0, d @ [clock_sv d])),
     ya_remove = (\<lambda>a i d. (Inr (), d)),
     ya_remove_range = (\<lambda>a i n d. (Inr (), d)),
     map_at = (\<lambda>d m. None),
     ym_insert = (\<lambda>m k p d. (Inl ''no map'', d)),
     ym_remove = (\<lambda>m k d. (Inr (), d)),
     ym_clear = (\<lambda>m d. (Inr (), d)),
     text_at = (\<lambda>d t. None),
     xml_at = (\<lambda>d t. None),
     block_ids = (\<lambda>d t. []),
     tx_len = (\<lambda>d t. 0),
     tx_string = (\<lambda>d t. []),
     tx_insert = (\<lambda>t n s d. (Inr (), d)),
     tx_remove_range = (\<lambda>t n m d. (Inr (), d)),
     tx_insert_embed = (\<lambda>t n p d. (Inr 0, d)),
     tx_insert_attribute = (\<lambda>t k v d. (Inr (), d)),
     sticky_index = (\<lambda>d t n a. None),
     sticky_from_type = (\<lambda>d t a. \<lparr>pos_scope = Root ''root'', pos_assoc = a\<rparr>),
     get_offset = (\<lambda>d p. None),
     get_or_insert = (\<lambda>k name d. (0, d)),
     root_id = (\<lambda>name. 0)\<rparr>"

lemma clock_content: "update_content clock_sync set bs = set bs"
  by (simp add: update_content_def clock_sync_def)

lemma clock_network_laws: "network_laws clock_sync clock_txn set set clock_integ clock_covered"
  unfolding network_laws_def
proof (intro conjI)
  show "merge_carries (update_content clock_sync set) (merge_updates_v1 clock_sync)"
    by (auto simp: merge_carries_def clock_content) (auto simp: clock_sync_def)
  show "txn_laws clock_sync clock_txn set set"
    by (auto simp: txn_laws_def clock_txn_def clock_content)
qed (rule clock_crdt_laws clock_frame_laws clock_diff_laws)+

lemma clock_merges: "\<exists>m. merge_updates_v1 clock_sync us = Inr m"
  by (simp add: clock_sync_def)

section \<open>Handle calls as edits\<close>

text \<open>What yrs promises of a handle's transactions: each only adds changes, on top of changes the
  document has integrated.\<close>

fun calls_add :: "('d \<Rightarrow> 'c set) \<Rightarrow> ('c set \<Rightarrow> 'c set) \<Rightarrow> ('d rb_doc \<Rightarrow> 'a \<Rightarrow> 'd rb_doc) \<Rightarrow> 'd rb_doc \<Rightarrow> 'a list \<Rightarrow> bool" where
  "calls_add known integ run rb [] = True"
| "calls_add known integ run rb (call # calls) =
     (known (ydoc rb) \<subseteq> known (ydoc (run rb call))
      \<and> known (ydoc (run rb call)) - known (ydoc rb) \<subseteq> integ (known (ydoc (run rb call)))
      \<and> calls_add known integ run (run rb call) calls)"

lemma calls_add_grow:
  "calls_add known integ run rb calls \<Longrightarrow> known (ydoc rb) \<subseteq> known (ydoc (foldl run rb calls))"
  by (induction calls arbitrary: rb) (simp, fastforce)

lemma set_peer_twice: "set_peer i q (set_peer i p n) = set_peer i q n"
  by (simp add: set_peer_def)

lemma calls_are_steps:
  assumes "\<And>rb call. commits_once tu rb (run rb call)" and "i < length (peers n)"
    and "calls_add known integ run (peers n ! i) calls"
  shows "(net_step c tu known integ)\<^sup>*\<^sup>* n (set_peer i (foldl run (peers n ! i) calls) n)"
  using assms(2,3)
proof (induction calls arbitrary: n)
  case (Cons call calls)
  let ?p = "peers n ! i" and ?n = "set_peer i (run (peers n ! i) call) n"
  have "net_step c tu known integ n ?n \<or> ?n = n"
  proof (cases "run ?p call = ?p")
    case False
    then obtain d where d: "run ?p call = local_write tu ?p d"
      using assms(1) [of ?p call] by (auto simp: commits_once_def)
    with net_step.edit [OF Cons.prems(1) refl, of known d integ c tu] Cons.prems(2) show ?thesis by simp
  qed (simp add: set_peer_same)
  moreover have "peers ?n ! i = run ?p call" using Cons.prems(1) by simp
  moreover have "(net_step c tu known integ)\<^sup>*\<^sup>* ?n (set_peer i (foldl run (run ?p call) calls) n)"
    using Cons.IH [of ?n] Cons.prems by (simp add: set_peer_twice)
  ultimately show ?case by (auto intro: converse_rtranclp_into_rtranclp)
qed (simp add: set_peer_same)

section \<open>Convergence\<close>

text \<open>C3. Peers converge.  Any number of documents that start empty exchange frames over a wire that
  reorders, repeats and withholds them, while they are edited, while takes of unsent updates fail
  or are put back and while calls are interrupted: whenever every unsent update has been taken and
  every frame with a change has been delivered to everyone, every peer knows exactly the changes
  made anywhere and has nothing pending.\<close>

theorem peers_converge:
  assumes "network_laws c tu known carries integ covered" and "(net_step c tu known integ)\<^sup>*\<^sup>* (start c k) n"
    and "settled c n" and "p \<in> set (peers n)"
  shows "known (ydoc p) = world known n \<and> \<not> has_pending c (ydoc p)"
proof -
  have inv: "net_inv c known carries integ n" by (rule reachable_inv [OF assms(1,2)])
  have "known (ydoc p) = world known n" by (rule inv_settled [OF inv assms(3,4)])
  moreover have "integ (world known n) = world known n" using inv unfolding net_inv_def by blast
  ultimately show ?thesis using crdt_lawsD(7) [OF network_lawsD(1) [OF assms(1)]] by simp
qed

text \<open>Two peers; the first writes its first change, takes it, and the frame is delivered to both, to the
  second under an interrupt.\<close>

definition clock_change :: bytes where
  "clock_change = wrap_update clock_sync [0]"

definition clock_edit :: "nat list net" where
  "clock_edit = set_peer 0 (local_write clock_txn (peers (start clock_sync 2) ! 0) [0]) (start clock_sync 2)"

definition clock_sent :: "nat list net" where
  "clock_sent = put clock_change (set_peer 0 \<lparr>ydoc = [0], unsent = []\<rparr> clock_edit)"

definition clock_done :: "nat list net" where
  "clock_done = deliver clock_sync clock_txn (Some ''interrupt'') 1 clock_change
     (deliver clock_sync clock_txn None 0 clock_change clock_sent)"

lemma clock_edit_peers: "peers clock_edit = [\<lparr>ydoc = [0], unsent = [[0]]\<rparr>, \<lparr>ydoc = [], unsent = []\<rparr>]" "wire clock_edit = []"
  "got clock_edit = []"
  by (simp_all add: clock_edit_def start_def clock_sync_def local_write_def commit_txn_def on_commit_def clock_txn_def
      numeral_2_eq_2)

lemma clock_frame: "decode_message clock_sync clock_change = Inr (MSync (SyncUpdate [0]), [])"
  using clock_frame_laws unfolding clock_change_def wrap_update_def frame_laws_def by blast

lemma clock_sent_parts: "peers clock_sent = [\<lparr>ydoc = [0], unsent = []\<rparr>, \<lparr>ydoc = [], unsent = []\<rparr>]"
  "wire clock_sent = [clock_change]" "got clock_sent = []"
  by (simp_all add: clock_sent_def clock_edit_peers)

lemma clock_handle: "handle_sync_message clock_sync clock_txn intr \<lparr>ydoc = d, unsent = us\<rparr> clock_change
    = (nogvl_try intr (Inr (0, 2, [])), \<lparr>ydoc = d @ filter (\<lambda>n. n \<notin> set d) [0], unsent = us\<rparr>)"
  by (simp add: handle_sync_message_def handle_closure_def clock_frame apply_remote_def)
    (simp add: clock_sync_def clock_apply_def commit_txn_def on_commit_def split: option.split)

lemma clock_done_parts: "peers clock_done = [\<lparr>ydoc = [0], unsent = []\<rparr>, \<lparr>ydoc = [0], unsent = []\<rparr>]"
  "wire clock_done = [clock_change]" "got clock_done = [(1, clock_change), (0, clock_change)]"
  by (simp_all add: clock_done_def deliver_def clock_sent_parts clock_handle reply_def nogvl_try_def nogvl_def)

lemma clock_steps: "(net_step clock_sync clock_txn set clock_integ)\<^sup>*\<^sup>* (start clock_sync 2) clock_sent"
  "(net_step clock_sync clock_txn set clock_integ)\<^sup>*\<^sup>* (start clock_sync 2) clock_done"
  "(net_step clock_sync clock_txn set clock_integ)\<^sup>*\<^sup>* (start clock_sync 2) clock_edit"
proof -
  let ?s = "net_step clock_sync clock_txn set clock_integ"
  have start: "peers (start clock_sync 2) ! 0 = \<lparr>ydoc = [], unsent = []\<rparr>" "length (peers (start clock_sync 2)) = 2"
    by (simp_all add: start_def clock_sync_def numeral_2_eq_2)
  have edit: "?s (start clock_sync 2) clock_edit"
    unfolding clock_edit_def
    by (rule net_step.edit [OF _ refl]) (simp_all add: start clock_integ_def)
  then show "?s\<^sup>*\<^sup>* (start clock_sync 2) clock_edit" by blast
  note edit
  moreover have "take_unsent (merge_updates_v1 clock_sync) None (unsent (peers clock_edit ! 0)) = (Inr (Some [0]), [])"
    by (simp add: clock_edit_peers take_unsent_def take_begin_def take_finish_def merge_unsent_def)
  then have "?s clock_edit clock_sent"
    using net_step.send [of 0 clock_edit "peers clock_edit ! 0" clock_sync None "[0]" "[]" clock_txn set clock_integ]
    by (simp add: clock_edit_peers clock_sent_def clock_change_def)
  ultimately show sent: "?s\<^sup>*\<^sup>* (start clock_sync 2) clock_sent" by auto
  let ?n = "deliver clock_sync clock_txn None 0 clock_change clock_sent"
  have "?s clock_sent ?n" by (rule net_step.deliver) (simp_all add: clock_sent_parts)
  moreover have "?s ?n clock_done"
    unfolding clock_done_def
    by (rule net_step.deliver) (simp_all add: deliver_def clock_sent_parts clock_handle reply_def nogvl_try_def nogvl_def)
  ultimately show "?s\<^sup>*\<^sup>* (start clock_sync 2) clock_done" using sent by auto
qed

theorem peers_converge_witness:
  "set (ydoc (peers clock_done ! 1)) = {0} \<and> \<not> has_pending clock_sync (ydoc (peers clock_done ! 1))"
proof -
  have "settled clock_sync clock_done"
    by (auto simp: settled_def clock_done_parts numeral_2_eq_2 less_Suc_eq)
  moreover have "peers clock_done ! 1 \<in> set (peers clock_done)" by (simp add: clock_done_parts)
  ultimately show ?thesis
    using peers_converge [OF clock_network_laws clock_steps(2)] by (auto simp: world_def clock_done_parts)
qed

text \<open>C6. Peers can always settle, by takes and deliveries alone.  From every state they can reach, let
  each peer take its unsent updates and send what it took, and deliver every frame on the wire to
  every peer through \<open>handle_sync_message\<close>, in any order, repeatedly or interrupted: afterwards every
  peer has sent everything, knows exactly what had been made, and has nothing pending.\<close>

theorem peers_settle:
  assumes "network_laws c tu known carries integ covered" and "(net_step c tu known integ)\<^sup>*\<^sup>* (start c k) n"
    and "\<And>us. \<exists>m. merge_updates_v1 c us = Inr m" and "covers schedule (send_round c n)"
  shows "(net_step c tu known integ)\<^sup>*\<^sup>* n (deliver_in c tu schedule (send_round c n))
    \<and> length (peers (deliver_in c tu schedule (send_round c n))) = length (peers n)
    \<and> list_all (\<lambda>p. unsent p = [] \<and> known (ydoc p) = world known n \<and> \<not> has_pending c (ydoc p))
        (peers (deliver_in c tu schedule (send_round c n)))"
  by (rule exchange_settles [OF assms(1) reachable_inv [OF assms(1,2)] assms(3,4)])

text \<open>The peers of \<open>clock_edit\<close>: the first has written, nothing is sent.  The frame is delivered to the
  second under an interrupt, then to both.\<close>

lemma clock_send: "send_round clock_sync clock_edit = clock_sent"
  by (simp add: send_round_def send_from_def clock_edit_peers take_unsent_def take_begin_def take_finish_def merge_unsent_def
      clock_sent_def clock_change_def numeral_2_eq_2 set_peer_def put_def)

theorem peers_settle_witness:
  "list_all (\<lambda>p. unsent p = [] \<and> set (ydoc p) = {0} \<and> \<not> has_pending clock_sync (ydoc p))
    (peers (deliver_in clock_sync clock_txn [(Some ''interrupt'', 1, clock_change), (None, 0, clock_change), (None, 1, clock_change)]
      (send_round clock_sync clock_edit)))"
proof -
  let ?schedule = "[(Some ''interrupt'', 1, clock_change), (None, 0, clock_change), (None, 1 :: nat, clock_change)]"
  have "covers ?schedule (send_round clock_sync clock_edit)"
    by (auto simp: covers_def clock_send clock_sent_parts)
  moreover have "world set clock_edit = {0}" by (simp add: world_def clock_edit_peers)
  ultimately show ?thesis
    using peers_settle [OF clock_network_laws clock_steps(3) clock_merges, of ?schedule] by simp
qed

text \<open>C14. What is written from Ruby reaches every peer: after any sequence of method calls on the handles of
  one peer - arrays, maps, texts and rich-text blocks, by any name and with any arguments, succeeding,
  refused, failing or interrupted - one round of takes and a delivery of every frame to every peer,
  in any order, leave everyone with exactly the changes the calls made and those made before, and
  nothing pending.\<close>

theorem ruby_edits_reach_peers:
  assumes "network_laws c (env_tu env) known carries integ covered"
    and "(net_step c (env_tu env) known integ)\<^sup>*\<^sup>* (start c k) n"
    and "\<And>us. \<exists>m. merge_updates_v1 c us = Inr m" and "i < length (peers n)"
    and "calls_add known integ (ruby_run env) (peers n ! i) calls"
    and "rb = foldl (ruby_run env) (peers n ! i) calls" and "covers schedule (send_round c (set_peer i rb n))"
  shows "length (peers (deliver_in c (env_tu env) schedule (send_round c (set_peer i rb n)))) = length (peers n)
    \<and> list_all (\<lambda>p. unsent p = [] \<and> known (ydoc p) = known (ydoc rb) \<union> world known n \<and> \<not> has_pending c (ydoc p))
        (peers (deliver_in c (env_tu env) schedule (send_round c (set_peer i rb n))))"
proof -
  have "(net_step c (env_tu env) known integ)\<^sup>*\<^sup>* n (set_peer i rb n)"
    unfolding assms(6) by (rule calls_are_steps [OF ruby_run_commits assms(4,5)])
  with assms(2) have "(net_step c (env_tu env) known integ)\<^sup>*\<^sup>* (start c k) (set_peer i rb n)" by (rule rtranclp_trans)
  note settled = exchange_settles [OF assms(1) reachable_inv [OF assms(1) this] assms(3,7)]
  have "known (ydoc (peers n ! i)) \<subseteq> known (ydoc rb)"
    unfolding assms(6) using assms(5) by (rule calls_add_grow)
  then have "world known (set_peer i rb n) = world known n \<union> known (ydoc rb)"
    by (intro world_update [OF assms(4)]) simp_all
  with settled show ?thesis by (simp add: Un_commute)
qed

definition clock_env :: "(nat list, nat) native_env" where
  "clock_env =
    \<lparr>arg_int = (\<lambda>v. case v of RInteger i \<Rightarrow> Inr i | _ \<Rightarrow> Inl ''no implicit conversion into Integer''),
     arg_str = (\<lambda>v. case v of RString s \<Rightarrow> Inr s | _ \<Rightarrow> Inl ''no implicit conversion into String''),
     arg_hash = (\<lambda>v. case v of RHash h \<Rightarrow> Inr h | _ \<Rightarrow> Inl ''no implicit conversion into Hash''),
     arg_ary = (\<lambda>v. case v of RArray a \<Rightarrow> Inr a | _ \<Rightarrow> Inl ''no implicit conversion into Array''),
     env_conv = \<lparr>conv_to_s = (\<lambda>_. Inl ToSFailed), conv_to_hash = (\<lambda>_. None), conv_to_ary = (\<lambda>_. None)\<rparr>,
     env_int = (\<lambda>_. None),
     env_string = (\<lambda>_. None),
     env_out = (\<lambda>_. []),
     env_yrs = plain_yrs,
     env_store = clock_store,
     env_tu = clock_txn\<rparr>"

text \<open>A push, a call with a wrong argument, one with a wrong number of arguments, and an interrupted
  push by its other name.\<close>

definition clock_calls :: "(string option \<times> bool \<times> nat receiver \<times> string \<times> rvalue list) list" where
  "clock_calls =
    [(None, True, YArray 0, ''push'', [RNil]), (None, True, YArray 0, ''insert'', [RNil, RTrue]),
     (None, True, YMap 0, ''clear'', [RNil]), (Some ''interrupt'', True, YArray 0, ''<<'', [RTrue])]"

lemmas clock_evals = clock_store_def clock_env_def ra_push_def ra_insert_at_def ruby_to_invalue_def invalue_at.simps
  with_value_def write_txn_def ra_insert_body_def bind_txn_def resolve_or_def ret_def local_write_def commit_txn_def on_commit_def
  MAX_NESTING_def Let_def clock_sv_def ruby_run_def ruby_call_def send_to_def find_method_def array_define_def map_define_def
  args1_def args2_def with_arg_def writes_def

lemma clock_calls_run:
  "ydoc (foldl (ruby_run clock_env) \<lparr>ydoc = [], unsent = []\<rparr> clock_calls) = [0, 1]"
  "calls_add set clock_integ (ruby_run clock_env) \<lparr>ydoc = [], unsent = []\<rparr> clock_calls"
  by (simp_all add: clock_calls_def clock_evals clock_integ_def le_Suc_eq)

definition clock_caller :: "nat list rb_doc" where
  "clock_caller = foldl (ruby_run clock_env) \<lparr>ydoc = [], unsent = []\<rparr> clock_calls"

theorem ruby_edits_reach_peers_witness:
  "\<exists>schedule. list_all (\<lambda>p. unsent p = [] \<and> set (ydoc p) = {0, 1} \<and> \<not> has_pending clock_sync (ydoc p))
    (peers (deliver_in clock_sync clock_txn schedule (send_round clock_sync (set_peer 1 clock_caller (start clock_sync 3)))))"
proof -
  let ?n = "send_round clock_sync (set_peer 1 clock_caller (start clock_sync 3))"
  let ?schedule = "map (Pair None) (List.product [0..<length (peers ?n)] (wire ?n))"
  have start: "peers (start clock_sync 3) ! 1 = \<lparr>ydoc = [], unsent = []\<rparr>" "1 < length (peers (start clock_sync 3))"
    by (simp_all add: start_def clock_sync_def)
  have tu: "env_tu clock_env = clock_txn" by (simp add: clock_env_def)
  have covers: "covers ?schedule ?n" by (simp add: covers_def image_image atLeast0LessThan)
  have "world set (start clock_sync 3) = {}" by (simp add: world_def start_def clock_sync_def)
  moreover have "set (ydoc clock_caller) = {0, 1}" using clock_calls_run(1) by (simp add: clock_caller_def)
  moreover have calls: "calls_add set clock_integ (ruby_run clock_env) (peers (start clock_sync 3) ! 1) clock_calls"
    unfolding start(1) by (rule clock_calls_run(2))
  moreover have caller: "clock_caller = foldl (ruby_run clock_env) (peers (start clock_sync 3) ! 1) clock_calls"
    unfolding start(1) clock_caller_def ..
  ultimately show ?thesis
    using ruby_edits_reach_peers [where env = clock_env, unfolded tu, OF clock_network_laws rtranclp.rtrancl_refl clock_merges start(2)
        calls caller covers]
    by (intro exI [of _ ?schedule]) simp
qed

section \<open>Calls from Ruby\<close>

text \<open>C9. Every call from Ruby is at most one local transaction: after any sequence of method calls on
  arrays, maps, texts and rich-text blocks, by any name and with any arguments, whether they succeed,
  are refused, fail or are followed by an interrupt, the unsent updates are the earlier ones followed
  by exactly what yrs reported for each call, in order, so \<open>Doc#edit\<close> neither misses nor repeats a
  write.\<close>

theorem ruby_calls_unsent:
  assumes "\<And>d. env_tu env d d = None"
  shows "unsent (foldl (ruby_run env) rb calls) = unsent rb @ reported (env_tu env) (ruby_run env) rb calls"
  by (rule calls_unsent) (rule assms ruby_run_commits)+

theorem ruby_calls_unsent_witness:
  "unsent (foldl (ruby_run clock_env) \<lparr>ydoc = [], unsent = []\<rparr> clock_calls) = [[0], [1]]"
proof -
  have "env_tu clock_env d d = None" for d by (simp add: clock_env_def clock_txn_def)
  from ruby_calls_unsent [OF this] show ?thesis
    by (simp add: clock_calls_def clock_evals clock_txn_def)
qed

text \<open>A call that is refused - an unknown or private method, a wrong number of arguments, an argument of
  the wrong type, a value or content that cannot be read - leaves the document and the unsent updates
  as they were.\<close>

theorem refused_calls_change_nothing:
  assumes "fst (ruby_call env intr block e recv name args rb) = Inl err" and "refuses err"
  shows "snd (ruby_call env intr block e recv name args rb) = rb"
  using ruby_call_clean [of rb env intr block e recv name args] assms by (simp add: clean_def)

theorem refused_calls_change_nothing_witness:
  "ruby_call clock_env None None True (YText 0) ''native_relative_position'' [RInteger 0, RString ''after''] \<lparr>ydoc = [0], unsent = [[0]]\<rparr>
    = (Inl (Lookup PrivateCall), \<lparr>ydoc = [0], unsent = [[0]]\<rparr>)"
proof -
  let ?r = "ruby_call clock_env None None True (YText 0) ''native_relative_position'' [RInteger 0, RString ''after'']
      \<lparr>ydoc = [0], unsent = [[0]]\<rparr>"
  have "fst ?r = Inl (Lookup PrivateCall)"
    by (simp add: ruby_call_def send_to_def find_method_def text_define_def)
  with refused_calls_change_nothing [OF this] show ?thesis by (simp add: prod_eq_iff)
qed

end
