(* ===== verification/RubyPrograms.thy ===== *)
theory RubyPrograms
  imports DocCalls PeerProps
begin

text \<open>
  Programs of Ruby calls on one document, through the document itself and through its handles:
  what they write is handed out by \<open>native_take_unsent\<close> or still waits, and calls that refuse or
  only read change nothing; and two documents that sync by calls on Strings.
\<close>

section \<open>Programs\<close>

text \<open>A program's document, the Strings \<open>native_take_unsent\<close> returned, the updates given to
  \<open>native_keep_unsent\<close>, and, for the statement, the updates yrs reported for handle calls.\<close>

record 'd program =
  prog_doc :: "'d rb_doc"
  prog_taken :: "string list"
  prog_kept :: "bytes list"
  prog_written :: "bytes list"

definition program_start :: "'d \<Rightarrow> 'd program" where
  "program_start d = \<lparr>prog_doc = \<lparr>ydoc = d, unsent = []\<rparr>, prog_taken = [], prog_kept = [], prog_written = []\<rparr>"

definition taken_by :: "string \<Rightarrow> call_error + 'id returned_value \<Rightarrow> string list" where
  "taken_by name r =
     (if name = ''native_take_unsent'' then (case r of Inr (RetValue (RBinary s)) \<Rightarrow> [s] | _ \<Rightarrow> []) else [])"

definition kept_by ::
  "(rvalue \<Rightarrow> string + string) \<Rightarrow> string \<Rightarrow> rvalue list \<Rightarrow> call_error + 'id returned_value \<Rightarrow> bytes list" where
  "kept_by conv name args r =
     (if name = ''native_keep_unsent''
      then (case (args, r) of
          ([v], Inr _) \<Rightarrow> (case rstring_arg conv v of Inr s \<Rightarrow> [copy_bytes s] | Inl _ \<Rightarrow> [])
        | _ \<Rightarrow> [])
      else [])"

inductive program_step :: "('d, 'id, 'upd, 'sv, 'aw) doc_env \<Rightarrow> 'd program \<Rightarrow> 'd program \<Rightarrow> bool" for env where
  on_handle: "program_step env p
     (p\<lparr>prog_doc := ruby_run (handle_env env) (prog_doc p) call,
        prog_written := prog_written p
          @ reported (env_tu (handle_env env)) (ruby_run (handle_env env)) (prog_doc p) [call]\<rparr>)"
| on_doc: "doc_call env intr key e name args (prog_doc p) = Some (r, rb) \<Longrightarrow>
     program_step env p
       (p\<lparr>prog_doc := rb, prog_taken := taken_by name r @ prog_taken p,
          prog_kept := kept_by (to_str env) name args r @ prog_kept p\<rparr>)"

section \<open>No write is lost\<close>

definition all_changes :: "(bytes \<Rightarrow> 'c set) \<Rightarrow> bytes list \<Rightarrow> 'c set" where
  "all_changes changes us = (\<Union>u \<in> set us. changes u)"

lemma all_changes_simps [simp]:
  "all_changes changes [] = {}" "all_changes changes (u # us) = changes u \<union> all_changes changes us"
  "all_changes changes (us @ vs) = all_changes changes us \<union> all_changes changes vs"
  by (auto simp: all_changes_def)

definition program_inv :: "(bytes \<Rightarrow> 'c set) \<Rightarrow> 'd program \<Rightarrow> bool" where
  "program_inv changes p \<longleftrightarrow>
     all_changes changes (unsent (prog_doc p)) \<union> all_changes changes (map copy_bytes (prog_taken p))
       = all_changes changes (prog_written p) \<union> all_changes changes (prog_kept p)
     \<and> list_all is_bytes (unsent (prog_doc p))"

text \<open>What yrs promises of its updates: merging is a union, an empty transaction reports nothing, and
  what it hands out is a sequence of bytes.\<close>

definition update_laws :: "(bytes \<Rightarrow> 'c set) \<Rightarrow> (bytes list \<Rightarrow> string + bytes) \<Rightarrow> ('d \<Rightarrow> 'd \<Rightarrow> bytes option) \<Rightarrow> bool" where
  "update_laws changes mu tu \<longleftrightarrow>
     merge_carries changes mu \<and> (\<forall>us m. mu us = Inr m \<longrightarrow> is_bytes m)
     \<and> (\<forall>d. tu d d = None) \<and> (\<forall>d d' u. tu d d' = Some u \<longrightarrow> is_bytes u)"

lemma special_names:
  assumes "find_method doc_define e name n = Inr op"
  shows "op = DocTakeUnsent \<longleftrightarrow> name = ''native_take_unsent''" "op = DocKeepUnsent \<longleftrightarrow> name = ''native_keep_unsent''"
  using assms by (auto simp: find_method_def doc_define_def split: if_splits)

lemma take_unsent_cases:
  assumes "take_unsent mu intr us = (r, us')"
  obtains (nothing_unsent) "us = []" "r = Inr None" "us' = []"
  | (merged) m where "us \<noteq> []" "merge_unsent mu us = Inr m" "r = Inr (Some m)" "us' = []"
  | (failed) e where "r = Inl e" "us' = us"
  using assms
  by (cases "us = []")
    (auto simp: take_unsent_def take_begin_def take_finish_def split: sum.splits option.splits)

lemma take_keeps_inv:
  assumes laws: "update_laws changes (merge_updates_v1 (doc_sync env)) tu" and inv: "program_inv changes p"
    and run: "doc_native env intr key DocTakeUnsent args (prog_doc p) = Some (r, rb)"
  shows "program_inv changes (p\<lparr>prog_doc := rb, prog_taken := taken_by ''native_take_unsent'' r @ prog_taken p\<rparr>)"
proof (cases args)
  case Nil
  let ?us = "unsent (prog_doc p)" and ?mu = "merge_updates_v1 (doc_sync env)"
  obtain q us' where t: "take_unsent ?mu intr ?us = (q, us')" by force
  with run Nil have r: "r = map_sum SyncError (ret_option ret_bytes) q" "rb = (prog_doc p)\<lparr>unsent := us'\<rparr>"
    by (simp_all add: args0_def)
  from t show ?thesis
  proof (cases rule: take_unsent_cases)
    case (merged m)
    have "merge_carries changes ?mu" using laws by (simp add: update_laws_def)
    from merge_unsent_content [OF this merged(2,1)] have "changes m = all_changes changes ?us"
      by (simp add: all_changes_def)
    moreover have "is_bytes m"
      using merge_unsent_all [OF _ _ merged(1,2), of is_bytes] laws inv by (simp add: update_laws_def program_inv_def)
    ultimately show ?thesis
      using inv r merged by (auto simp: program_inv_def taken_by_def ret_option_def ret_bytes_def binary_string_def)
  qed (use inv r in \<open>auto simp: program_inv_def taken_by_def ret_option_def\<close>)
next
  case (Cons v vs)
  with run have "r = Inl (Lookup WrongArguments)" "rb = prog_doc p" by (auto simp: args0_def)
  with inv show ?thesis by (simp add: program_inv_def taken_by_def)
qed

lemma keep_keeps_inv:
  assumes inv: "program_inv changes p" and run: "doc_native env intr key DocKeepUnsent args (prog_doc p) = Some (r, rb)"
  shows "program_inv changes
    (p\<lparr>prog_doc := rb, prog_kept := kept_by (to_str env) ''native_keep_unsent'' args r @ prog_kept p\<rparr>)"
proof -
  consider v s where "args = [v]" "rstring_arg (to_str env) v = Inr s" "r = Inr (ret_nil ())"
      "rb = (prog_doc p)\<lparr>unsent := copy_bytes s # unsent (prog_doc p)\<rparr>"
    | "rb = prog_doc p" "kept_by (to_str env) ''native_keep_unsent'' args r = []"
    using run
    by (cases args; cases "tl args"; cases "rstring_arg (to_str env) (hd args)")
      (auto simp: args1_def with_bytes_def with_arg_def kept_by_def keep_unsent_def)
  then show ?thesis
  proof cases
    case (1 v s)
    then have "kept_by (to_str env) ''native_keep_unsent'' args r = [copy_bytes s]" by (simp add: kept_by_def)
    with 1(4) inv show ?thesis by (simp add: program_inv_def Un_assoc Un_left_commute)
  next
    case 2
    with inv show ?thesis by (simp add: program_inv_def)
  qed
qed

lemma doc_keeps_inv:
  assumes "update_laws changes (merge_updates_v1 (doc_sync env)) tu" and "program_inv changes p"
    and "doc_call env intr key e name args (prog_doc p) = Some (r, rb)"
  shows "program_inv changes
    (p\<lparr>prog_doc := rb, prog_taken := taken_by name r @ prog_taken p,
       prog_kept := kept_by (to_str env) name args r @ prog_kept p\<rparr>)"
proof (cases "find_method doc_define e name (length args)")
  case (Inl err)
  with assms(2,3) show ?thesis by (auto simp: doc_call_def taken_by_def kept_by_def split: list.split)
next
  case (Inr op)
  note names = special_names [OF Inr]
  have run: "doc_native env intr key op args (prog_doc p) = Some (r, rb)" using assms(3) Inr by (simp add: doc_call_def)
  consider "op = DocTakeUnsent" | "op = DocKeepUnsent" | "op \<noteq> DocTakeUnsent" "op \<noteq> DocKeepUnsent" by blast
  then show ?thesis
  proof cases
    case 1
    with take_keeps_inv [OF assms(1,2)] run names show ?thesis by (simp add: kept_by_def)
  next
    case 2
    with keep_keeps_inv [OF assms(2)] run names show ?thesis by (simp add: taken_by_def)
  next
    case 3
    with doc_native_unsent [OF run] names assms(2) show ?thesis by (simp add: taken_by_def kept_by_def program_inv_def)
  qed
qed

lemma handle_keeps_inv:
  assumes "update_laws changes mu (env_tu (handle_env env))" and "program_inv changes p"
  shows "program_inv changes
    (p\<lparr>prog_doc := ruby_run (handle_env env) (prog_doc p) call,
       prog_written := prog_written p
         @ reported (env_tu (handle_env env)) (ruby_run (handle_env env)) (prog_doc p) [call]\<rparr>)"
proof -
  let ?tu = "env_tu (handle_env env)" and ?run = "ruby_run (handle_env env)"
  have "unsent (foldl ?run (prog_doc p) [call]) = unsent (prog_doc p) @ reported ?tu ?run (prog_doc p) [call]"
    using assms(1) by (intro calls_unsent ruby_run_commits) (simp add: update_laws_def)
  moreover have "list_all is_bytes (reported ?tu ?run (prog_doc p) [call])"
    using assms(1) by (auto simp: update_laws_def split: option.split)
  ultimately show ?thesis using assms(2) by (auto simp: program_inv_def)
qed

lemma program_reachable_inv:
  assumes "update_laws changes (merge_updates_v1 (doc_sync env)) (env_tu (handle_env env))"
    and "(program_step env)\<^sup>*\<^sup>* (program_start d) p"
  shows "program_inv changes p"
  using assms(2)
proof (induction rule: rtranclp_induct)
  case base
  show ?case by (simp add: program_start_def program_inv_def)
next
  case (step p q)
  from step(2,3) show ?case
    by cases (use handle_keeps_inv doc_keeps_inv assms(1) in blast)+
qed

section \<open>Two documents\<close>

text \<open>The answer to a frame is a frame or empty.\<close>

lemma reply_is_bytes:
  assumes "\<And>m. is_bytes (encode_message c m)" and "handle_sync_message c tu intr rb data = (Inr (k, l, resp), rb')"
  shows "is_bytes resp"
  using assms
  by (auto simp: handle_sync_message_def handle_closure_def nogvl_try_def nogvl_def is_bytes_def
      split: prod.splits sum.splits message.splits sync_message.splits option.splits elim!: map_sum_InrE)

lemma sync_names:
  "find_method doc_define e ''sync_step1'' 0 = Inr DocSyncStep1"
  "find_method doc_define e ''handle_sync_message'' 1 = Inr DocHandleSyncMessage"
  by (rule doc_rows.find_public [where arity = 0], simp_all add: doc_define_def)
    (rule doc_rows.find_public [where arity = 1, unfolded doc_define_def], simp_all)

lemma call_step1: "doc_call env intr key e ''sync_step1'' [] rb = Some (syncs ret_bytes (sync_step1 (doc_sync env) intr rb) rb)"
  by (simp add: doc_call_def args0_def sync_names)

lemma call_handle:
  assumes "is_bytes bs"
  shows "doc_call env intr key e ''handle_sync_message'' [binary_string bs] rb
    = Some (sync_writes ret_reply (handle_sync_message (doc_sync env) (env_tu (handle_env env)) intr rb bs))"
  using assms
  by (simp add: doc_call_def args1_def with_bytes_def with_arg_def sync_names [simplified] binary_string_def rstring_arg_def)

text \<open>One direction: the first document's step 1 to the second, the answer back to the first.\<close>

lemma pull_by_name:
  assumes "crdt_laws (doc_sync env) known carries integ" and "frame_laws (doc_sync env)"
    and "diff_laws (doc_sync env) known carries covered" and "\<And>m. is_bytes (encode_message (doc_sync env) m)"
  shows "\<exists>req resp r a'. doc_call env None key True ''sync_step1'' [] a = Some (Inr (RetValue req), a)
    \<and> doc_call env None key True ''handle_sync_message'' [req] b
        = Some (Inr (RetValue (RArray [RInteger 0, RInteger 0, resp])), b)
    \<and> doc_call env None key True ''handle_sync_message'' [resp] a = Some (Inr r, a')
    \<and> known (ydoc a') = known (ydoc a) \<union> known (ydoc b) \<and> unsent a' = unsent a"
proof -
  let ?c = "doc_sync env" and ?tu = "env_tu (handle_env env)"
  obtain req resp r a' where h: "sync_step1 ?c None a = Inr req"
    "handle_sync_message ?c ?tu None b req = (Inr (0, 0, resp), b)"
    "handle_sync_message ?c ?tu None a resp = (Inr r, a')"
    "known (ydoc a') = known (ydoc a) \<union> known (ydoc b)" "unsent a' = unsent a"
    using pull_known [OF assms(1-3)] by blast
  have "is_bytes req" using h(1) assms(4) by (auto simp: sync_step1_def nogvl_def)
  moreover have "is_bytes resp" by (rule reply_is_bytes [OF assms(4) h(2)])
  ultimately show ?thesis
    using h
    by (intro exI [of _ "binary_string req"] exI [of _ "binary_string resp"] exI [of _ "ret_reply r"] exI [of _ a'])
      (simp add: call_step1 call_handle syncs_def sync_writes_def ret_bytes_def ret_reply_def)
qed

section \<open>A document that hands out bytes\<close>

text \<open>The clock documents with every frame and update packed into bytes: a number as that many ones
  and a zero.\<close>

definition pack :: "nat list \<Rightarrow> bytes" where
  "pack ns = concat (map (\<lambda>n. replicate n 1 @ [0]) ns)"

fun unpack_from :: "nat \<Rightarrow> bytes \<Rightarrow> nat list" where
  "unpack_from k [] = []"
| "unpack_from k (b # bs) = (if b = 0 then k # unpack_from 0 bs else unpack_from (Suc k) bs)"

definition unpack :: "bytes \<Rightarrow> nat list" where
  "unpack bs = unpack_from 0 bs"

lemma unpack_ones: "unpack_from k (replicate n (Suc 0) @ 0 # bs) = (k + n) # unpack_from 0 bs"
  by (induction n arbitrary: k) auto

lemma unpack_pack [simp]: "unpack (pack ns) = ns"
  by (induction ns) (simp_all add: unpack_def pack_def unpack_ones)

lemma pack_bytes [simp]: "is_bytes (pack ns)"
  by (auto simp: is_bytes_def pack_def list_all_iff)

lemma pack_Nil [simp]: "pack [] = []"
  by (simp add: pack_def)

definition byte_sync :: "(nat list, nat list, nat, unit) yrs_sync" where
  "byte_sync = clock_sync
     \<lparr>decode_update := (\<lambda>bs. Inr (unpack bs)),
      encode_state_as_update := (\<lambda>d sv. pack (encode_state_as_update clock_sync d sv)),
      merge_updates_v1 := (\<lambda>us. Inr (pack (concat (map unpack us)))),
      decode_message := (\<lambda>bs. map_sum id (apsnd pack) (clock_decode (unpack bs))),
      read_messages := (\<lambda>bs. clock_read (unpack bs)),
      encode_message := (\<lambda>m. pack (clock_encode m))\<rparr>"

definition byte_txn :: "nat list \<Rightarrow> nat list \<Rightarrow> bytes option" where
  "byte_txn d d' = map_option pack (clock_txn d d')"

lemma byte_laws: "crdt_laws byte_sync set set clock_integ" "frame_laws byte_sync"
  "diff_laws byte_sync set set clock_covered"
proof -
  show "crdt_laws byte_sync set set clock_integ"
    using clock_crdt_laws by (simp add: crdt_laws_def byte_sync_def has_pending_def) (simp add: clock_sync_def)
  show "diff_laws byte_sync set set clock_covered"
    using clock_diff_laws by (simp add: diff_laws_def byte_sync_def) (simp add: clock_sync_def)
  have dec: "clock_decode (clock_encode m) = Inr (m, [])" and nil: "clock_read [] = []"
    and read: "clock_decode ns = Inr (m, rest) \<Longrightarrow> clock_read ns = Inr m # clock_read rest" for m ns rest
    using clock_frame_laws by (auto simp: frame_laws_def clock_sync_def)
  have "map_sum id (apsnd pack) (clock_decode ns) = Inr (m, rest) \<Longrightarrow> \<exists>r. clock_decode ns = Inr (m, r) \<and> rest = pack r"
    for ns m rest
    by (cases "clock_decode ns") auto
  then show "frame_laws byte_sync"
    unfolding frame_laws_def byte_sync_def using dec nil read by (fastforce simp: unpack_def [of "[]"])
qed

lemma byte_update_laws: "update_laws (\<lambda>bs. set (unpack bs)) (merge_updates_v1 byte_sync) byte_txn"
  by (auto simp: update_laws_def merge_carries_def byte_sync_def byte_txn_def clock_txn_def)

definition byte_env :: "(nat list, nat, nat list, nat, unit) doc_env" where
  "byte_env =
    \<lparr>handle_env = clock_env\<lparr>env_tu := byte_txn\<rparr>,
     doc_sync = byte_sync,
     doc_roots =
       \<lparr>new_doc = (\<lambda>_. []), doc_client = (\<lambda>_. 1), root_refs = (\<lambda>_. []), root_text_string = (\<lambda>_ _. None),
        root_fragment = (\<lambda>_ _. None), root_map_entries = (\<lambda>_ _. None), root_array_items = (\<lambda>_ _. None),
        xml_parent = (\<lambda>_ _. None), is_root_branch = (\<lambda>_. True), is_xml_text = (\<lambda>_ _. False)\<rparr>,
     to_str = (\<lambda>_. Inl ''no implicit conversion into String''),
     root_touch = (\<lambda>_ d. d),
     root_seq = (\<lambda>_ _. []),
     root_events = (\<lambda>_ _ _. [])\<rparr>"

lemma byte_env_parts: "doc_sync byte_env = byte_sync" "env_tu (handle_env byte_env) = byte_txn"
  by (simp_all add: byte_env_def)

section \<open>Properties\<close>

text \<open>C8. No write is lost on its way out of a Ruby program: after any sequence of calls by name on a
  document and its handles, with any arguments, succeeding, refused, failing or interrupted, the
  unsent updates and the Strings \<open>native_take_unsent\<close> returned together carry exactly what the
  handle calls wrote and what \<open>native_keep_unsent\<close> was given.\<close>

theorem no_write_lost:
  assumes "update_laws changes (merge_updates_v1 (doc_sync env)) (env_tu (handle_env env))"
    and "(program_step env)\<^sup>*\<^sup>* (program_start d) p"
  shows "all_changes changes (unsent (prog_doc p)) \<union> all_changes changes (map copy_bytes (prog_taken p))
    = all_changes changes (prog_written p) \<union> all_changes changes (prog_kept p)"
  using program_reachable_inv [OF assms] by (simp add: program_inv_def)

text \<open>A push on an array, taken.\<close>

definition byte_taken :: "nat list program" where
  "byte_taken = \<lparr>prog_doc = \<lparr>ydoc = [0], unsent = []\<rparr>, prog_taken = [map char_of (pack [0])], prog_kept = [],
     prog_written = [pack [0]]\<rparr>"

lemma byte_push:
  "ruby_run (handle_env byte_env) \<lparr>ydoc = [], unsent = []\<rparr> (None, True, YArray 0, ''push'', [RNil])
    = \<lparr>ydoc = [0], unsent = [pack [0]]\<rparr>"
  by (simp add: byte_env_def byte_txn_def clock_evals clock_txn_def)

lemma byte_take:
  "doc_call byte_env None 0 False ''native_take_unsent'' [] \<lparr>ydoc = [0], unsent = [pack [0]]\<rparr>
    = Some (Inr (RetValue (RBinary (map char_of (pack [0])))), \<lparr>ydoc = [0], unsent = []\<rparr>)"
proof -
  have "find_method doc_define False ''native_take_unsent'' 0 = Inr DocTakeUnsent"
    by (rule doc_rows.find_private(2) [where arity = 0]) (simp_all add: doc_define_def)
  then show ?thesis
    by (simp add: doc_call_def args0_def take_unsent_def take_begin_def take_finish_def merge_unsent_def ret_option_def
        ret_bytes_def binary_string_def)
qed

lemma byte_steps: "(program_step byte_env)\<^sup>*\<^sup>* (program_start []) byte_taken"
proof -
  let ?p = "\<lparr>prog_doc = \<lparr>ydoc = [0], unsent = [pack [0]]\<rparr>, prog_taken = [], prog_kept = [], prog_written = [pack [0]]\<rparr>"
  have "program_step byte_env (program_start []) ?p"
    using program_step.on_handle [of byte_env "program_start []" "(None, True, YArray 0, ''push'', [RNil])"]
    by (simp add: program_start_def byte_push byte_env_parts byte_txn_def clock_txn_def)
  moreover have "program_step byte_env ?p byte_taken"
    using program_step.on_doc [of byte_env None 0 False "''native_take_unsent''" "[]" ?p] byte_take
    by (simp add: byte_taken_def taken_by_def kept_by_def)
  ultimately show ?thesis by auto
qed

theorem no_write_lost_witness:
  "all_changes (\<lambda>bs. set (unpack bs)) (map copy_bytes (prog_taken byte_taken)) = {0}"
proof -
  have "update_laws (\<lambda>bs. set (unpack bs)) (merge_updates_v1 (doc_sync byte_env)) (env_tu (handle_env byte_env))"
    by (simp add: byte_env_parts byte_update_laws)
  from no_write_lost [OF this byte_steps] show ?thesis by (simp add: byte_taken_def)
qed

text \<open>C15. Two Ruby processes that sync by calls on their documents agree: the String \<open>sync_step1\<close>
  returns is given to the other's \<open>handle_sync_message\<close>, and the response in the array that
  returns is given back, once each way; every call succeeds, and both documents end up knowing
  exactly what the two knew together, with the same updates still unsent.\<close>

theorem docs_agree_by_name:
  assumes "crdt_laws (doc_sync env) known carries integ" and "frame_laws (doc_sync env)"
    and "diff_laws (doc_sync env) known carries covered" and "\<And>m. is_bytes (encode_message (doc_sync env) m)"
  shows "\<exists>req resp r a' req' resp' r' b'.
      doc_call env None key True ''sync_step1'' [] a = Some (Inr (RetValue req), a)
    \<and> doc_call env None key True ''handle_sync_message'' [req] b
        = Some (Inr (RetValue (RArray [RInteger 0, RInteger 0, resp])), b)
    \<and> doc_call env None key True ''handle_sync_message'' [resp] a = Some (Inr r, a')
    \<and> doc_call env None key True ''sync_step1'' [] b = Some (Inr (RetValue req'), b)
    \<and> doc_call env None key True ''handle_sync_message'' [req'] a'
        = Some (Inr (RetValue (RArray [RInteger 0, RInteger 0, resp'])), a')
    \<and> doc_call env None key True ''handle_sync_message'' [resp'] b = Some (Inr r', b')
    \<and> known (ydoc a') = known (ydoc a) \<union> known (ydoc b) \<and> known (ydoc b') = known (ydoc a')
    \<and> unsent a' = unsent a \<and> unsent b' = unsent b"
proof -
  note pull = pull_by_name [OF assms]
  obtain req resp r a' where a: "doc_call env None key True ''sync_step1'' [] a = Some (Inr (RetValue req), a)"
    "doc_call env None key True ''handle_sync_message'' [req] b = Some (Inr (RetValue (RArray [RInteger 0, RInteger 0, resp])), b)"
    "doc_call env None key True ''handle_sync_message'' [resp] a = Some (Inr r, a')"
    "known (ydoc a') = known (ydoc a) \<union> known (ydoc b)" "unsent a' = unsent a"
    using pull [of key a b] by blast
  obtain req' resp' r' b' where b: "doc_call env None key True ''sync_step1'' [] b = Some (Inr (RetValue req'), b)"
    "doc_call env None key True ''handle_sync_message'' [req'] a'
      = Some (Inr (RetValue (RArray [RInteger 0, RInteger 0, resp'])), a')"
    "doc_call env None key True ''handle_sync_message'' [resp'] b = Some (Inr r', b')"
    "known (ydoc b') = known (ydoc b) \<union> known (ydoc a')" "unsent b' = unsent b"
    using pull [of key b a'] by blast
  have "known (ydoc b') = known (ydoc a')" using a(4) b(4) by blast
  with a b show ?thesis by blast
qed

theorem docs_agree_by_name_witness:
  "\<exists>resp r a'. doc_call byte_env None 0 True ''handle_sync_message'' [resp] \<lparr>ydoc = [0, 4], unsent = []\<rparr> = Some (Inr r, a')
     \<and> set (ydoc a') = {0, 1, 2, 4}"
proof -
  have laws: "crdt_laws (doc_sync byte_env) set set clock_integ" "frame_laws (doc_sync byte_env)"
    "diff_laws (doc_sync byte_env) set set clock_covered"
    by (simp_all add: byte_env_parts byte_laws)
  have "is_bytes (encode_message (doc_sync byte_env) m)" for m
    by (simp add: byte_env_parts byte_sync_def)
  note agree = docs_agree_by_name [OF laws this, of 0 "\<lparr>ydoc = [0, 4], unsent = []\<rparr>" "\<lparr>ydoc = [1, 2], unsent = []\<rparr>"]
  have "set [0, 4] \<union> set [1, 2] = {0, 1, 2, 4 :: nat}" by auto
  with agree show ?thesis by (metis rb_doc.select_convs(1))
qed

text \<open>The names of the methods of a document that only read.\<close>

definition reader_names :: "string list" where
  "reader_names = map fst (filter (\<lambda>(_, _, _, op). op \<in> set readers) doc_define)"

lemma reader_name_op:
  assumes "name \<in> set reader_names" and "find_method doc_define e name n = Inr op"
  shows "op \<in> set readers"
proof -
  obtain vis arity op' where row: "(name, vis, arity, op') \<in> set doc_define" "op' \<in> set readers"
    using assms(1) by (auto simp: reader_names_def)
  from doc_rows.row_found [OF row(1)] assms(2) have "op = op'"
    by (auto simp: find_method_def split: if_splits)
  with row(2) show ?thesis by simp
qed

text \<open>C32. Calls that refuse or only read change nothing.  A call on a handle that is refused - an unknown
  or private method, a wrong number of arguments, an argument of the wrong type, a value or content
  that cannot be read - leaves the document and the unsent updates as they were, and so does one on
  the document itself; and so does every call, whatever comes of it, of a method of the document that
  reads: its state, its roots, what waits, positions and what an update would do.\<close>

theorem quiet_calls_change_nothing:
  shows "(fst (ruby_call (handle_env env) intr block e recv name args rb) = Inl err \<longrightarrow> refuses err \<longrightarrow>
      snd (ruby_call (handle_env env) intr block e recv name args rb) = rb)
    \<and> (doc_call env intr key e name args rb = Some (r, rb') \<longrightarrow>
        name \<in> set reader_names \<or> (\<exists>err. r = Inl err \<and> refuses err) \<longrightarrow> rb' = rb)"
proof (intro conjI impI)
  assume "doc_call env intr key e name args rb = Some (r, rb')"
    and quiet: "name \<in> set reader_names \<or> (\<exists>err. r = Inl err \<and> refuses err)"
  then show "rb' = rb"
  proof (cases "find_method doc_define e name (length args)")
    case (Inr op)
    with \<open>doc_call env intr key e name args rb = _\<close> have run: "doc_native env intr key op args rb = Some (r, rb')"
      by (simp add: doc_call_def)
    from reader_leaves [OF reader_name_op [OF _ Inr] run] doc_native_clean [OF run] quiet
    show ?thesis by (auto simp: clean_def)
  qed (simp add: doc_call_def)
qed (rule refused_calls_change_nothing)

theorem quiet_calls_change_nothing_witness:
  "(\<exists>r. ruby_call (handle_env byte_env) None None True (YText 0) ''native_relative_position'' [RInteger 0, RString ''after'']
       \<lparr>ydoc = [0], unsent = [[1, 0]]\<rparr> = (r, \<lparr>ydoc = [0], unsent = [[1, 0]]\<rparr>))
   \<and> (\<exists>r. doc_call byte_env None 0 True ''native_take_unsent'' [] \<lparr>ydoc = [0], unsent = [[1, 0]]\<rparr>
       = Some (r, \<lparr>ydoc = [0], unsent = [[1, 0]]\<rparr>))
   \<and> (\<exists>r. doc_call byte_env None 0 True ''sync_step1'' [] \<lparr>ydoc = [0], unsent = [[1, 0]]\<rparr>
       = Some (r, \<lparr>ydoc = [0], unsent = [[1, 0]]\<rparr>))"
proof -
  let ?rb = "\<lparr>ydoc = [0], unsent = [[1, 0]]\<rparr>"
  let ?h = "ruby_call (handle_env byte_env) None None True (YText 0) ''native_relative_position'' [RInteger 0, RString ''after''] ?rb"
  note quiet = quiet_calls_change_nothing [where env = byte_env and key = 0 and intr = None and e = True and rb = ?rb]
  have "fst ?h = Inl (Lookup PrivateCall)"
    by (simp add: ruby_call_def send_to_def find_method_def text_define_def)
  then have h: "snd ?h = ?rb" using quiet by simp
  have "find_method doc_define True ''native_take_unsent'' 0 = Inl PrivateCall"
    by (rule doc_rows.find_private(1) [where arity = 0 and op = DocTakeUnsent]) (simp add: doc_define_def)
  then obtain s where t: "doc_call byte_env None 0 True ''native_take_unsent'' [] ?rb = Some (Inl (Lookup PrivateCall), s)"
    by (simp add: doc_call_def)
  then have "s = ?rb" using quiet by simp
  moreover obtain r u where u: "doc_call byte_env None 0 True ''sync_step1'' [] ?rb = Some (r, u)"
    by (simp add: call_step1 syncs_def)
  have "''sync_step1'' \<in> set reader_names" by (simp add: reader_names_def doc_define_def readers_def)
  with quiet u have "u = ?rb" by blast
  ultimately show ?thesis using h t u by (metis prod.collapse)
qed

end
