(* ===== verification/Spec2Isabelle.thy ===== *)
theory Spec2Isabelle
  imports SyncProps ValueProps BlockProps RubyPrograms
begin

text \<open>
  \<^bold>\<open>yrby\<close>: Ruby bindings of yrs, the Rust port of the Yjs CRDT (\<open>src/ext/yrby\<close>).  This theory is the root
  of a verification library of its Rust code.

  \<^bold>\<open>The program.\<close>  A \<open>Y::Doc\<close> wraps a yrs document and the list of updates its own transactions made
  that no \<open>Doc#edit\<close> has returned yet.  It syncs with peers by frames (\<open>protocol.rs\<close>, \<open>lib.rs\<close>), reads
  its roots as plain values (\<open>read.rs\<close>), hands out live handles to arrays, maps, texts and rich-text
  blocks (\<open>array.rs\<close>, \<open>map.rs\<close>, \<open>text.rs\<close>, \<open>xml_text.rs\<close>, which share \<open>shared.rs\<close>), and renders
  ProseMirror and Lexical documents to HTML (the crates \<open>html-core\<close>, \<open>prosemirror-html\<close>,
  \<open>lexical-html\<close>).  A \<open>Y::Awareness\<close> is a presence handle.  Every call runs its work without Ruby's
  interpreter lock (\<open>nogvl\<close>) and checks for interrupts afterwards.

  \<^bold>\<open>The model.\<close>  Each Rust function is a HOL function of the same name, prefixed where two files share
  names: \<open>pm_\<close> and \<open>lx_\<close> for the renderers, \<open>rd_\<close> for \<open>read.rs\<close>, \<open>ra_\<close>, \<open>rm_\<close>, \<open>rt_\<close>, \<open>rx_\<close> for the handles,
  \<open>aw_\<close> for presence.  A \<open>&str\<close> is a HOL string holding its UTF-8 bytes (\<open>chars\<close> cuts it into
  characters), an \<open>i64\<close> an \<open>int\<close>, a \<open>u32\<close> index a \<open>nat\<close> (its bounds are lemmas), a format mask and an
  awareness clock a \<open>32 word\<close>, a \<open>HashMap\<close> an association list in iteration order, a \<open>Result\<close> a sum, a
  mutation explicit state passing.  yrs, magnus and serde\_json are parameters: records of the functions
  the sources call (\<open>yrs\<close>, \<open>yrs_sync\<close>, \<open>yrs_store\<close>, \<open>yrs_roots\<close>, \<open>yrs_awareness\<close>), with what the code relies
  on as named hypotheses (\<open>crdt_laws\<close>, \<open>advance_laws\<close>, \<open>diff_laws\<close>, \<open>frame_laws\<close>, \<open>array_laws\<close>, \<open>map_laws\<close>,
  \<open>text_laws\<close>, \<open>tree_laws\<close>, \<open>sticky_laws\<close>, \<open>presence_law\<close>, \<open>network_laws\<close>, \<open>update_laws\<close>, \<open>runs_or_skips\<close>).  \<open>crdt_laws\<close> takes it that
  yrs applies every update that decodes; the model has yrs's error all the same, and returns it.  Each group of
  hypotheses is shown to hold in a concrete instance: \<open>ClockModel\<close>, the start of \<open>PeerProps\<close> and
  \<open>RubyPrograms\<close> for the sync laws, \<open>SampleStore\<close> for the store laws, the end of \<open>Presence\<close> for awareness.

  \<^bold>\<open>The theories\<close>, in the order of the code:

  \<^item> \<open>Prelude\<close>: errors as sums, \<open>nogvl\<close>, UTF-8 and UTF-16, shared list and option lemmas; \<open>YrsData\<close>: the
    data types of yrs.
  \<^item> \<open>HtmlCore\<close> (\<open>html-core/src/lib.rs\<close>): the emitter, segments, render rules, URL schemes.  \<open>Markup\<close>: the
    grammar of well-formed escaped markup.  \<open>Walker\<close>: the tree walk both renderers have, as a locale
    over the crate's own operations, interpreted for both.
  \<^item> \<open>ProseMirror\<close>, \<open>PmMarkup\<close> and \<open>Lexical\<close>, \<open>LxMarkup\<close>: the two renderers, and that their output is in the
    grammar; \<open>RenderProps\<close>: their properties.
  \<^item> \<open>Protocol\<close> (\<open>protocol.rs\<close>), \<open>Unsent\<close> and \<open>DocSync\<close> (\<open>RbDoc\<close> of \<open>lib.rs\<close>): frames, readiness, gap-free
    state, the unsent updates as a step relation over threads, applying and answering.
    \<open>DocBlocks\<close>: \<open>Children\<close>, \<open>root_positions\<close>, \<open>apply_update_changes\<close>, and edit scripts as the reference for
    both kinds of delta.  \<open>SyncProps\<close>: their properties.
  \<^item> \<open>ReadDoc\<close> (\<open>read.rs\<close>), \<open>SharedIndex\<close> and \<open>SharedValues\<close> (\<open>shared.rs\<close>), \<open>RubyBindings\<close> (\<open>lib.rs\<close>): content
    readers, indexes, Ruby values (a codatatype, as a Hash may contain itself), native renderer classes
    and position hashes.  \<open>RubySeq\<close>: Ruby's indexes into an Array or a String by cutting the sequence, the
    reference for the index functions.  \<open>ValueProps\<close>: their properties.
  \<^item> \<open>Handles\<close> (\<open>shared.rs\<close>): write transactions, the locale \<open>local_op\<close> (a write method commits at most one
    local transaction), the locale \<open>text_sequence\<close> (the editing code both text handles have).
    \<open>ArrayHandle\<close>, \<open>MapHandle\<close>, \<open>TextHandle\<close>, \<open>XmlTextHandle\<close>: every method, with an interpretation of
    \<open>local_op\<close> for each write, of \<open>text_sequence\<close> for the two texts, and the reference each refines:
    Ruby's Array, a finite map, Ruby's String, with what a handle does where Ruby's index is out of range.  \<open>XmlTree\<close>: the block tree as a store of nodes.
  \<^item> \<open>DocLookup\<close> (\<open>RbDoc\<close>): roots, \<open>block_at\<close>, \<open>find\<close>; \<open>Presence\<close> (\<open>RbAwareness\<close>); \<open>HandleCalls\<close>: calls on
    handles of every kind as one sequence; \<open>HandleProps\<close> and \<open>BlockProps\<close>: their properties.
  \<^item> \<open>NativeCall\<close> (\<open>nogvl\<close>, \<open>guarded\<close>, \<open>write\<close>): leaving Ruby's lock with closures that can panic and a
    runtime that may skip them, refined by the simple \<open>nogvl\<close>, \<open>guarded\<close> and \<open>write_txn\<close> the other theories
    use.  \<open>Dispatch\<close> (\<open>init\<close> and the four \<open>define\<close>s): the method tables of every class, and a call by name
    on a handle from lookup to result, under the locales \<open>method_table\<close>, \<open>native_class\<close> and \<open>native_writer\<close>.
    \<open>Renderers\<close>: \<open>RbLexical\<close> and \<open>RbProseMirror\<close> as objects.
  \<^item> \<open>NativeGlue\<close> (\<open>binary_string\<close>, \<open>copy_bytes\<close>, \<open>yrb_error\<close>, \<open>lock\<close>, the constants of \<open>init\<close>): Strings of bytes, error
    classes, the mutex.  \<open>DocCalls\<close> (\<open>init\<close>): calls by name on a document, a renderer, a presence and the
    module, under the same locales.  \<open>RubyPrograms\<close>: programs of such calls as a step relation, and their
    properties, with a document that hands out bytes as their instance.
  \<^item> \<open>Peers\<close>: any number of documents and a wire as a step relation over \<open>local_write\<close>, \<open>take_unsent\<close>,
    \<open>keep_unsent\<close>, \<open>sync_step1\<close>, \<open>wrap_update\<close> and \<open>handle_sync_message\<close>, with its invariant; \<open>PeerProps\<close>:
    convergence, settling by one round of takes and deliveries (\<open>send_round\<close>, \<open>deliver_in\<close>), and what Ruby
    calls leave for the peers.
  \<^item> This theory: the properties that span components.

  \<^bold>\<open>What is shown.\<close>  Rendering never fails an expectation and produces well-formed, escaped markup over
  known tags, with safe links, whatever the document; readiness and novelty of an update are decided
  exactly; any number of peers converge over a wire that reorders, repeats and withholds frames, can
  always settle by takes and deliveries alone, and two that answer each other's first step agree at once; no local write is lost or
  repeated in any interleaving of commits and takes, nor by any program of Ruby calls on a document and
  its handles, documents sync by calls on Strings of bytes, and a call that is refused or only reads
  changes nothing; a closure that leaves the lock runs exactly once and a panicking write
  still returns and commits; handles behave as Ruby's collections call by
  call wherever Ruby's indexes are in range; rich-text content is written exactly, blocks are inserted, deleted and found
  at the ordinal asked for; positions, characters, values and frames make the round trip; handles to
  what is gone read empty and change nothing, most writes raising; the JSON of a root depends on its
  content and on the strings yrs renders for text and XML, not on hash maps; an update reports exactly
  the blocks it touched; a cleared presence reaches the other peers and stays cleared.

  \<^bold>\<open>Bounds and termination.\<close>  The renderers cap the depth of a document at 1024 levels (\<open>MAX_DEPTH\<close> in
  \<open>ProseMirror\<close>, \<open>MAX_BLOCK_DEPTH\<close> and \<open>MAX_INLINE_DEPTH\<close> in \<open>Lexical\<close>); the walks are structural or run on a measure, with no fuel.  Ruby
  values and content nest at most \<open>MAX_NESTING\<close> (100) levels, which is also why their conversion
  terminates.  Merging takes \<open>MERGE_FAN_IN\<close> (16) updates at a time.  The two walks over the block tree
  (\<open>contains_branch\<close>, \<open>top\<close>) are partial functions into \<open>option\<close>; they return on every finite tree.

  \<^bold>\<open>Not modelled.\<close>  yrs itself, float formatting and JSON parsing (parameters); what \<open>rb_nogvl\<close> does
  inside, magnus's conversions of arguments (parameters); reentrant calls from a block given to \<open>each\<close> in
  a program of calls; panics of yrs outside \<open>guarded\<close>; the Ruby and JavaScript layers, the tests and the
  fixture generator.  The rest of the Rust code is \<open>use\<close> lines, attributes and \<open>assert_thread_safe\<close>, which
  the compiler checks.
\<close>

section \<open>Sync\<close>

text \<open>The two-way handshake converges: when each side answers the other's step 1, both
  exchanges succeed, and both documents end up knowing exactly what the two knew together.\<close>

theorem sync_handshake_converges:
  assumes "crdt_laws c known carries integ" and "frame_laws c" and "diff_laws c known carries covered"
  shows "\<exists>req resp r a' req' resp' r' b'.
      sync_step1 c None a = Inr req
    \<and> handle_sync_message c tu None b req = (Inr (0, 0, resp), b)
    \<and> handle_sync_message c tu None a resp = (Inr r, a')
    \<and> sync_step1 c None b = Inr req'
    \<and> handle_sync_message c tu None a' req' = (Inr (0, 0, resp'), a')
    \<and> handle_sync_message c tu None b resp' = (Inr r', b')
    \<and> known (ydoc a') = known (ydoc a) \<union> known (ydoc b) \<and> known (ydoc b') = known (ydoc a')
    \<and> unsent a' = unsent a \<and> unsent b' = unsent b"
proof -
  note pull = pull_known [OF assms, where tu = tu]
  obtain req resp r a' where a: "sync_step1 c None a = Inr req"
    "handle_sync_message c tu None b req = (Inr (0, 0, resp), b)"
    "handle_sync_message c tu None a resp = (Inr r, a')"
    "known (ydoc a') = known (ydoc a) \<union> known (ydoc b)" "unsent a' = unsent a"
    using pull [of a b] by blast
  obtain req' resp' r' b' where b: "sync_step1 c None b = Inr req'"
    "handle_sync_message c tu None a' req' = (Inr (0, 0, resp'), a')"
    "handle_sync_message c tu None b resp' = (Inr r', b')"
    "known (ydoc b') = known (ydoc b) \<union> known (ydoc a')" "unsent b' = unsent b"
    using pull [of b a'] by blast
  have "known (ydoc b') = known (ydoc a')" using a(4) b(4) by blast
  with a b show ?thesis by blast
qed

theorem sync_handshake_converges_witness:
  "\<exists>resp r a'. handle_sync_message clock_sync (\<lambda>_ _. None) None (clock_doc [0, 4]) resp = (Inr r, a')
     \<and> set (ydoc a') = {0, 1, 2, 4}"
proof -
  have "set (ydoc (clock_doc [0, 4])) \<union> set (ydoc (clock_doc [1, 2])) = {0, 1, 2, 4}"
    by (auto simp: clock_doc_def)
  with sync_handshake_converges [OF clock_crdt_laws clock_frame_laws clock_diff_laws,
      where a = "clock_doc [0, 4]" and b = "clock_doc [1, 2]" and tu = "\<lambda>_ _. None"]
  show ?thesis by metis
qed

lemma ready_after:
  assumes laws: "crdt_laws c known carries integ" and "ready_over integ S C"
  shows "ready_over integ (S \<union> C) C"
proof -
  have "integ S \<union> C \<subseteq> S \<union> C" using crdt_lawsD(1) [OF laws] by blast
  from crdt_lawsD(2) [OF laws this] assms(2) have "C \<subseteq> integ (S \<union> C)" by (auto simp: ready_over_def)
  then show ?thesis by (simp add: ready_over_def Un_absorb2 crdt_lawsD(3) [OF laws])
qed

text \<open>C19. A retry is not recorded twice: once a ready update without a hidden gap has been
  applied, \<open>update_advances?\<close> says no for it (and for anything with no other changes).\<close>

theorem retry_not_recorded:
  assumes laws: "crdt_laws c known carries integ" and adv: "advance_laws c known carries integ"
    and u: "decode_update c bs = Inr u" and ready: "update_ready c None rb bs = Inr True"
    and gap: "\<not> hides_gap c u"
  shows "\<exists>rb'. apply_update c tu None rb bs = (Inr (), rb')
    \<and> known (ydoc rb') = known (ydoc rb) \<union> carries u \<and> update_advances c None rb' bs = Inr False"
proof -
  have "ready_over integ (known (ydoc rb)) (carries u)"
    using ready update_is_ready_exact [OF laws u] by (simp add: update_ready_def nogvl_try_def nogvl_def)
  note after = ready_after [OF laws this]
  obtain d where d: "doc_apply_update c (ydoc rb) u = Inr d" "known d = known (ydoc rb) \<union> carries u"
    using crdt_lawsD(5) [OF laws] by blast
  let ?rb = "commit_txn tu (Some REMOTE) rb d"
  have "apply_update c tu None rb bs = (Inr (), ?rb)"
    using u d by (simp add: apply_update_def apply_remote_def nogvl_try_def nogvl_def)
  moreover have "update_advances c None ?rb bs = Inr False"
    using update_advances_exact [OF laws adv u _ gap, of d] after d(2)
    by (simp add: update_advances_def nogvl_try_def nogvl_def)
  ultimately show ?thesis using d(2) by (metis ydoc_commit)
qed

theorem retry_not_recorded_witness:
  "\<exists>rb'. apply_update clock_sync (\<lambda>_ _. None) None (clock_doc [0, 1, 5]) [2, 3] = (Inr (), rb')
    \<and> update_advances clock_sync None rb' [2, 3] = Inr False"
proof -
  have "update_ready clock_sync None (clock_doc [0, 1, 5]) [2, 3] = Inr True" by code_simp
  moreover have "\<not> hides_gap clock_sync [2, 3]" by code_simp
  ultimately show ?thesis
    using retry_not_recorded [OF clock_crdt_laws clock_advance_laws, of "[2, 3]" "[2, 3]"] by fastforce
qed

section \<open>Blocks\<close>

text \<open>The two ways the code counts blocks agree: the unit index at which
  \<open>embedded_xml_text_index\<close> finds block \<open>n\<close> is the start of a block of the root's children,
  and its ordinal is \<open>n\<close>.\<close>

theorem block_ordinals_agree:
  assumes "n < length (embedded_xml_texts t)"
  shows "\<exists>i. embedded_xml_text_index t n = Some i
    \<and> is_block (children_of (tx_diff t)) i \<and> ordinal (children_of (tx_diff t)) i = n"
proof -
  obtain pre post where p: "pieces (tx_diff t) = pre @ OYXmlText (embedded_xml_texts t ! n) # post"
    "length (xml_texts_of pre) = n"
    using xml_texts_of_nth [of n "pieces (tx_diff t)"] assms unfolding embedded_xml_texts_def by blast
  let ?i = "sum_list (concat (map piece_widths pre))"
  have "embedded_xml_text_index t n = Some ?i"
    unfolding embedded_xml_text_index_def p(1)
    using embedded_loop_found [of pre "embedded_xml_texts t ! n" post 0 0] p(2) by simp
  moreover have "is_block (children_of (tx_diff t)) ?i"
    using is_block_loop [of pre _ post 0] p(1) by (simp add: children_of_def pieces_def)
  moreover have "ordinal (children_of (tx_diff t)) ?i = n"
    using ordinal_after [of "tx_diff t" pre] p by (simp add: pieces_def)
  ultimately show ?thesis by blast
qed

theorem block_ordinals_agree_witness:
  "\<exists>i. embedded_xml_text_index (XmlText [] (accented @ [(OYXmlText (XmlText [] []), None)])) 0 = Some i
    \<and> ordinal (children_of (accented @ [(OYXmlText (XmlText [] []), None)])) i = 0"
  using block_ordinals_agree [of 0 "XmlText [] (accented @ [(OYXmlText (XmlText [] []), None)])"]
  by (auto simp: embedded_xml_texts_def pieces_def accented_def)

section \<open>Frames\<close>

text \<open>A wrapped update is a frame the server records: it classifies as a document change,
  and the update comes back out of it, byte for byte, unless the update is a no-op.\<close>

theorem frame_round_trip:
  assumes "frame_laws c" and "decode_update c bs = Inr u"
  shows "message_kind c None (wrap_update c bs) = Inr 2
    \<and> update_from_message c None (wrap_update c bs) = Inr (if upd_is_noop c u then None else Some bs)"
proof -
  let ?m = "MSync (SyncUpdate bs)"
  have dec: "decode_message c (encode_message c ?m) = Inr (?m, [])"
    using assms(1) by (simp add: frame_laws_def)
  then have "read_messages c (encode_message c ?m) = [Inr ?m]"
    using assms(1) unfolding frame_laws_def by metis
  with dec assms(2) show ?thesis
    by (simp add: wrap_update_def message_kind_def classify_message_def update_from_message_def
        merged_doc_update_def nogvl_def nogvl_try_def)
qed

theorem frame_round_trip_witness:
  "message_kind clock_sync None (wrap_update clock_sync [3, 4]) = Inr 2
    \<and> update_from_message clock_sync None (wrap_update clock_sync [3, 4])
        = Inr (if upd_is_noop clock_sync [3, 4] then None else Some [3, 4])"
  by (rule frame_round_trip [OF clock_frame_laws]) simp

text \<open>C39. The module functions undo each other on Strings: for the String of an update, \<open>wrap_update\<close> returns
  a frame, \<open>message_kind\<close> says of it that it is a document change, and \<open>update_from_message\<close> returns
  the String it was made from, byte for byte, or nil when the update is a no-op.\<close>

theorem frames_by_name:
  assumes "frame_laws (doc_sync env)" and "decode_update (doc_sync env) bs = Inr u" and "is_bytes bs"
    and "is_bytes (wrap_update (doc_sync env) bs)"
  shows "\<exists>frame.
      send_to module_define (module_native env None) True ''wrap_update'' [binary_string bs] () = (Inr (RetValue frame), ())
    \<and> send_to module_define (module_native env None) True ''message_kind'' [frame] () = (Inr (RetValue (RInteger 2)), ())
    \<and> send_to module_define (module_native env None) True ''update_from_message'' [frame] ()
        = (Inr (RetValue (if upd_is_noop (doc_sync env) u then RNil else binary_string bs)), ())"
proof -
  let ?frame = "binary_string (wrap_update (doc_sync env) bs)"
  have names: "(''wrap_update'', Public, 1, WrapUpdate) \<in> set module_define"
    "(''message_kind'', Public, 1, MessageKind) \<in> set module_define"
    "(''update_from_message'', Public, 1, UpdateFromMessage) \<in> set module_define"
    by (simp_all add: module_define_def)
  note runs = names [THEN yfun.public_runs, simplified]
  from frame_round_trip [OF assms(1,2)] assms(3,4) show ?thesis
    by (intro exI [of _ ?frame])
      (simp add: runs args1_def with_bytes_def with_arg_def syncs_def ret_bytes_def ret_nat_def ret_option_def)
qed

theorem frames_by_name_witness:
  "send_to module_define (module_native byte_env None) True ''update_from_message''
      [binary_string (wrap_update byte_sync (pack [3, 4]))] ()
    = (Inr (RetValue (binary_string (pack [3, 4]))), ())"
proof -
  have "decode_update (doc_sync byte_env) (pack [3, 4]) = Inr [3, 4]" "frame_laws (doc_sync byte_env)"
    "is_bytes (wrap_update (doc_sync byte_env) (pack [3, 4]))"
    by (simp_all add: byte_env_parts byte_laws) (simp_all add: byte_sync_def wrap_update_def)
  from frames_by_name [OF this(2,1) pack_bytes this(3)]
  obtain frame where f: "send_to module_define (module_native byte_env None) True ''wrap_update'' [binary_string (pack [3, 4])] ()
      = (Inr (RetValue frame), ())"
    "send_to module_define (module_native byte_env None) True ''update_from_message'' [frame] ()
      = (Inr (RetValue (if upd_is_noop (doc_sync byte_env) [3, 4] then RNil else binary_string (pack [3, 4]))), ())"
    by blast
  have "frame = binary_string (wrap_update byte_sync (pack [3, 4]))"
    using f(1) by (simp add: send_to_def find_method_def module_define_def args1_def with_bytes_def with_arg_def ret_bytes_def
        byte_env_parts)
  moreover have "\<not> upd_is_noop (doc_sync byte_env) [3, 4]"
    by (simp add: byte_env_parts byte_sync_def clock_sync_def upd_is_noop_def clock_end_def clock_lower_def)
  ultimately show ?thesis using f(2) by simp
qed

end
